theory Spec2Isabelle
  imports Complex_Main "HOL-Library.Multiset"
begin

section \<open>Python values\<close>

text \<open>
  The result payloads handled by the task stores are arbitrary Python values.  The
  constructors below are the kinds of value that the normalizers tell apart with
  \<^verbatim>\<open>isinstance\<close>:
  \<^item> \<open>PNone\<close>, \<open>PStr\<close>, \<open>PInt\<close>, \<open>PFloat\<close>, \<open>PBool\<close>: the scalars;
  \<^item> \<open>PDataFrame cols rows\<close>: a pandas DataFrame with the column labels \<open>cols\<close> and
    one list of cells per row (a cell is any Python value);
  \<^item> \<open>PSeries kvs\<close>: a pandas Series, index label and value;
  \<^item> \<open>PDict kvs\<close>: a dict in insertion order, \<open>PList\<close> and \<open>PTuple\<close>;
  \<^item> \<open>PObject r\<close>: any other object; \<open>r\<close> is what \<^verbatim>\<open>str(obj)\<close> does:
    \<open>Some s\<close> when it returns \<open>s\<close>, \<open>None\<close> when \<^verbatim>\<open>__str__\<close> raises.
\<close>

datatype pyval =
    PNone
  | PStr string
  | PInt int
  | PFloat real
  | PBool bool
  | PDataFrame "pyval list" "pyval list list"
  | PSeries "(pyval \<times> pyval) list"
  | PDict "(pyval \<times> pyval) list"
  | PList "pyval list"
  | PTuple "pyval list"
  | PObject "string option"

text \<open>\<^verbatim>\<open>len(df)\<close> is the number of rows and \<^verbatim>\<open>df.head(n)\<close> the first \<open>n\<close> rows.\<close>

definition to_dict_records :: "pyval list \<Rightarrow> pyval list list \<Rightarrow> pyval" where
  \<comment> \<open>\<^verbatim>\<open>df.to_dict('records')\<close>: one dict per row, from column label to cell\<close>
  "to_dict_records cols rows = PList (map (\<lambda>row. PDict (zip cols row)) rows)"

section \<open>The result normalizers\<close>

text \<open>
  \<^verbatim>\<open>SelectorTaskDB._clean_for_json\<close> and \<^verbatim>\<open>StockAnalysisTaskDB._clean_for_json\<close>
  (the two methods have the same body).
\<close>

fun clean_for_json :: "pyval \<Rightarrow> pyval" where
  "clean_for_json PNone = PNone"
| "clean_for_json (PStr s) = PStr s"
| "clean_for_json (PInt i) = PInt i"
| "clean_for_json (PFloat f) = PFloat f"
| "clean_for_json (PBool b) = PBool b"
| "clean_for_json (PDataFrame cols rows) =
     (if length rows > 100 then to_dict_records cols (take 100 rows)
      else to_dict_records cols rows)"
| "clean_for_json (PSeries kvs) = PDict kvs"
| "clean_for_json (PDict kvs) = PDict (map (\<lambda>(k, v). (k, clean_for_json v)) kvs)"
| "clean_for_json (PList xs) = PList (map clean_for_json xs)"
| "clean_for_json (PTuple xs) = PList (map clean_for_json xs)"
| "clean_for_json (PObject r) = (case r of Some s \<Rightarrow> PStr s | None \<Rightarrow> PNone)"

text \<open>
  The nested function \<^verbatim>\<open>clean_value\<close> of
  \<^verbatim>\<open>MainForceBatchDatabase._clean_results_for_json\<close>.  It tests the kinds in another
  order and, when \<^verbatim>\<open>str(value)\<close> raises, returns a fixed string (the UTF-8 bytes
  of the source literal are written out).
\<close>

definition unserializable :: string where
  "unserializable = map char_of
     [0xE6, 0x97, 0xA0, 0xE6, 0xB3, 0x95, 0xE5, 0xBA, 0x8F, 0xE5, 0x88, 0x97, 0xE5, 0x8C, 0x96 :: nat]"

fun clean_value :: "pyval \<Rightarrow> pyval" where
  "clean_value PNone = PNone"
| "clean_value (PDataFrame cols rows) =
     (if length rows > 100 then to_dict_records cols (take 100 rows)
      else to_dict_records cols rows)"
| "clean_value (PSeries kvs) = PDict kvs"
| "clean_value (PDict kvs) = PDict (map (\<lambda>(k, v). (k, clean_value v)) kvs)"
| "clean_value (PList xs) = PList (map clean_value xs)"
| "clean_value (PTuple xs) = PList (map clean_value xs)"
| "clean_value (PStr s) = PStr s"
| "clean_value (PInt i) = PInt i"
| "clean_value (PFloat f) = PFloat f"
| "clean_value (PBool b) = PBool b"
| "clean_value (PObject r) = (case r of Some s \<Rightarrow> PStr s | None \<Rightarrow> PStr unserializable)"

subsection \<open>The recursion limit\<close>

text \<open>
  Both normalizers call themselves on the values of a dict and on the items of a list or
  tuple, inside a comprehension and outside any \<^verbatim>\<open>try\<close>.  Every level of nesting is
  one more call on the interpreter's stack, and a call that the recursion limit does not
  admit raises \<^verbatim>\<open>RecursionError\<close>, which leaves the normalizer through every enclosing
  comprehension.

  \<open>clean_for_json_within n obj\<close> is the call \<^verbatim>\<open>_clean_for_json(obj)\<close> made when the
  stack admits \<open>n\<close> more nested calls of the normalizer, and \<open>clean_value_within\<close> is
  the same for \<^verbatim>\<open>clean_value\<close>; \<open>Inl RecursionError\<close> is the exception.  The calls
  into pandas and \<^verbatim>\<open>str\<close> are leaves of this count.  \<open>comprehension\<close> evaluates the
  items of a comprehension from left to right: the first exception ends it.
  \<open>clean_for_json\<close> and \<open>clean_value\<close> above are the values of the calls that return.
\<close>

datatype recursion_error = RecursionError

fun comprehension :: "(recursion_error + 'a) list \<Rightarrow> recursion_error + 'a list" where
  "comprehension [] = Inr []"
| "comprehension (Inl e # rs) = Inl e"
| "comprehension (Inr v # rs) =
     (case comprehension rs of Inl e \<Rightarrow> Inl e | Inr vs \<Rightarrow> Inr (v # vs))"

fun clean_for_json_within :: "nat \<Rightarrow> pyval \<Rightarrow> recursion_error + pyval" where
  "clean_for_json_within 0 obj = Inl RecursionError"
| "clean_for_json_within (Suc n) PNone = Inr PNone"
| "clean_for_json_within (Suc n) (PStr s) = Inr (PStr s)"
| "clean_for_json_within (Suc n) (PInt i) = Inr (PInt i)"
| "clean_for_json_within (Suc n) (PFloat f) = Inr (PFloat f)"
| "clean_for_json_within (Suc n) (PBool b) = Inr (PBool b)"
| "clean_for_json_within (Suc n) (PDataFrame cols rows) =
     Inr (if length rows > 100 then to_dict_records cols (take 100 rows)
          else to_dict_records cols rows)"
| "clean_for_json_within (Suc n) (PSeries kvs) = Inr (PDict kvs)"
| "clean_for_json_within (Suc n) (PDict kvs) =
     map_sum id PDict
       (comprehension (map (\<lambda>(k, v). map_sum id (Pair k) (clean_for_json_within n v)) kvs))"
| "clean_for_json_within (Suc n) (PList xs) =
     map_sum id PList (comprehension (map (clean_for_json_within n) xs))"
| "clean_for_json_within (Suc n) (PTuple xs) =
     map_sum id PList (comprehension (map (clean_for_json_within n) xs))"
| "clean_for_json_within (Suc n) (PObject r) =
     Inr (case r of Some s \<Rightarrow> PStr s | None \<Rightarrow> PNone)"

fun clean_value_within :: "nat \<Rightarrow> pyval \<Rightarrow> recursion_error + pyval" where
  "clean_value_within 0 v = Inl RecursionError"
| "clean_value_within (Suc n) PNone = Inr PNone"
| "clean_value_within (Suc n) (PDataFrame cols rows) =
     Inr (if length rows > 100 then to_dict_records cols (take 100 rows)
          else to_dict_records cols rows)"
| "clean_value_within (Suc n) (PSeries kvs) = Inr (PDict kvs)"
| "clean_value_within (Suc n) (PDict kvs) =
     map_sum id PDict
       (comprehension (map (\<lambda>(k, v). map_sum id (Pair k) (clean_value_within n v)) kvs))"
| "clean_value_within (Suc n) (PList xs) =
     map_sum id PList (comprehension (map (clean_value_within n) xs))"
| "clean_value_within (Suc n) (PTuple xs) =
     map_sum id PList (comprehension (map (clean_value_within n) xs))"
| "clean_value_within (Suc n) (PStr s) = Inr (PStr s)"
| "clean_value_within (Suc n) (PInt i) = Inr (PInt i)"
| "clean_value_within (Suc n) (PFloat f) = Inr (PFloat f)"
| "clean_value_within (Suc n) (PBool b) = Inr (PBool b)"
| "clean_value_within (Suc n) (PObject r) =
     Inr (case r of Some s \<Rightarrow> PStr s | None \<Rightarrow> PStr unserializable)"

text \<open>
  \<open>nesting x\<close> is the number of nested calls that normalizing \<open>x\<close> makes: one for the
  value, and one more for each level of dict, list or tuple around its deepest item.
  Tables and series are not entered.  \<open>nested k\<close> is the empty list inside \<open>k\<close> lists.
\<close>

fun nesting :: "pyval \<Rightarrow> nat" where
  "nesting (PDict kvs) = Suc (foldr max (map (\<lambda>(k, v). nesting v) kvs) 0)"
| "nesting (PList xs) = Suc (foldr max (map nesting xs) 0)"
| "nesting (PTuple xs) = Suc (foldr max (map nesting xs) 0)"
| "nesting _ = 1"

fun nested :: "nat \<Rightarrow> pyval" where
  "nested 0 = PList []"
| "nested (Suc k) = PList [nested k]"

subsection \<open>What the output is built from\<close>

text \<open>
  \<open>plain v\<close>: \<open>v\<close> is built only from None, strings, numbers, booleans, and dicts and
  lists of such values.  \<open>json_value v\<close> asks in addition that every dict key is one
  that \<^verbatim>\<open>json.dumps\<close> accepts (str, int, float, bool or None): these are the values
  that serialize without the \<^verbatim>\<open>default\<close> hook.
\<close>

fun plain :: "pyval \<Rightarrow> bool" where
  "plain PNone = True"
| "plain (PStr s) = True"
| "plain (PInt i) = True"
| "plain (PFloat f) = True"
| "plain (PBool b) = True"
| "plain (PDict kvs) = list_all (\<lambda>(k, v). plain v) kvs"
| "plain (PList xs) = list_all plain xs"
| "plain _ = False"

fun json_key :: "pyval \<Rightarrow> bool" where
  "json_key PNone = True"
| "json_key (PStr s) = True"
| "json_key (PInt i) = True"
| "json_key (PFloat f) = True"
| "json_key (PBool b) = True"
| "json_key _ = False"

fun json_value :: "pyval \<Rightarrow> bool" where
  "json_value PNone = True"
| "json_value (PStr s) = True"
| "json_value (PInt i) = True"
| "json_value (PFloat f) = True"
| "json_value (PBool b) = True"
| "json_value (PDict kvs) = list_all (\<lambda>(k, v). json_key k \<and> json_value v) kvs"
| "json_value (PList xs) = list_all json_value xs"
| "json_value _ = False"

text \<open>
  The normalizers copy the cells of a DataFrame and the values of a Series as they are
  (\<^verbatim>\<open>to_dict\<close> is the last step), and they keep dict keys.  \<open>cells_plain x\<close> says
  that the tables and series inside \<open>x\<close> hold plain cells only; \<open>json_ready x\<close> says
  that their cells are JSON values and that all column labels, index labels and dict keys
  are JSON keys.
\<close>

fun cells_plain :: "pyval \<Rightarrow> bool" where
  "cells_plain (PDataFrame cols rows) = list_all (list_all plain) rows"
| "cells_plain (PSeries kvs) = list_all (\<lambda>(k, v). plain v) kvs"
| "cells_plain (PDict kvs) = list_all (\<lambda>(k, v). cells_plain v) kvs"
| "cells_plain (PList xs) = list_all cells_plain xs"
| "cells_plain (PTuple xs) = list_all cells_plain xs"
| "cells_plain _ = True"

fun json_ready :: "pyval \<Rightarrow> bool" where
  "json_ready (PDataFrame cols rows) =
     (list_all json_key cols \<and> list_all (list_all json_value) rows)"
| "json_ready (PSeries kvs) = list_all (\<lambda>(k, v). json_key k \<and> json_value v) kvs"
| "json_ready (PDict kvs) = list_all (\<lambda>(k, v). json_key k \<and> json_ready v) kvs"
| "json_ready (PList xs) = list_all json_ready xs"
| "json_ready (PTuple xs) = list_all json_ready xs"
| "json_ready _ = True"


section \<open>Shared vocabulary of the three schedulers\<close>

text \<open>
  Timestamps are readings of a clock.  What a call into code outside the repository does
  (a selection function, the analysis of one stock) is an \<open>outcome\<close>: it returns a value
  or raises.  Every store call a worker makes is written to a journal, so that claims about
  the sequence of calls can be stated; the journal is not part of the program.
\<close>

type_synonym timestamp = nat

datatype 'a outcome = Returns 'a | Raises string

datatype call =
    StatusCall string string
  | ProgressCall string int
  | StepCall string real
  | SaveCall string

text \<open>
  The result of analysing one stock is a dict with the keys \<^verbatim>\<open>symbol\<close> and
  \<^verbatim>\<open>success\<close> and further entries; \<^verbatim>\<open>success\<close> is a bool in every dict
  that \<^verbatim>\<open>analyze_single_stock\<close> and \<^verbatim>\<open>_analyze_single\<close> build.
\<close>

record unit_result =
  symbol :: string
  success :: bool
  others :: "(string \<times> pyval) list"

definition failure :: "string \<Rightarrow> string \<Rightarrow> unit_result" where
  \<comment> \<open>\<^verbatim>\<open>{"symbol": code, "success": False, "error": str(e)}\<close>\<close>
  "failure code e = \<lparr>symbol = code, success = False, others = [(''error'', PStr e)]\<rparr>"

definition result_items :: "unit_result \<Rightarrow> (pyval \<times> pyval) list" where
  "result_items r =
     (PStr ''symbol'', PStr (symbol r)) # (PStr ''success'', PBool (success r))
       # map (\<lambda>(k, v). (PStr k, v)) (others r)"

definition non_terminal :: "string \<Rightarrow> bool" where
  \<comment> \<open>\<^verbatim>\<open>status IN ('pending', 'running')\<close>\<close>
  "non_terminal st = (st = ''pending'' \<or> st = ''running'')"

definition terminal :: "string \<Rightarrow> bool" where
  \<comment> \<open>\<^verbatim>\<open>status in ('completed', 'failed', 'cancelled')\<close>\<close>
  "terminal st = (st = ''completed'' \<or> st = ''failed'' \<or> st = ''cancelled'')"

section \<open>MainForceBatchDatabase: the task table\<close>

text \<open>
  A row of \<^verbatim>\<open>batch_task_status\<close> and a row of \<^verbatim>\<open>batch_analysis_history\<close>.  The JSON
  text columns hold the value that is serialized.  \<open>task_seq\<close> and \<open>history_seq\<close> are
  the AUTOINCREMENT counters of the two tables.
\<close>

record task_row =
  bts_id :: nat
  bts_task_id :: string
  bts_status :: string
  bts_stock_codes :: "string list"
  bts_analysis_mode :: string
  bts_max_workers :: int
  bts_total_count :: int
  bts_completed_count :: int
  bts_success_count :: int
  bts_failed_count :: int
  bts_current_stock :: "string option"
  bts_progress_percent :: real
  bts_error_message :: "string option"
  bts_history_record_id :: "nat option"
  bts_started_at :: "timestamp option"
  bts_completed_at :: "timestamp option"
  bts_created_at :: timestamp

record history_row =
  bah_id :: nat
  bah_analysis_date :: timestamp
  bah_batch_count :: int
  bah_analysis_mode :: string
  bah_success_count :: int
  bah_failed_count :: int
  bah_total_time :: real
  bah_results_json :: "pyval list"

record batch_db =
  task_rows :: "task_row list"
  task_seq :: nat
  history_rows :: "history_row list"
  history_seq :: nat

datatype db_error = OperationalError | IntegrityError

text \<open>
  \<^verbatim>\<open>MainForceBatchDatabase.create_task\<close> has no \<^verbatim>\<open>try\<close>: an error of the storage
  layer leaves the method as an exception.  \<open>fault\<close> says that SQLite fails for a reason
  outside the model (locked or unwritable file); a \<^verbatim>\<open>task_id\<close> that is already in the
  table violates the UNIQUE constraint.  On success the method returns
  \<^verbatim>\<open>cursor.lastrowid\<close>.
\<close>

definition mf_create_task ::
  "bool \<Rightarrow> timestamp \<Rightarrow> batch_db \<Rightarrow> string \<Rightarrow> string list \<Rightarrow> string \<Rightarrow> int
     \<Rightarrow> db_error + (nat \<times> batch_db)" where
  "mf_create_task fault now db tid codes mode workers =
     (if fault then Inl OperationalError
      else if tid \<in> set (map bts_task_id (task_rows db)) then Inl IntegrityError
      else
        let record_id = task_seq db + 1;
            row = \<lparr>bts_id = record_id, bts_task_id = tid, bts_status = ''pending'',
                   bts_stock_codes = codes, bts_analysis_mode = mode,
                   bts_max_workers = workers, bts_total_count = int (length codes),
                   bts_completed_count = 0, bts_success_count = 0, bts_failed_count = 0,
                   bts_current_stock = None, bts_progress_percent = 0,
                   bts_error_message = None, bts_history_record_id = None,
                   bts_started_at = None, bts_completed_at = None, bts_created_at = now\<rparr>
        in Inr (record_id, db\<lparr>task_rows := task_rows db @ [row], task_seq := record_id\<rparr>))"

definition set_if :: "'a option \<Rightarrow> 'a option \<Rightarrow> 'a option" where
  \<comment> \<open>a nullable column that is assigned only when the argument is not None\<close>
  "set_if arg old = (case arg of None \<Rightarrow> old | Some v \<Rightarrow> Some v)"

definition mf_update_task_status ::
  "batch_db \<Rightarrow> string \<Rightarrow> string \<Rightarrow> string option \<Rightarrow> nat option
     \<Rightarrow> timestamp option \<Rightarrow> timestamp option \<Rightarrow> batch_db" where
  "mf_update_task_status db tid st error_message history_record_id started_at completed_at =
     db\<lparr>task_rows := map (\<lambda>r.
        if bts_task_id r = tid then
          r\<lparr>bts_status := st,
            bts_error_message := set_if error_message (bts_error_message r),
            bts_history_record_id := set_if history_record_id (bts_history_record_id r),
            bts_started_at := set_if started_at (bts_started_at r),
            bts_completed_at := set_if completed_at (bts_completed_at r)\<rparr>
        else r) (task_rows db)\<rparr>"

definition mf_update_task_progress ::
  "batch_db \<Rightarrow> string \<Rightarrow> int \<Rightarrow> string option \<Rightarrow> int option \<Rightarrow> int option
     \<Rightarrow> real option \<Rightarrow> batch_db" where
  "mf_update_task_progress db tid completed_count current_stock success_count failed_count
       progress_percent =
     db\<lparr>task_rows := map (\<lambda>r.
        if bts_task_id r = tid then
          r\<lparr>bts_completed_count := completed_count,
            bts_current_stock := set_if current_stock (bts_current_stock r),
            bts_success_count := (case success_count of None \<Rightarrow> bts_success_count r | Some n \<Rightarrow> n),
            bts_failed_count := (case failed_count of None \<Rightarrow> bts_failed_count r | Some n \<Rightarrow> n),
            bts_progress_percent :=
              (case progress_percent of None \<Rightarrow> bts_progress_percent r | Some p \<Rightarrow> p)\<rparr>
        else r) (task_rows db)\<rparr>"

definition mf_get_task_by_id :: "batch_db \<Rightarrow> string \<Rightarrow> task_row option" where
  "mf_get_task_by_id db tid = find (\<lambda>r. bts_task_id r = tid) (task_rows db)"

definition clean_results_for_json :: "(pyval \<times> pyval) list list \<Rightarrow> pyval list" where
  \<comment> \<open>every result is a dict here, so the \<^verbatim>\<open>except\<close> of the loop is not reached\<close>
  "clean_results_for_json results =
     map (\<lambda>items. PDict (map (\<lambda>(key, value). (key, clean_value value)) items)) results"

definition save_batch_analysis ::
  "timestamp \<Rightarrow> batch_db \<Rightarrow> int \<Rightarrow> string \<Rightarrow> int \<Rightarrow> int \<Rightarrow> real
     \<Rightarrow> (pyval \<times> pyval) list list \<Rightarrow> nat \<times> batch_db" where
  "save_batch_analysis now db batch_count mode success_count failed_count total_time results =
     (let record_id = history_seq db + 1;
          row = \<lparr>bah_id = record_id, bah_analysis_date = now, bah_batch_count = batch_count,
                 bah_analysis_mode = mode, bah_success_count = success_count,
                 bah_failed_count = failed_count, bah_total_time = total_time,
                 bah_results_json = clean_results_for_json results\<rparr>
      in (record_id, db\<lparr>history_rows := history_rows db @ [row], history_seq := record_id\<rparr>))"


section \<open>MainForceBatchScheduler: the worker\<close>

text \<open>
  What the worker \<^verbatim>\<open>_run_analysis\<close> cannot compute itself is collected in an
  environment:
  \<^item> \<open>app_analyze code\<close>: what \<^verbatim>\<open>app.analyze_single_stock_for_batch\<close> does for a stock;
  \<^item> \<open>cancel_is_set k\<close>: what \<^verbatim>\<open>self._cancel_flag.is_set()\<close> answers when it is asked
    while \<^verbatim>\<open>results\<close> holds \<open>k\<close> units (the flag is only set during a run, never
    cleared, so the check that leaves a loop and the check after the loop agree);
  \<^item> \<open>completion_order codes\<close>: the order in which \<^verbatim>\<open>as_completed\<close> yields the futures;
  \<^item> \<open>store_fault n\<close>: \<open>Some e\<close> when the \<open>n\<close>-th store call of the run raises \<open>e\<close>
    (SQLite or \<^verbatim>\<open>json.dumps\<close>), \<open>time_at n\<close>: the clock at that call;
  \<^item> \<open>elapsed_time\<close>: \<^verbatim>\<open>time.time() - start_time\<close>.

  A run carries the store, the journal of store calls, the pending exception, the local
  list \<^verbatim>\<open>results\<close> and the two scheduler fields that the \<^verbatim>\<open>finally\<close> block resets.
\<close>

record batch_env =
  app_analyze :: "string \<Rightarrow> unit_result outcome"
  cancel_is_set :: "nat \<Rightarrow> bool"
  completion_order :: "string list \<Rightarrow> string list"
  store_fault :: "nat \<Rightarrow> string option"
  time_at :: "nat \<Rightarrow> timestamp"
  elapsed_time :: real

record run =
  store :: batch_db
  journal :: "call list"
  raised :: "string option"
  results :: "unit_result list"
  task_lock_held :: bool
  current_task_id :: "string option"

definition store_call ::
  "batch_env \<Rightarrow> call \<Rightarrow> (timestamp \<Rightarrow> batch_db \<Rightarrow> batch_db) \<Rightarrow> run \<Rightarrow> run" where
  "store_call env c f r =
     (case store_fault env (length (journal r)) of
        Some e \<Rightarrow> r\<lparr>journal := journal r @ [c], raised := Some e\<rparr>
      | None \<Rightarrow> r\<lparr>store := f (time_at env (length (journal r))) (store r),
                  journal := journal r @ [c]\<rparr>)"

definition analyze_single :: "batch_env \<Rightarrow> string \<Rightarrow> unit_result" where
  \<comment> \<open>\<^verbatim>\<open>_analyze_single\<close>: any exception of the analysis becomes a failure dict\<close>
  "analyze_single env code =
     (case app_analyze env code of Returns result \<Rightarrow> result | Raises e \<Rightarrow> failure code e)"

definition count_success :: "unit_result list \<Rightarrow> int" where
  \<comment> \<open>\<^verbatim>\<open>sum(1 for r in results if r.get('success'))\<close>\<close>
  "count_success rs = int (length (filter success rs))"

definition count_failed :: "unit_result list \<Rightarrow> int" where
  \<comment> \<open>\<^verbatim>\<open>sum(1 for r in results if not r.get('success'))\<close>\<close>
  "count_failed rs = int (length (filter (\<lambda>r. \<not> success r) rs))"

definition percent :: "nat \<Rightarrow> nat \<Rightarrow> real" where
  \<comment> \<open>\<^verbatim>\<open>(i / total) * 100\<close>, with exact division in place of the float one\<close>
  "percent i ntotal = (real i / real ntotal) * 100"

text \<open>The body of the sequential loop for the unit \<open>code\<close> at index \<open>i\<close>.\<close>

definition sequential_body :: "batch_env \<Rightarrow> string \<Rightarrow> nat \<Rightarrow> nat \<Rightarrow> string \<Rightarrow> run \<Rightarrow> run" where
  "sequential_body env tid ntotal i code r =
     (let r1 = store_call env (ProgressCall tid (int i))
                 (\<lambda>now db. mf_update_task_progress db tid (int i) (Some code) None None
                               (Some (percent i ntotal))) r
      in if raised r1 \<noteq> None then r1
      else
        let result = analyze_single env code;
            r2 = r1\<lparr>results := results r1 @ [result]\<rparr>
        in store_call env (ProgressCall tid (int i + 1))
             (\<lambda>now db. mf_update_task_progress db tid (int i + 1) None
                           (Some (count_success (results r2))) (Some (count_failed (results r2)))
                           (Some (percent (i + 1) ntotal))) r2)"

fun sequential_loop :: "batch_env \<Rightarrow> string \<Rightarrow> nat \<Rightarrow> nat \<Rightarrow> string list \<Rightarrow> run \<Rightarrow> run" where
  "sequential_loop env tid ntotal i [] r = r"
| "sequential_loop env tid ntotal i (code # codes) r =
     (if cancel_is_set env (length (results r)) then r
      else
        let r' = sequential_body env tid ntotal i code r
        in if raised r' \<noteq> None then r'
           else sequential_loop env tid ntotal (i + 1) codes r')"

text \<open>
  The parallel loop over the futures in completion order; \<open>completed\<close> is the local
  counter.  \<^verbatim>\<open>_analyze_single\<close> catches every exception, so \<^verbatim>\<open>future.result()\<close>
  returns its dict.
\<close>

definition parallel_body :: "batch_env \<Rightarrow> string \<Rightarrow> nat \<Rightarrow> nat \<Rightarrow> string \<Rightarrow> run \<Rightarrow> run" where
  "parallel_body env tid ntotal completed code r =
     (let result = analyze_single env code;
          r1 = r\<lparr>results := results r @ [result]\<rparr>
      in store_call env (ProgressCall tid (int completed))
           (\<lambda>now db. mf_update_task_progress db tid (int completed) (Some code)
                         (Some (count_success (results r1))) (Some (count_failed (results r1)))
                         (Some (percent completed ntotal))) r1)"

fun parallel_loop :: "batch_env \<Rightarrow> string \<Rightarrow> nat \<Rightarrow> nat \<Rightarrow> string list \<Rightarrow> run \<Rightarrow> run" where
  "parallel_loop env tid ntotal completed [] r = r"
| "parallel_loop env tid ntotal completed (code # futures) r =
     (if cancel_is_set env (length (results r)) then r
      else
        let r' = parallel_body env tid ntotal (completed + 1) code r
        in if raised r' \<noteq> None then r'
           else parallel_loop env tid ntotal (completed + 1) futures r')"

text \<open>The statistics and the final status, after either loop.\<close>

definition finalize :: "batch_env \<Rightarrow> string \<Rightarrow> string list \<Rightarrow> string \<Rightarrow> run \<Rightarrow> run" where
  "finalize env tid codes mode r =
     (let success_count = count_success (results r);
          failed_count = int (length (results r)) - success_count
      in if \<not> cancel_is_set env (length (results r)) then
           let r1 = store_call env (SaveCall tid)
                      (\<lambda>now db. snd (save_batch_analysis now db (int (length codes)) mode
                                        success_count failed_count (elapsed_time env)
                                        (map result_items (results r)))) r
           in if raised r1 \<noteq> None then r1
              else store_call env (StatusCall tid ''completed'')
                     (\<lambda>now db. mf_update_task_status db tid ''completed'' None
                                   (Some (history_seq db)) None (Some now)) r1
         else store_call env (StatusCall tid ''cancelled'')
                (\<lambda>now db. mf_update_task_status db tid ''cancelled'' None None None (Some now)) r)"

definition run_analysis ::
  "batch_env \<Rightarrow> string \<Rightarrow> string list \<Rightarrow> string \<Rightarrow> int \<Rightarrow> run \<Rightarrow> run" where
  "run_analysis env tid codes mode workers r0 =
     (let ntotal = length codes;
          r1 = store_call env (StatusCall tid ''running'')
                 (\<lambda>now db. mf_update_task_status db tid ''running'' None None (Some now) None)
                 (r0\<lparr>results := [], raised := None\<rparr>);
          r2 = (if raised r1 \<noteq> None then r1
                else if mode = ''sequential'' then sequential_loop env tid ntotal 0 codes r1
                else if workers \<le> 0 then r1\<lparr>raised := Some ''max_workers must be greater than 0''\<rparr>
                else parallel_loop env tid ntotal 0 (completion_order env codes) r1);
          r3 = (if raised r2 \<noteq> None then r2 else finalize env tid codes mode r2);
          r4 = (case raised r3 of
                  None \<Rightarrow> r3
                | Some error_msg \<Rightarrow>
                    store_call env (StatusCall tid ''failed'')
                      (\<lambda>now db. mf_update_task_status db tid ''failed'' (Some error_msg) None None
                                    (Some now))
                      (r3\<lparr>raised := None\<rparr>))
      in r4\<lparr>current_task_id := None, task_lock_held := False\<rparr>)"


text \<open>
  The values that the worker's \<^verbatim>\<open>update_task_progress\<close> calls write to
  \<^verbatim>\<open>completed_count\<close>, in the order of the calls.
\<close>

definition progress_writes :: "call list \<Rightarrow> int list" where
  "progress_writes cs = concat (map (\<lambda>c. case c of ProgressCall _ n \<Rightarrow> [n] | _ \<Rightarrow> []) cs)"

definition no_fault :: "batch_env \<Rightarrow> bool" where
  \<comment> \<open>no store call of the run raises\<close>
  "no_fault env = (\<forall>n. store_fault env n = None)"

text \<open>A task table with a running task \<open>t1\<close> and a finished task \<open>t0\<close>, for the examples.\<close>

definition example_row :: "nat \<Rightarrow> string \<Rightarrow> string \<Rightarrow> task_row" where
  "example_row n tid st =
     \<lparr>bts_id = n, bts_task_id = tid, bts_status = st,
      bts_stock_codes = [''600000'', ''600004'', ''600006''], bts_analysis_mode = ''sequential'',
      bts_max_workers = 3, bts_total_count = 3, bts_completed_count = 1,
      bts_success_count = 0, bts_failed_count = 1, bts_current_stock = Some ''600004'',
      bts_progress_percent = 100 / 3, bts_error_message = None, bts_history_record_id = None,
      bts_started_at = Some 5, bts_completed_at = None, bts_created_at = 4\<rparr>"

definition example_db :: batch_db where
  "example_db = \<lparr>task_rows = [example_row 1 ''t0'' ''completed'', example_row 2 ''t1'' ''running''],
                  task_seq = 2, history_rows = [], history_seq = 0\<rparr>"

section \<open>What the two task stores with \<^verbatim>\<open>try\<close> blocks share\<close>

text \<open>
  \<^verbatim>\<open>SelectorTaskDB\<close> and \<^verbatim>\<open>StockAnalysisTaskDB\<close> wrap every method in
  \<^verbatim>\<open>try ... except Exception\<close> and return a bool.  Each operation below takes a flag
  \<open>fault\<close> (SQLite raises during the call) and returns the bool with the new table; a
  failed call writes nothing.

  \<open>dumps_ok hook v\<close>: \<^verbatim>\<open>json.dumps(v)\<close> does not raise, with (\<open>hook\<close>) or without the
  argument \<^verbatim>\<open>default=str\<close>.  Error messages are strings; the two that the schedulers
  build from Chinese text are constructors of their own.
\<close>

fun dumps_ok :: "bool \<Rightarrow> pyval \<Rightarrow> bool" where
  "dumps_ok hook (PDict kvs) = list_all (\<lambda>(k, v). json_key k \<and> dumps_ok hook v) kvs"
| "dumps_ok hook (PList xs) = list_all (dumps_ok hook) xs"
| "dumps_ok hook (PTuple xs) = list_all (dumps_ok hook) xs"
| "dumps_ok hook (PDataFrame cols rows) = hook"
| "dumps_ok hook (PSeries kvs) = hook"
| "dumps_ok hook (PObject r) = (hook \<and> r \<noteq> None)"
| "dumps_ok hook _ = True"

datatype message =
    Text string
  | Unknown_error
  | Counts int int

definition truthy_message :: "message option \<Rightarrow> bool" where
  \<comment> \<open>\<^verbatim>\<open>if error_message:\<close>; \<open>Unknown_error\<close> and \<open>Counts\<close> are non-empty strings\<close>
  "truthy_message m = (m \<noteq> None \<and> m \<noteq> Some (Text []))"

definition truthy_dict :: "(pyval \<times> pyval) list option \<Rightarrow> bool" where
  \<comment> \<open>\<^verbatim>\<open>if params\<close>: neither None nor the empty dict\<close>
  "truthy_dict d = (d \<noteq> None \<and> d \<noteq> Some [])"

section \<open>StockAnalysisTaskDB\<close>

record analysis_row =
  ana_task_id :: string
  ana_task_type :: string
  ana_status :: string
  ana_symbols :: "string list"
  ana_period :: string
  ana_config :: "pyval option"
  ana_total_count :: int
  ana_completed_count :: int
  ana_current_symbol :: "string option"
  ana_progress_percent :: real
  ana_results :: "pyval option"
  ana_error_message :: "message option"
  ana_started_at :: "timestamp option"
  ana_completed_at :: "timestamp option"
  ana_created_at :: timestamp

type_synonym analysis_db = "analysis_row list"

definition ana_create_task ::
  "bool \<Rightarrow> timestamp \<Rightarrow> analysis_db \<Rightarrow> string \<Rightarrow> string \<Rightarrow> string list \<Rightarrow> string
     \<Rightarrow> (pyval \<times> pyval) list option \<Rightarrow> bool \<times> analysis_db" where
  "ana_create_task fault now db tid task_type symbols period config =
     (if fault \<or> (truthy_dict config \<and> \<not> dumps_ok False (PDict (the config)))
         \<or> tid \<in> set (map ana_task_id db)
      then (False, db)
      else (True, db @
        [\<lparr>ana_task_id = tid, ana_task_type = task_type, ana_status = ''pending'',
          ana_symbols = symbols, ana_period = period,
          ana_config = (if truthy_dict config then Some (PDict (the config)) else None),
          ana_total_count = int (length symbols), ana_completed_count = 0,
          ana_current_symbol = None, ana_progress_percent = 0, ana_results = None,
          ana_error_message = None, ana_started_at = None, ana_completed_at = None,
          ana_created_at = now\<rparr>]))"

definition ana_update_task_status ::
  "bool \<Rightarrow> timestamp \<Rightarrow> analysis_db \<Rightarrow> string \<Rightarrow> string \<Rightarrow> message option
     \<Rightarrow> bool \<times> analysis_db" where
  "ana_update_task_status fault now db tid st error_message =
     (if fault then (False, db)
      else (True, map (\<lambda>r.
        if ana_task_id r = tid then
          r\<lparr>ana_status := st,
            ana_started_at := (if st = ''running'' then Some now else ana_started_at r),
            ana_completed_at :=
              (if st \<noteq> ''running'' \<and> terminal st then Some now else ana_completed_at r),
            ana_error_message :=
              (if truthy_message error_message then error_message else ana_error_message r)\<rparr>
        else r) db))"

definition ana_update_task_progress ::
  "bool \<Rightarrow> analysis_db \<Rightarrow> string \<Rightarrow> string \<Rightarrow> int \<Rightarrow> real \<Rightarrow> bool \<times> analysis_db" where
  "ana_update_task_progress fault db tid current_symbol completed_count progress_percent =
     (if fault then (False, db)
      else (True, map (\<lambda>r.
        if ana_task_id r = tid then
          r\<lparr>ana_current_symbol := Some current_symbol,
            ana_completed_count := completed_count,
            ana_progress_percent := progress_percent\<rparr>
        else r) db))"

definition ana_save_task_result ::
  "bool \<Rightarrow> analysis_db \<Rightarrow> string \<Rightarrow> pyval \<Rightarrow> bool \<times> analysis_db" where
  "ana_save_task_result fault db tid payload =
     (let cleaned_results = clean_for_json payload
      in if fault \<or> \<not> dumps_ok True cleaned_results then (False, db)
         else (True, map (\<lambda>r.
           if ana_task_id r = tid then r\<lparr>ana_results := Some cleaned_results\<rparr> else r) db))"

definition ana_get_task :: "bool \<Rightarrow> analysis_db \<Rightarrow> string \<Rightarrow> analysis_row option" where
  "ana_get_task fault db tid = (if fault then None else find (\<lambda>r. ana_task_id r = tid) db)"

definition ana_get_running_tasks :: "bool \<Rightarrow> analysis_db \<Rightarrow> analysis_row list" where
  \<comment> \<open>\<^verbatim>\<open>WHERE status IN ('pending', 'running') ORDER BY created_at DESC\<close>\<close>
  "ana_get_running_tasks fault db =
     (if fault then []
      else rev (sort_key ana_created_at (filter (\<lambda>r. non_terminal (ana_status r)) db)))"

section \<open>StockAnalysisScheduler\<close>

text \<open>
  The scheduler keeps the cancellation events and the threads by task id.  Its
  \<^verbatim>\<open>_lock\<close> is created and never acquired, so it is left out.  The journal records the
  store calls of the workers.
\<close>

record analysis_scheduler =
  ana_store :: analysis_db
  ana_cancel_events :: "string set"
  ana_running_threads :: "string set"
  ana_journal :: "call list"

record start_response =
  resp_task_id :: "string option"
  resp_success :: bool



text \<open>
  The environment of \<^verbatim>\<open>_run_batch_analysis\<close>: what \<^verbatim>\<open>future.result(timeout=300)\<close>
  does for a stock, what \<^verbatim>\<open>cancel_event.is_set()\<close> answers while \<^verbatim>\<open>results\<close> holds
  \<open>k\<close> entries, the order of \<^verbatim>\<open>as_completed\<close>, and for the \<open>n\<close>-th store call of
  the run whether it fails and what the clock shows.
\<close>

datatype future_result = Done unit_result | TimeoutError | Failed string

record analysis_env =
  future_result :: "string \<Rightarrow> future_result"
  ana_cancel_is_set :: "nat \<Rightarrow> bool"
  ana_completion_order :: "string list \<Rightarrow> string list"
  ana_fault :: "nat \<Rightarrow> bool"
  ana_time_at :: "nat \<Rightarrow> timestamp"

definition timeout_text :: string where
  "timeout_text = map char_of
     [0xE5, 0x88, 0x86, 0xE6, 0x9E, 0x90, 0xE8, 0xB6, 0x85, 0xE6, 0x97, 0xB6 :: nat]"

definition ana_call ::
  "analysis_env \<Rightarrow> call \<Rightarrow> (bool \<Rightarrow> timestamp \<Rightarrow> analysis_db \<Rightarrow> bool \<times> analysis_db)
     \<Rightarrow> analysis_scheduler \<Rightarrow> analysis_scheduler" where
  \<comment> \<open>a store call whose returned bool the worker ignores\<close>
  "ana_call env c f s =
     s\<lparr>ana_store := snd (f (ana_fault env (length (ana_journal s)))
                             (ana_time_at env (length (ana_journal s))) (ana_store s)),
       ana_journal := ana_journal s @ [c]\<rparr>"

definition cleanup_task :: "string \<Rightarrow> analysis_scheduler \<Rightarrow> analysis_scheduler" where
  "cleanup_task tid s =
     s\<lparr>ana_cancel_events := ana_cancel_events s - {tid},
       ana_running_threads := ana_running_threads s - {tid}\<rparr>"

text \<open>
  One round of the loop over the completed futures.  The three branches of the
  \<^verbatim>\<open>try\<close> append one result, add one to \<^verbatim>\<open>completed\<close> and report the progress;
  they differ in the result only.  The loop carries \<^verbatim>\<open>results\<close>.
\<close>

definition unit_outcome :: "analysis_env \<Rightarrow> string \<Rightarrow> unit_result" where
  \<comment> \<open>the entry that the round appends to \<^verbatim>\<open>results\<close>\<close>
  "unit_outcome env stock =
     (case future_result env stock of
        Done res \<Rightarrow> res
      | TimeoutError \<Rightarrow> failure stock timeout_text
      | Failed e \<Rightarrow> failure stock e)"

definition batch_body ::
  "analysis_env \<Rightarrow> string \<Rightarrow> nat \<Rightarrow> string \<Rightarrow> unit_result list \<times> analysis_scheduler
     \<Rightarrow> unit_result list \<times> analysis_scheduler" where
  "batch_body env tid ntotal stock st =
     (let (collected, s) = st;
          result = unit_outcome env stock;
          collected' = collected @ [result];
          completed = length collected'
      in (collected',
          ana_call env (ProgressCall tid (int completed))
            (\<lambda>fault now db. ana_update_task_progress fault db tid stock (int completed)
                                (percent completed ntotal)) s))"

text \<open>
  The loop returns \<open>Inl\<close> when the cancellation is seen (the worker has written
  \<^verbatim>\<open>cancelled\<close> and returns) and \<open>Inr\<close> with the results when all futures are done.
  \<^verbatim>\<open>completed\<close> equals \<^verbatim>\<open>len(results)\<close> throughout.
\<close>

fun batch_loop ::
  "analysis_env \<Rightarrow> string \<Rightarrow> nat \<Rightarrow> string list \<Rightarrow> unit_result list \<times> analysis_scheduler
     \<Rightarrow> analysis_scheduler + unit_result list \<times> analysis_scheduler" where
  "batch_loop env tid ntotal [] st = Inr st"
| "batch_loop env tid ntotal (stock # futures) st =
     (if ana_cancel_is_set env (length (fst st)) then
        Inl (ana_call env (StatusCall tid ''cancelled'')
               (\<lambda>fault now db. ana_update_task_status fault now db tid ''cancelled'' None) (snd st))
      else batch_loop env tid ntotal futures (batch_body env tid ntotal stock st))"

definition run_batch_analysis ::
  "analysis_env \<Rightarrow> string \<Rightarrow> string list \<Rightarrow> int \<Rightarrow> analysis_scheduler \<Rightarrow> analysis_scheduler" where
  "run_batch_analysis env tid symbols max_workers s0 =
     (let s1 = ana_call env (StatusCall tid ''running'')
                 (\<lambda>fault now db. ana_update_task_status fault now db tid ''running'' None) s0;
          ntotal = length symbols;
          s' =
            (if max_workers \<le> 0 then
               ana_call env (StatusCall tid ''failed'')
                 (\<lambda>fault now db. ana_update_task_status fault now db tid ''failed''
                    (Some (Text ''max_workers must be greater than 0''))) s1
             else
               case batch_loop env tid ntotal (ana_completion_order env symbols) ([], s1) of
                 Inl s \<Rightarrow> s
               | Inr (collected, s2) \<Rightarrow>
                   let s3 = ana_call env (SaveCall tid)
                              (\<lambda>fault now db. ana_save_task_result fault db tid
                                 (PList (map (\<lambda>r. PDict (result_items r)) collected))) s2;
                       success_count = count_success collected;
                       failed_count = int ntotal - success_count
                   in if failed_count = 0 then
                        ana_call env (StatusCall tid ''completed'')
                          (\<lambda>fault now db. ana_update_task_status fault now db tid ''completed'' None)
                          s3
                      else
                        ana_call env (StatusCall tid ''completed'')
                          (\<lambda>fault now db. ana_update_task_status fault now db tid ''completed''
                             (Some (Counts success_count failed_count))) s3)
      in cleanup_task tid s')"

text \<open>
  A run for the examples: five stocks, the analysis of the second one raises, and the
  cancellation flag is seen set once two units are collected.  \<open>fresh_run\<close> starts
  from the table that \<^verbatim>\<open>create_task\<close> leaves for the task \<open>t1\<close>.
\<close>

definition five_codes :: "string list" where
  "five_codes = [''600000'', ''600004'', ''600006'', ''600007'', ''600008'']"

definition cancel_after_two :: batch_env where
  "cancel_after_two =
     \<lparr>app_analyze = (\<lambda>code. if code = ''600004'' then Raises ''no data''
                             else Returns \<lparr>symbol = code, success = True, others = []\<rparr>),
      cancel_is_set = (\<lambda>k. 2 \<le> k),
      completion_order = rev,
      store_fault = (\<lambda>n. None),
      time_at = (\<lambda>n. 10 + n),
      elapsed_time = 42\<rparr>"

definition fresh_run :: "string list \<Rightarrow> string \<Rightarrow> run" where
  "fresh_run codes mode =
     \<lparr>store = (case mf_create_task False 9 \<lparr>task_rows = [], task_seq = 0, history_rows = [],
                       history_seq = 0\<rparr> ''t1'' codes mode 3 of
                 Inr (record_id, db) \<Rightarrow> db
               | Inl e \<Rightarrow> \<lparr>task_rows = [], task_seq = 0, history_rows = [], history_seq = 0\<rparr>),
      journal = [], raised = None, results = [],
      task_lock_held = True, current_task_id = Some ''t1''\<rparr>"

section \<open>SelectorTaskDB\<close>

record selector_row =
  sel_task_id :: string
  sel_selector_type :: string
  sel_status :: string
  sel_params :: "pyval option"
  sel_progress_percent :: real
  sel_current_step :: "string option"
  sel_results :: "pyval option"
  sel_error_message :: "message option"
  sel_started_at :: "timestamp option"
  sel_completed_at :: "timestamp option"
  sel_created_at :: timestamp

type_synonym selector_db = "selector_row list"

definition sel_create_task ::
  "bool \<Rightarrow> timestamp \<Rightarrow> selector_db \<Rightarrow> string \<Rightarrow> string \<Rightarrow> (pyval \<times> pyval) list option
     \<Rightarrow> bool \<times> selector_db" where
  "sel_create_task fault now db tid selector_type params =
     (if fault \<or> (truthy_dict params \<and> \<not> dumps_ok False (PDict (the params)))
         \<or> tid \<in> set (map sel_task_id db)
      then (False, db)
      else (True, db @
        [\<lparr>sel_task_id = tid, sel_selector_type = selector_type, sel_status = ''pending'',
          sel_params = (if truthy_dict params then Some (PDict (the params)) else None),
          sel_progress_percent = 0, sel_current_step = None, sel_results = None,
          sel_error_message = None, sel_started_at = None, sel_completed_at = None,
          sel_created_at = now\<rparr>]))"

definition sel_update_task_status ::
  "bool \<Rightarrow> timestamp \<Rightarrow> selector_db \<Rightarrow> string \<Rightarrow> string \<Rightarrow> message option
     \<Rightarrow> bool \<times> selector_db" where
  "sel_update_task_status fault now db tid st error_message =
     (if fault then (False, db)
      else (True, map (\<lambda>r.
        if sel_task_id r = tid then
          r\<lparr>sel_status := st,
            sel_started_at := (if st = ''running'' then Some now else sel_started_at r),
            sel_completed_at :=
              (if st \<noteq> ''running'' \<and> terminal st then Some now else sel_completed_at r),
            sel_error_message :=
              (if truthy_message error_message then error_message else sel_error_message r)\<rparr>
        else r) db))"

definition sel_update_task_progress ::
  "bool \<Rightarrow> selector_db \<Rightarrow> string \<Rightarrow> string \<Rightarrow> real \<Rightarrow> bool \<times> selector_db" where
  "sel_update_task_progress fault db tid current_step progress_percent =
     (if fault then (False, db)
      else (True, map (\<lambda>r.
        if sel_task_id r = tid then
          r\<lparr>sel_current_step := Some current_step, sel_progress_percent := progress_percent\<rparr>
        else r) db))"

definition sel_save_task_result ::
  "bool \<Rightarrow> selector_db \<Rightarrow> string \<Rightarrow> pyval \<Rightarrow> bool \<times> selector_db" where
  "sel_save_task_result fault db tid payload =
     (let cleaned_results = clean_for_json payload
      in if fault \<or> \<not> dumps_ok True cleaned_results then (False, db)
         else (True, map (\<lambda>r.
           if sel_task_id r = tid then r\<lparr>sel_results := Some cleaned_results\<rparr> else r) db))"

definition sel_get_task :: "bool \<Rightarrow> selector_db \<Rightarrow> string \<Rightarrow> selector_row option" where
  "sel_get_task fault db tid = (if fault then None else find (\<lambda>r. sel_task_id r = tid) db)"

definition sel_get_running_tasks :: "bool \<Rightarrow> selector_db \<Rightarrow> string \<Rightarrow> selector_row list" where
  \<comment> \<open>\<^verbatim>\<open>if selector_type:\<close> filters by the type unless it is the empty string\<close>
  "sel_get_running_tasks fault db selector_type =
     (if fault then []
      else if selector_type \<noteq> [] then
        rev (sort_key sel_created_at
          (filter (\<lambda>r. non_terminal (sel_status r) \<and> sel_selector_type r = selector_type) db))
      else rev (sort_key sel_created_at (filter (\<lambda>r. non_terminal (sel_status r)) db)))"

section \<open>SelectorScheduler\<close>

text \<open>
  The scheduler state: the store, the selector types whose lock is held (a lock that
  does not exist yet is created free by \<^verbatim>\<open>_get_lock\<close>), the cancellation events by task
  id with their flag, the threads by task id, and the journal of the workers' store calls.
\<close>

record selector_scheduler =
  sel_store :: selector_db
  task_locks_held :: "string set"
  sel_cancel_events :: "string \<rightharpoonup> bool"
  sel_running_threads :: "string set"
  sel_journal :: "call list"

text \<open>
  \<^verbatim>\<open>start_background_selection\<close>.  \<open>new_id\<close> is the value of \<^verbatim>\<open>uuid.uuid4()\<close>;
  \<open>read_fault\<close> belongs to the call of \<^verbatim>\<open>get_running_tasks\<close>, \<open>write_fault\<close> and
  \<open>now\<close> to the call of \<^verbatim>\<open>create_task\<close>.  On acceptance the lock stays held: the
  worker releases it.
\<close>

definition start_background_selection ::
  "string \<Rightarrow> bool \<Rightarrow> bool \<Rightarrow> timestamp \<Rightarrow> selector_scheduler \<Rightarrow> string
     \<Rightarrow> (pyval \<times> pyval) list option \<Rightarrow> start_response \<times> selector_scheduler" where
  "start_background_selection new_id read_fault write_fault now s selector_type params =
     (if selector_type \<in> task_locks_held s then
        (\<lparr>resp_task_id = None, resp_success = False\<rparr>, s)
      else
        let running_tasks = sel_get_running_tasks read_fault (sel_store s) selector_type
        in if running_tasks \<noteq> [] then (\<lparr>resp_task_id = None, resp_success = False\<rparr>, s)
           else
             let task_id = new_id;
                 s1 = s\<lparr>sel_cancel_events := (sel_cancel_events s)(task_id \<mapsto> False)\<rparr>;
                 (created, db) = sel_create_task write_fault now (sel_store s) task_id
                                   selector_type params
             in if \<not> created then (\<lparr>resp_task_id = None, resp_success = False\<rparr>, s1)
                else (\<lparr>resp_task_id = Some task_id, resp_success = True\<rparr>,
                      s1\<lparr>sel_store := db,
                         task_locks_held := insert selector_type (task_locks_held s),
                         sel_running_threads := insert task_id (sel_running_threads s)\<rparr>))"

text \<open>
  The worker \<^verbatim>\<open>_run_selection\<close>.  Its environment: what the selection function does,
  what the two checks of \<^verbatim>\<open>cancel_event.is_set()\<close> answer, and the faults and the clock
  of its store calls.  Of the returned dict the worker uses \<^verbatim>\<open>result.get('success')\<close>
  (\<open>None\<close> when the value has no \<^verbatim>\<open>get\<close>, which raises), the error message
  \<^verbatim>\<open>result.get('error', ...)\<close>, and the value itself, which it saves.  The callback
  \<^verbatim>\<open>on_complete\<close> runs in a \<^verbatim>\<open>try\<close> of its own and has no part in the store.
\<close>

record selection_result =
  sr_success :: "bool option"
  sr_error :: "message option"
  sr_value :: pyval

record selection_env =
  selection_func :: "selection_result outcome"
  cancel_seen_first :: bool
  cancel_seen_second :: bool
  sel_fault :: "nat \<Rightarrow> bool"
  sel_time_at :: "nat \<Rightarrow> timestamp"

definition step_fetching :: string where
  "step_fetching = map char_of
     [0xE6, 0xAD, 0xA3, 0xE5, 0x9C, 0xA8, 0xE8, 0x8E, 0xB7, 0xE5, 0x8F, 0x96, 0xE6, 0x95, 0xB0,
      0xE6, 0x8D, 0xAE :: nat]"

definition step_filtering :: string where
  "step_filtering = map char_of
     [0xE6, 0xAD, 0xA3, 0xE5, 0x9C, 0xA8, 0xE7, 0xAD, 0x9B, 0xE9, 0x80, 0x89, 0xE8, 0x82, 0xA1,
      0xE7, 0xA5, 0xA8 :: nat]"

definition step_saving :: string where
  "step_saving = map char_of
     [0xE6, 0xAD, 0xA3, 0xE5, 0x9C, 0xA8, 0xE4, 0xBF, 0x9D, 0xE5, 0xAD, 0x98, 0xE7, 0xBB, 0x93,
      0xE6, 0x9E, 0x9C :: nat]"

definition step_done :: string where
  "step_done = map char_of [0xE5, 0xAE, 0x8C, 0xE6, 0x88, 0x90 :: nat]"

definition sel_call ::
  "selection_env \<Rightarrow> call \<Rightarrow> (bool \<Rightarrow> timestamp \<Rightarrow> selector_db \<Rightarrow> bool \<times> selector_db)
     \<Rightarrow> selector_scheduler \<Rightarrow> selector_scheduler" where
  \<comment> \<open>a store call whose returned bool the worker ignores\<close>
  "sel_call env c f s =
     s\<lparr>sel_store := snd (f (sel_fault env (length (sel_journal s)))
                             (sel_time_at env (length (sel_journal s))) (sel_store s)),
       sel_journal := sel_journal s @ [c]\<rparr>"

definition set_status ::
  "selection_env \<Rightarrow> string \<Rightarrow> string \<Rightarrow> message option \<Rightarrow> selector_scheduler
     \<Rightarrow> selector_scheduler" where
  \<comment> \<open>\<^verbatim>\<open>selector_task_db.update_task_status(task_id, status, error_message)\<close>\<close>
  "set_status env tid st error_message =
     sel_call env (StatusCall tid st)
       (\<lambda>fault now db. sel_update_task_status fault now db tid st error_message)"

definition set_progress ::
  "selection_env \<Rightarrow> string \<Rightarrow> string \<Rightarrow> real \<Rightarrow> selector_scheduler \<Rightarrow> selector_scheduler" where
  \<comment> \<open>\<^verbatim>\<open>selector_task_db.update_task_progress(task_id, current_step, progress_percent)\<close>\<close>
  "set_progress env tid current_step progress_percent =
     sel_call env (StepCall tid progress_percent)
       (\<lambda>fault now db. sel_update_task_progress fault db tid current_step progress_percent)"

definition sel_cleanup_task :: "string \<Rightarrow> selector_scheduler \<Rightarrow> selector_scheduler" where
  "sel_cleanup_task tid s =
     s\<lparr>sel_cancel_events := (sel_cancel_events s)(tid := None),
       sel_running_threads := sel_running_threads s - {tid}\<rparr>"

definition attribute_error :: string where
  "attribute_error = ''object has no attribute get''"

definition run_selection ::
  "selection_env \<Rightarrow> string \<Rightarrow> string \<Rightarrow> selector_scheduler \<Rightarrow> selector_scheduler" where
  "run_selection env tid selector_type s0 =
     (let s1 = set_status env tid ''running'' None s0;
          s2 = set_progress env tid step_fetching 10 s1;
          s' =
            (if cancel_seen_first env then set_status env tid ''cancelled'' None s2
             else
               let s3 = set_progress env tid step_filtering 30 s2
               in case selection_func env of
                    Raises e \<Rightarrow> set_status env tid ''failed'' (Some (Text e)) s3
                  | Returns result \<Rightarrow>
                      if cancel_seen_second env then set_status env tid ''cancelled'' None s3
                      else
                        let s4 = set_progress env tid step_saving 80 s3;
                            s5 = sel_call env (SaveCall tid)
                                   (\<lambda>fault now db. sel_save_task_result fault db tid
                                                      (sr_value result)) s4
                        in case sr_success result of
                             None \<Rightarrow> set_status env tid ''failed'' (Some (Text attribute_error)) s5
                           | Some True \<Rightarrow>
                               set_progress env tid step_done 100
                                 (set_status env tid ''completed'' None s5)
                           | Some False \<Rightarrow> set_status env tid ''failed'' (sr_error result) s5);
          s'' = sel_cleanup_task tid s'
      in s''\<lparr>task_locks_held := task_locks_held s'' - {selector_type}\<rparr>)"

text \<open>
  \<^verbatim>\<open>cancel_task\<close>: for a task with a cancellation event it sets the flag; otherwise it
  marks a pending or running row as cancelled in the store.
\<close>

definition cancel_task ::
  "bool \<Rightarrow> bool \<Rightarrow> timestamp \<Rightarrow> selector_scheduler \<Rightarrow> string \<Rightarrow> bool \<times> selector_scheduler" where
  "cancel_task read_fault write_fault now s tid =
     (if tid \<in> dom (sel_cancel_events s) then
        (True, s\<lparr>sel_cancel_events := (sel_cancel_events s)(tid \<mapsto> True)\<rparr>)
      else
        case sel_get_task read_fault (sel_store s) tid of
          None \<Rightarrow> (False, s)
        | Some task \<Rightarrow>
            if non_terminal (sel_status task) then
              (True, s\<lparr>sel_store :=
                        snd (sel_update_task_status write_fault now (sel_store s) tid ''cancelled''
                               None)\<rparr>)
            else (False, s))"

text \<open>
  No two pending or running tasks have the same selector type: the types of the
  non-terminal rows are pairwise distinct.
\<close>

definition single_flight :: "selector_db \<Rightarrow> bool" where
  "single_flight db =
     distinct (map sel_selector_type (filter (\<lambda>r. non_terminal (sel_status r)) db))"

definition ana_find :: "analysis_db \<Rightarrow> string \<Rightarrow> analysis_row option" where
  \<comment> \<open>the row that \<^verbatim>\<open>get_task\<close> reads when the store answers\<close>
  "ana_find db tid = find (\<lambda>r. ana_task_id r = tid) db"

definition ana_healthy :: "analysis_env \<Rightarrow> bool" where
  \<comment> \<open>no store call of the run fails\<close>
  "ana_healthy env = (\<forall>n. \<not> ana_fault env n)"

text \<open>
  More runs for the examples: the five stocks without cancellation, and a batch of three
  stocks in the analysis scheduler whose second future times out.
\<close>

definition run_to_end :: batch_env where
  "run_to_end = cancel_after_two\<lparr>cancel_is_set := (\<lambda>k. False)\<rparr>"

definition three_symbols :: "string list" where
  "three_symbols = [''600000'', ''600004'', ''600006'']"

definition example_analysis_env :: analysis_env where
  "example_analysis_env =
     \<lparr>future_result = (\<lambda>stock. if stock = ''600004'' then TimeoutError
                               else Done \<lparr>symbol = stock, success = True, others = []\<rparr>),
      ana_cancel_is_set = (\<lambda>k. False),
      ana_completion_order = rev,
      ana_fault = (\<lambda>n. False),
      ana_time_at = (\<lambda>n. 20 + n)\<rparr>"

definition example_scheduler :: analysis_scheduler where
  "example_scheduler =
     \<lparr>ana_store = snd (ana_create_task False 19 [] ''b1'' ''batch'' three_symbols ''1y'' None),
      ana_cancel_events = {''b1''}, ana_running_threads = {''b1''}, ana_journal = []\<rparr>"

text \<open>
  \<open>own_live tid db\<close>: every row of the task \<open>tid\<close> is pending or running.  This is what
  the worker of a task finds when it starts: its row was created as \<^verbatim>\<open>pending\<close>, and
  while the task has a cancellation event \<^verbatim>\<open>cancel_task\<close> only sets the flag.
\<close>

definition own_live :: "string \<Rightarrow> selector_db \<Rightarrow> bool" where
  "own_live tid db = (\<forall>r \<in> set db. sel_task_id r = tid \<longrightarrow> non_terminal (sel_status r))"

text \<open>
  For the examples: a scheduler of each kind that has not started anything, a selection
  that succeeds without cancellation or store fault, and a task table whose only task is
  completed.  \<open>first_selection\<close> and \<open>second_selection\<close> are two calls of
  \<^verbatim>\<open>start_background_selection\<close> for the same selector type, the second made before
  the worker of the first has run; \<open>first_analysis\<close> and \<open>second_analysis\<close> are two
  calls of \<^verbatim>\<open>start_background_analysis\<close> for the same stock, one after the other.
\<close>

definition empty_selector :: selector_scheduler where
  "empty_selector = \<lparr>sel_store = [], task_locks_held = {}, sel_cancel_events = Map.empty,
                      sel_running_threads = {}, sel_journal = []\<rparr>"

definition example_selection_env :: selection_env where
  "example_selection_env =
     \<lparr>selection_func = Returns \<lparr>sr_success = Some True, sr_error = None,
                                 sr_value = PDict [(PStr ''success'', PBool True),
                                                   (PStr ''count'', PInt 0)]\<rparr>,
      cancel_seen_first = False, cancel_seen_second = False,
      sel_fault = (\<lambda>n. False), sel_time_at = (\<lambda>n. 30 + n)\<rparr>"

definition finished_selector_db :: selector_db where
  "finished_selector_db =
     [\<lparr>sel_task_id = ''s0'', sel_selector_type = ''small_cap'', sel_status = ''completed'',
       sel_params = None, sel_progress_percent = 80, sel_current_step = Some step_saving,
       sel_results = None, sel_error_message = None, sel_started_at = Some 1,
       sel_completed_at = Some 2, sel_created_at = 0\<rparr>]"


definition first_selection :: "start_response \<times> selector_scheduler" where
  "first_selection = start_background_selection ''s1'' False False 1 empty_selector ''small_cap'' None"





section \<open>Properties of the result normalizers\<close>

lemma plain_dictD: "plain (PDict kvs) \<Longrightarrow> (k, v) \<in> set kvs \<Longrightarrow> plain v"
  by (simp add: list_all_iff) blast

lemma plain_fix: "plain v \<Longrightarrow> clean_for_json v = v"
proof (induction v rule: clean_for_json.induct)
  case (8 kvs)
  have "map (\<lambda>(k, v). (k, clean_for_json v)) kvs = map (\<lambda>kv. kv) kvs"
  proof (rule map_cong[OF refl])
    fix kv assume m: "kv \<in> set kvs"
    obtain k v where kv: "kv = (k, v)" by (cases kv)
    from "8.prems" m[unfolded kv] have "plain v" by (rule plain_dictD)
    with "8.IH"[of "(k, v)" k v] m[unfolded kv] have "clean_for_json v = v" by simp
    then show "(case kv of (k, v) \<Rightarrow> (k, clean_for_json v)) = kv" unfolding kv by simp
  qed
  then show ?case by simp
next
  case (9 xs)
  have "map clean_for_json xs = map (\<lambda>x. x) xs"
  proof (rule map_cong[OF refl])
    fix x assume m: "x \<in> set xs"
    with "9.prems" have "plain x" by (simp add: list_all_iff)
    with "9.IH" m show "clean_for_json x = x" by simp
  qed
  then show ?case by simp
qed simp_all

lemma plain_zip: "list_all plain row \<Longrightarrow> plain (PDict (zip cols row))"
  by (auto simp: list_all_iff dest: set_zip_rightD)

lemma plain_records: "list_all (list_all plain) rows \<Longrightarrow> plain (to_dict_records cols rows)"
  unfolding to_dict_records_def using plain_zip
  by (auto simp: list_all_iff simp del: plain.simps(6))

lemma list_all_take: "list_all P xs \<Longrightarrow> list_all P (take n xs)"
  by (auto simp: list_all_iff dest: in_set_takeD)

lemma plain_clean: "cells_plain x \<Longrightarrow> plain (clean_for_json x)"
proof (induction x rule: clean_for_json.induct)
  case (6 cols rows)
  then show ?case by (simp add: plain_records list_all_take)
next
  case (8 kvs)
  then show ?case by (fastforce simp: list_all_iff)
next
  case (9 xs)
  then show ?case by (auto simp: list_all_iff)
next
  case (10 xs)
  then show ?case by (auto simp: list_all_iff)
next
  case (11 r)
  then show ?case by (cases r) auto
qed simp_all

lemma json_zip:
  "list_all json_key cols \<Longrightarrow> list_all json_value row \<Longrightarrow> json_value (PDict (zip cols row))"
  by (auto simp: list_all_iff dest: set_zip_leftD set_zip_rightD)

lemma json_records:
  "list_all json_key cols \<Longrightarrow> list_all (list_all json_value) rows \<Longrightarrow>
   json_value (to_dict_records cols rows)"
  unfolding to_dict_records_def using json_zip
  by (auto simp: list_all_iff simp del: json_value.simps(6))

lemma json_clean_for_json: "json_ready x \<Longrightarrow> json_value (clean_for_json x)"
proof (induction x rule: clean_for_json.induct)
  case (6 cols rows)
  then show ?case by (simp add: json_records list_all_take)
next
  case (8 kvs)
  then show ?case by (fastforce simp: list_all_iff)
next
  case (9 xs)
  then show ?case by (auto simp: list_all_iff)
next
  case (10 xs)
  then show ?case by (auto simp: list_all_iff)
next
  case (11 r)
  then show ?case by (cases r) auto
qed simp_all

lemma json_clean_value: "json_ready x \<Longrightarrow> json_value (clean_value x)"
proof (induction x rule: clean_value.induct)
  case (2 cols rows)
  then show ?case by (simp add: json_records list_all_take)
next
  case (4 kvs)
  then show ?case by (fastforce simp: list_all_iff)
next
  case (5 xs)
  then show ?case by (auto simp: list_all_iff)
next
  case (6 xs)
  then show ?case by (auto simp: list_all_iff)
next
  case (11 r)
  then show ?case by (cases r) auto
qed simp_all

subsection \<open>Within the recursion limit\<close>

lemma foldr_max_le: "foldr max (map h xs) (0::nat) \<le> n \<longleftrightarrow> (\<forall>x \<in> set xs. h x \<le> n)"
  by (induction xs) auto

lemma comprehension_all:
  "(\<And>x. x \<in> set xs \<Longrightarrow> f x = Inr (g x)) \<Longrightarrow> comprehension (map f xs) = Inr (map g xs)"
  by (induction xs) auto

lemma comprehension_raises:
  "x \<in> set xs \<Longrightarrow> f x = Inl RecursionError \<Longrightarrow> comprehension (map f xs) = Inl RecursionError"
proof (induction xs)
  case Nil
  then show ?case by simp
next
  case (Cons a xs)
  show ?case
  proof (cases "f a")
    case (Inl e)
    then show ?thesis by (cases e) simp
  next
    case (Inr v)
    show ?thesis
    proof (cases "x = a")
      case True
      with Cons.prems Inr show ?thesis by simp
    next
      case False
      with Cons have "comprehension (map f xs) = Inl RecursionError" by simp
      with Inr show ?thesis by simp
    qed
  qed
qed

lemma clean_for_json_returns:
  "nesting x \<le> n \<Longrightarrow> clean_for_json_within n x = Inr (clean_for_json x)"
proof (induction n arbitrary: x)
  case 0
  then show ?case by (cases x) simp_all
next
  case (Suc n)
  show ?case
  proof (cases x)
    case (PDict kvs)
    with Suc.prems have le: "\<forall>kv \<in> set kvs. (case kv of (k, v) \<Rightarrow> nesting v) \<le> n"
      by (simp add: foldr_max_le)
    have "comprehension (map (\<lambda>(k, v). map_sum id (Pair k) (clean_for_json_within n v)) kvs)
            = Inr (map (\<lambda>(k, v). (k, clean_for_json v)) kvs)"
    proof (rule comprehension_all)
      fix kv assume m: "kv \<in> set kvs"
      obtain k v where kv: "kv = (k, v)" by (cases kv)
      with le m have "nesting v \<le> n" by auto
      then have "clean_for_json_within n v = Inr (clean_for_json v)" by (rule Suc.IH)
      then show "(case kv of (k, v) \<Rightarrow> map_sum id (Pair k) (clean_for_json_within n v))
                   = Inr (case kv of (k, v) \<Rightarrow> (k, clean_for_json v))"
        by (simp add: kv)
    qed
    with PDict show ?thesis by simp
  next
    case (PList xs)
    with Suc.prems have le: "\<forall>y \<in> set xs. nesting y \<le> n" by (simp add: foldr_max_le)
    have "comprehension (map (clean_for_json_within n) xs) = Inr (map clean_for_json xs)"
      by (rule comprehension_all) (simp add: le Suc.IH)
    with PList show ?thesis by simp
  next
    case (PTuple xs)
    with Suc.prems have le: "\<forall>y \<in> set xs. nesting y \<le> n" by (simp add: foldr_max_le)
    have "comprehension (map (clean_for_json_within n) xs) = Inr (map clean_for_json xs)"
      by (rule comprehension_all) (simp add: le Suc.IH)
    with PTuple show ?thesis by simp
  qed simp_all
qed

lemma clean_for_json_raises:
  "n < nesting x \<Longrightarrow> clean_for_json_within n x = Inl RecursionError"
proof (induction n arbitrary: x)
  case 0
  then show ?case by simp
next
  case (Suc n)
  show ?case
  proof (cases x)
    case (PDict kvs)
    with Suc.prems have "\<not> (\<forall>kv \<in> set kvs. (case kv of (k, v) \<Rightarrow> nesting v) \<le> n)"
      by (simp add: foldr_max_le[symmetric])
    then obtain k v where m: "(k, v) \<in> set kvs" and d: "n < nesting v" by fastforce
    from d have "clean_for_json_within n v = Inl RecursionError" by (rule Suc.IH)
    then have "(case (k, v) of (k, v) \<Rightarrow> map_sum id (Pair k) (clean_for_json_within n v))
                 = Inl RecursionError" by simp
    with m have "comprehension (map (\<lambda>(k, v). map_sum id (Pair k) (clean_for_json_within n v)) kvs)
            = Inl RecursionError"
      by (rule comprehension_raises)
    with PDict show ?thesis by simp
  next
    case (PList xs)
    with Suc.prems have "\<not> (\<forall>y \<in> set xs. nesting y \<le> n)"
      by (simp add: foldr_max_le[symmetric])
    then obtain y where m: "y \<in> set xs" and d: "n < nesting y" by fastforce
    from d have "clean_for_json_within n y = Inl RecursionError" by (rule Suc.IH)
    with m have "comprehension (map (clean_for_json_within n) xs) = Inl RecursionError"
      by (rule comprehension_raises)
    with PList show ?thesis by simp
  next
    case (PTuple xs)
    with Suc.prems have "\<not> (\<forall>y \<in> set xs. nesting y \<le> n)"
      by (simp add: foldr_max_le[symmetric])
    then obtain y where m: "y \<in> set xs" and d: "n < nesting y" by fastforce
    from d have "clean_for_json_within n y = Inl RecursionError" by (rule Suc.IH)
    with m have "comprehension (map (clean_for_json_within n) xs) = Inl RecursionError"
      by (rule comprehension_raises)
    with PTuple show ?thesis by simp
  qed (use Suc.prems in simp_all)
qed

lemma clean_value_returns:
  "nesting x \<le> n \<Longrightarrow> clean_value_within n x = Inr (clean_value x)"
proof (induction n arbitrary: x)
  case 0
  then show ?case by (cases x) simp_all
next
  case (Suc n)
  show ?case
  proof (cases x)
    case (PDict kvs)
    with Suc.prems have le: "\<forall>kv \<in> set kvs. (case kv of (k, v) \<Rightarrow> nesting v) \<le> n"
      by (simp add: foldr_max_le)
    have "comprehension (map (\<lambda>(k, v). map_sum id (Pair k) (clean_value_within n v)) kvs)
            = Inr (map (\<lambda>(k, v). (k, clean_value v)) kvs)"
    proof (rule comprehension_all)
      fix kv assume m: "kv \<in> set kvs"
      obtain k v where kv: "kv = (k, v)" by (cases kv)
      with le m have "nesting v \<le> n" by auto
      then have "clean_value_within n v = Inr (clean_value v)" by (rule Suc.IH)
      then show "(case kv of (k, v) \<Rightarrow> map_sum id (Pair k) (clean_value_within n v))
                   = Inr (case kv of (k, v) \<Rightarrow> (k, clean_value v))"
        by (simp add: kv)
    qed
    with PDict show ?thesis by simp
  next
    case (PList xs)
    with Suc.prems have le: "\<forall>y \<in> set xs. nesting y \<le> n" by (simp add: foldr_max_le)
    have "comprehension (map (clean_value_within n) xs) = Inr (map clean_value xs)"
      by (rule comprehension_all) (simp add: le Suc.IH)
    with PList show ?thesis by simp
  next
    case (PTuple xs)
    with Suc.prems have le: "\<forall>y \<in> set xs. nesting y \<le> n" by (simp add: foldr_max_le)
    have "comprehension (map (clean_value_within n) xs) = Inr (map clean_value xs)"
      by (rule comprehension_all) (simp add: le Suc.IH)
    with PTuple show ?thesis by simp
  qed simp_all
qed

lemma clean_value_raises:
  "n < nesting x \<Longrightarrow> clean_value_within n x = Inl RecursionError"
proof (induction n arbitrary: x)
  case 0
  then show ?case by simp
next
  case (Suc n)
  show ?case
  proof (cases x)
    case (PDict kvs)
    with Suc.prems have "\<not> (\<forall>kv \<in> set kvs. (case kv of (k, v) \<Rightarrow> nesting v) \<le> n)"
      by (simp add: foldr_max_le[symmetric])
    then obtain k v where m: "(k, v) \<in> set kvs" and d: "n < nesting v" by fastforce
    from d have "clean_value_within n v = Inl RecursionError" by (rule Suc.IH)
    then have "(case (k, v) of (k, v) \<Rightarrow> map_sum id (Pair k) (clean_value_within n v))
                 = Inl RecursionError" by simp
    with m have "comprehension (map (\<lambda>(k, v). map_sum id (Pair k) (clean_value_within n v)) kvs)
            = Inl RecursionError"
      by (rule comprehension_raises)
    with PDict show ?thesis by simp
  next
    case (PList xs)
    with Suc.prems have "\<not> (\<forall>y \<in> set xs. nesting y \<le> n)"
      by (simp add: foldr_max_le[symmetric])
    then obtain y where m: "y \<in> set xs" and d: "n < nesting y" by fastforce
    from d have "clean_value_within n y = Inl RecursionError" by (rule Suc.IH)
    with m have "comprehension (map (clean_value_within n) xs) = Inl RecursionError"
      by (rule comprehension_raises)
    with PList show ?thesis by simp
  next
    case (PTuple xs)
    with Suc.prems have "\<not> (\<forall>y \<in> set xs. nesting y \<le> n)"
      by (simp add: foldr_max_le[symmetric])
    then obtain y where m: "y \<in> set xs" and d: "n < nesting y" by fastforce
    from d have "clean_value_within n y = Inl RecursionError" by (rule Suc.IH)
    with m have "comprehension (map (clean_value_within n) xs) = Inl RecursionError"
      by (rule comprehension_raises)
    with PTuple show ?thesis by simp
  qed (use Suc.prems in simp_all)
qed

lemma nesting_nested: "nesting (nested k) = Suc k"
  by (induction k) simp_all

text \<open>
  Claim C4, as the code has it.  The values are finite (no container contains itself)
  and the stack admits \<open>n\<close> more nested calls.  Both normalizers return, with the value
  given by \<open>clean_for_json\<close> and \<open>clean_value\<close>, when the nesting of the input is at
  most \<open>n\<close>; when it is deeper they raise \<^verbatim>\<open>RecursionError\<close>, because the recursion
  over dicts, lists and tuples is outside the \<^verbatim>\<open>try\<close>.  The only call that is caught
  is \<^verbatim>\<open>str\<close>: an object of any other kind becomes its string form, and when \<^verbatim>\<open>str\<close>
  raises, \<^verbatim>\<open>_clean_for_json\<close> returns None and \<^verbatim>\<open>clean_value\<close> returns its fixed
  string.  The value returned is a JSON value whenever the input is \<open>json_ready\<close>: table
  cells, series values and dict keys are copied as they are, so they must be JSON values
  and JSON keys already.
\<close>

theorem normalizer_total:
  "(nesting x \<le> n \<longrightarrow> clean_for_json_within n x = Inr (clean_for_json x)
                       \<and> clean_value_within n x = Inr (clean_value x))
   \<and> (n < nesting x \<longrightarrow> clean_for_json_within n x = Inl RecursionError
                       \<and> clean_value_within n x = Inl RecursionError)
   \<and> (json_ready x \<longrightarrow> json_value (clean_for_json x) \<and> json_value (clean_value x))
   \<and> clean_for_json_within (Suc n) (PObject (Some s)) = Inr (PStr s)
   \<and> clean_value_within (Suc n) (PObject (Some s)) = Inr (PStr s)
   \<and> clean_for_json_within (Suc n) (PObject None) = Inr PNone
   \<and> clean_value_within (Suc n) (PObject None) = Inr (PStr unserializable)
   \<and> clean_for_json (PObject (Some s)) = PStr s
   \<and> clean_value (PObject (Some s)) = PStr s
   \<and> clean_for_json (PObject None) = PNone
   \<and> clean_value (PObject None) = PStr unserializable"
  by (simp add: json_clean_for_json json_clean_value clean_for_json_returns
        clean_for_json_raises clean_value_returns clean_value_raises)

theorem normalizer_total_witness:
  "json_ready (PDict [(PStr ''table'', PDataFrame [PStr ''code''] [[PInt 1], [PInt 2]]),
                      (PStr ''pair'', PTuple [PNone, PObject (Some ''obj'')])])
   \<and> nesting (PDict [(PStr ''table'', PDataFrame [PStr ''code''] [[PInt 1], [PInt 2]]),
                      (PStr ''pair'', PTuple [PNone, PObject (Some ''obj'')])]) \<le> 3
   \<and> clean_for_json_within 3
         (PDict [(PStr ''table'', PDataFrame [PStr ''code''] [[PInt 1], [PInt 2]]),
                 (PStr ''pair'', PTuple [PNone, PObject (Some ''obj'')])])
       = Inr (PDict [(PStr ''table'', PList [PDict [(PStr ''code'', PInt 1)],
                                             PDict [(PStr ''code'', PInt 2)]]),
                     (PStr ''pair'', PList [PNone, PStr ''obj''])])
   \<and> json_value (clean_for_json
         (PDict [(PStr ''table'', PDataFrame [PStr ''code''] [[PInt 1], [PInt 2]]),
                 (PStr ''pair'', PTuple [PNone, PObject (Some ''obj'')])]))
   \<and> json_value (clean_value
         (PDict [(PStr ''table'', PDataFrame [PStr ''code''] [[PInt 1], [PInt 2]]),
                 (PStr ''pair'', PTuple [PNone, PObject (Some ''obj'')])]))
   \<and> 2 < nesting (PDict [(PStr ''table'', PDataFrame [PStr ''code''] [[PInt 1], [PInt 2]]),
                      (PStr ''pair'', PTuple [PNone, PObject (Some ''obj'')])])
   \<and> clean_value_within 2
         (PDict [(PStr ''table'', PDataFrame [PStr ''code''] [[PInt 1], [PInt 2]]),
                 (PStr ''pair'', PTuple [PNone, PObject (Some ''obj'')])])
       = Inl RecursionError"
  using normalizer_total [of "PDict [(PStr ''table'', PDataFrame [PStr ''code''] [[PInt 1], [PInt 2]]),
                 (PStr ''pair'', PTuple [PNone, PObject (Some ''obj'')])]" 3]
        normalizer_total [of "PDict [(PStr ''table'', PDataFrame [PStr ''code''] [[PInt 1], [PInt 2]]),
                 (PStr ''pair'', PTuple [PNone, PObject (Some ''obj'')])]" 2]
  by (simp add: to_dict_records_def)

text \<open>
  Claim C4 as stated fails.  When \<^verbatim>\<open>str\<close> raises, \<^verbatim>\<open>_clean_for_json\<close> returns None,
  which is no string; a table cell that is an object (a timestamp, say) reaches the output
  as it is, so the output is not a JSON value; and with the interpreter's default limit of
  1000 frames, which admits at most 1000 nested calls, a list nested 1000 deep around the
  empty list makes both normalizers raise.
\<close>

theorem normalizer_counterexample:
  "\<not> (\<exists>s. clean_for_json (PObject None) = PStr s)
   \<and> \<not> json_value (clean_for_json (PDataFrame [PStr ''date''] [[PObject (Some ''2024-01-02'')]]))
   \<and> clean_for_json_within 1000 (nested 1000) = Inl RecursionError
   \<and> clean_value_within 1000 (nested 1000) = Inl RecursionError"
  by (simp add: to_dict_records_def clean_for_json_raises clean_value_raises nesting_nested)

text \<open>
  Claim C6.  Normalizing a table gives the list of its row dicts, cut to the first 100:
  the output has \<open>min 100 (length rows)\<close> entries and the \<open>i\<close>-th entry is the dict
  of the \<open>i\<close>-th row.  This holds for \<^verbatim>\<open>_clean_for_json\<close> (both task stores) and for
  \<^verbatim>\<open>clean_value\<close>.
\<close>

theorem result_bound:
  "\<exists>ps. clean_for_json (PDataFrame cols rows) = PList ps
       \<and> clean_value (PDataFrame cols rows) = PList ps
       \<and> length ps = min 100 (length rows)
       \<and> (\<forall>i < length ps. ps ! i = PDict (zip cols (rows ! i)))"
  by (auto simp: to_dict_records_def)

theorem result_bound_witness:
  "\<exists>ps. clean_for_json (PDataFrame [PStr ''code''] (map (\<lambda>i. [PInt (int i)]) [0..<500])) = PList ps
       \<and> length ps = 100
       \<and> ps ! 0 = PDict [(PStr ''code'', PInt 0)]
       \<and> ps ! 99 = PDict [(PStr ''code'', PInt 99)]"
proof -
  obtain ps where
    a: "clean_for_json (PDataFrame [PStr ''code''] (map (\<lambda>i. [PInt (int i)]) [0..<500])) = PList ps"
    and b: "length ps = min 100 (length (map (\<lambda>i. [PInt (int i)]) [0..<500]))"
    and c: "\<forall>i < length ps.
             ps ! i = PDict (zip [PStr ''code''] (map (\<lambda>i. [PInt (int i)]) [0..<500] ! i))"
    using result_bound [of "[PStr ''code'']" "map (\<lambda>i. [PInt (int i)]) [0..<500]"] by blast
  from b have l: "length ps = 100" by simp
  from c l have "ps ! 0 = PDict [(PStr ''code'', PInt 0)]"
    and "ps ! 99 = PDict [(PStr ''code'', PInt 99)]"
    by simp_all
  with a l show ?thesis by blast
qed

text \<open>
  Claim C10, as the code has it.  \<^verbatim>\<open>_clean_for_json\<close> is idempotent on every value whose
  tables and series hold plain cells only: then the output is plain, and the normalizer
  returns a plain value unchanged.
\<close>

theorem normalizer_idempotent:
  "cells_plain x \<Longrightarrow> clean_for_json (clean_for_json x) = clean_for_json x"
  by (rule plain_fix [OF plain_clean])

theorem normalizer_idempotent_witness:
  "cells_plain (PList [PTuple [PInt 1, PObject (Some ''obj'')],
                       PDataFrame [PStr ''code''] [[PStr ''600000'']]])
   \<and> clean_for_json (clean_for_json
         (PList [PTuple [PInt 1, PObject (Some ''obj'')],
                 PDataFrame [PStr ''code''] [[PStr ''600000'']]]))
     = PList [PList [PInt 1, PStr ''obj''], PList [PDict [(PStr ''code'', PStr ''600000'')]]]"
proof -
  have h: "cells_plain (PList [PTuple [PInt 1, PObject (Some ''obj'')],
                               PDataFrame [PStr ''code''] [[PStr ''600000'']]])"
    by simp
  show ?thesis
    using h normalizer_idempotent [OF h] by (simp add: to_dict_records_def)
qed

text \<open>
  Claim C10 as stated fails: a table cell that is not plain (here an object such as a
  timestamp) is copied by the first pass and turned into its string by the second.
\<close>

theorem normalizer_idempotent_counterexample:
  "clean_for_json (clean_for_json (PDataFrame [PStr ''date''] [[PObject (Some ''2024-01-02'')]]))
   \<noteq> clean_for_json (PDataFrame [PStr ''date''] [[PObject (Some ''2024-01-02'')]])"
  by (simp add: to_dict_records_def)

section \<open>Properties of the MainForce task table\<close>

lemma find_map_upd:
  assumes "\<And>x. key (f x) = key x"
  shows "find (\<lambda>r. key r = t) (map (\<lambda>r. if key r = tid then f r else r) xs) =
         (if t = tid then map_option f (find (\<lambda>r. key r = tid) xs)
          else find (\<lambda>r. key r = t) xs)"
  using assms by (induction xs) auto

text \<open>
  Claim C9.  \<^verbatim>\<open>update_task_progress\<close> maps the task table row by row.  A row of another
  task is unchanged.  In a row of the task, \<^verbatim>\<open>completed_count\<close> is the argument; each of
  \<^verbatim>\<open>current_stock\<close>, \<^verbatim>\<open>success_count\<close>, \<^verbatim>\<open>failed_count\<close> and \<^verbatim>\<open>progress_percent\<close> is
  the argument when one is supplied and keeps its value otherwise; every other column
  (status, error message, history record, timestamps, stock codes, mode, workers, total)
  keeps its value.  The history table and the counters are unchanged.
\<close>

theorem update_progress_frame:
  "list_all2 (\<lambda>r r'.
      (bts_task_id r \<noteq> tid \<longrightarrow> r' = r) \<and>
      (bts_task_id r = tid \<longrightarrow>
         bts_completed_count r' = cc
       \<and> (case cs of Some v \<Rightarrow> bts_current_stock r' = Some v
                    | None \<Rightarrow> bts_current_stock r' = bts_current_stock r)
       \<and> (case sc of Some n \<Rightarrow> bts_success_count r' = n
                    | None \<Rightarrow> bts_success_count r' = bts_success_count r)
       \<and> (case fc of Some n \<Rightarrow> bts_failed_count r' = n
                    | None \<Rightarrow> bts_failed_count r' = bts_failed_count r)
       \<and> (case pp of Some p \<Rightarrow> bts_progress_percent r' = p
                    | None \<Rightarrow> bts_progress_percent r' = bts_progress_percent r)
       \<and> bts_id r' = bts_id r \<and> bts_task_id r' = bts_task_id r
       \<and> bts_status r' = bts_status r \<and> bts_stock_codes r' = bts_stock_codes r
       \<and> bts_analysis_mode r' = bts_analysis_mode r \<and> bts_max_workers r' = bts_max_workers r
       \<and> bts_total_count r' = bts_total_count r \<and> bts_error_message r' = bts_error_message r
       \<and> bts_history_record_id r' = bts_history_record_id r
       \<and> bts_started_at r' = bts_started_at r \<and> bts_completed_at r' = bts_completed_at r
       \<and> bts_created_at r' = bts_created_at r))
     (task_rows db) (task_rows (mf_update_task_progress db tid cc cs sc fc pp))
   \<and> history_rows (mf_update_task_progress db tid cc cs sc fc pp) = history_rows db
   \<and> task_seq (mf_update_task_progress db tid cc cs sc fc pp) = task_seq db
   \<and> history_seq (mf_update_task_progress db tid cc cs sc fc pp) = history_seq db"
  unfolding mf_update_task_progress_def
  by (auto simp: list_all2_map2 set_if_def intro!: list_all2_refl split: option.splits)

theorem update_progress_frame_witness:
  "bts_task_id (task_rows example_db ! 1) = ''t1''
   \<and> bts_task_id (task_rows example_db ! 0) \<noteq> ''t1''
   \<and> task_rows (mf_update_task_progress example_db ''t1'' 2 None (Some 1) None None)
       = [example_row 1 ''t0'' ''completed'',
          (example_row 2 ''t1'' ''running'')\<lparr>bts_completed_count := 2, bts_success_count := 1\<rparr>]"
  using update_progress_frame [of "''t1''" 2 None "Some 1" None None example_db]
  by (simp add: example_db_def example_row_def mf_update_task_progress_def set_if_def)


section \<open>Properties of the MainForce worker\<close>

lemma get_progress:
  "mf_get_task_by_id (mf_update_task_progress db tid cc cs sc fc pp) t =
     (if t = tid then
        map_option (\<lambda>r. r\<lparr>bts_completed_count := cc,
            bts_current_stock := set_if cs (bts_current_stock r),
            bts_success_count := (case sc of None \<Rightarrow> bts_success_count r | Some n \<Rightarrow> n),
            bts_failed_count := (case fc of None \<Rightarrow> bts_failed_count r | Some n \<Rightarrow> n),
            bts_progress_percent := (case pp of None \<Rightarrow> bts_progress_percent r | Some p \<Rightarrow> p)\<rparr>)
          (mf_get_task_by_id db tid)
      else mf_get_task_by_id db t)"
  unfolding mf_get_task_by_id_def mf_update_task_progress_def
  by (simp add: find_map_upd[where key = bts_task_id])

lemma get_status:
  "mf_get_task_by_id (mf_update_task_status db tid st em hid sa ca) t =
     (if t = tid then
        map_option (\<lambda>r. r\<lparr>bts_status := st,
            bts_error_message := set_if em (bts_error_message r),
            bts_history_record_id := set_if hid (bts_history_record_id r),
            bts_started_at := set_if sa (bts_started_at r),
            bts_completed_at := set_if ca (bts_completed_at r)\<rparr>)
          (mf_get_task_by_id db tid)
      else mf_get_task_by_id db t)"
  unfolding mf_get_task_by_id_def mf_update_task_status_def
  by (simp add: find_map_upd[where key = bts_task_id])

lemma get_save:
  "mf_get_task_by_id (snd (save_batch_analysis now db bc mode sc fc tt rs)) t = mf_get_task_by_id db t"
  by (simp add: mf_get_task_by_id_def save_batch_analysis_def Let_def)

lemma history_progress [simp]:
  "history_rows (mf_update_task_progress db tid cc cs sc fc pp) = history_rows db"
  "history_seq (mf_update_task_progress db tid cc cs sc fc pp) = history_seq db"
  by (simp_all add: mf_update_task_progress_def)

lemma history_status [simp]:
  "history_rows (mf_update_task_status db tid st em hid sa ca) = history_rows db"
  "history_seq (mf_update_task_status db tid st em hid sa ca) = history_seq db"
  by (simp_all add: mf_update_task_status_def)

text \<open>store_call, split by the fault\<close>

lemma store_call_ok:
  "store_fault env (length (journal r)) = None \<Longrightarrow>
   store_call env c f r = r\<lparr>store := f (time_at env (length (journal r))) (store r),
                            journal := journal r @ [c]\<rparr>"
  by (simp add: store_call_def)

lemma store_call_raised:
  "raised r = None \<Longrightarrow>
   (raised (store_call env c f r) = None) = (store_fault env (length (journal r)) = None)"
  by (simp add: store_call_def split: option.splits)

lemma store_call_journal [simp]: "journal (store_call env c f r) = journal r @ [c]"
  by (simp add: store_call_def split: option.splits)

lemma store_call_results [simp]: "results (store_call env c f r) = results r"
  by (simp add: store_call_def split: option.splits)

text \<open>the body of the sequential loop\<close>

lemma sequential_body_ok:
  assumes "raised r = None" and "raised (sequential_body env tid n i code r) = None"
  shows "results (sequential_body env tid n i code r) = results r @ [analyze_single env code]"
    and "history_rows (store (sequential_body env tid n i code r)) = history_rows (store r)"
    and "history_seq (store (sequential_body env tid n i code r)) = history_seq (store r)"
    and "mf_get_task_by_id (store r) tid = Some row \<Longrightarrow>
         mf_get_task_by_id (store (sequential_body env tid n i code r)) tid =
           Some (row\<lparr>bts_completed_count := int i + 1,
                     bts_current_stock := Some code,
                     bts_success_count := count_success (results r @ [analyze_single env code]),
                     bts_failed_count := count_failed (results r @ [analyze_single env code]),
                     bts_progress_percent := percent (i + 1) n\<rparr>)"
  using assms
  by (auto simp: sequential_body_def Let_def store_call_def get_progress set_if_def
           split: option.splits if_splits)

lemma sequential_body_status:
  "map_option bts_status (mf_get_task_by_id (store (sequential_body env tid n i code r)) t)
     = map_option bts_status (mf_get_task_by_id (store r) t)"
  "map_option bts_total_count (mf_get_task_by_id (store (sequential_body env tid n i code r)) t)
     = map_option bts_total_count (mf_get_task_by_id (store r) t)"
  by (auto simp: sequential_body_def Let_def store_call_def get_progress option.map_comp comp_def
           split: option.splits if_splits)


lemma sequential_loop_ok:
  assumes "raised r = None"
      and "raised (sequential_loop env tid n i codes r) = None"
      and "mf_get_task_by_id (store r) tid = Some row"
  shows "\<exists>k \<le> length codes.
           results (sequential_loop env tid n i codes r)
             = results r @ map (analyze_single env) (take k codes)
         \<and> (\<forall>j < k. \<not> cancel_is_set env (length (results r) + j))
         \<and> (k < length codes \<longrightarrow> cancel_is_set env (length (results r) + k))
         \<and> history_rows (store (sequential_loop env tid n i codes r)) = history_rows (store r)
         \<and> history_seq (store (sequential_loop env tid n i codes r)) = history_seq (store r)
         \<and> mf_get_task_by_id (store (sequential_loop env tid n i codes r)) tid =
             (if k = 0 then Some row
              else Some (row\<lparr>bts_completed_count := int (i + k),
                     bts_current_stock := Some (codes ! (k - 1)),
                     bts_success_count := count_success (results (sequential_loop env tid n i codes r)),
                     bts_failed_count := count_failed (results (sequential_loop env tid n i codes r)),
                     bts_progress_percent := percent (i + k) n\<rparr>))"
  using assms
proof (induction codes arbitrary: r i row)
  case Nil
  then show ?case by simp
next
  case (Cons code codes)
  show ?case
  proof (cases "cancel_is_set env (length (results r))")
    case True
    then show ?thesis using Cons.prems by (intro exI[of _ 0]) simp
  next
    case False
    define rb where "rb = sequential_body env tid n i code r"
    have loop: "sequential_loop env tid n i (code # codes) r
                = (if raised rb \<noteq> None then rb else sequential_loop env tid n (i + 1) codes rb)"
      using False by (simp add: rb_def Let_def)
    have rb_ok: "raised rb = None"
      using Cons.prems(2) unfolding loop by (auto split: if_splits)
    then have loop': "sequential_loop env tid n i (code # codes) r
                      = sequential_loop env tid n (i + 1) codes rb"
      using loop by simp
    note body = sequential_body_ok[OF Cons.prems(1) rb_ok[unfolded rb_def], folded rb_def]
    define row1 where "row1 = row\<lparr>bts_completed_count := int i + 1,
                     bts_current_stock := Some code,
                     bts_success_count := count_success (results r @ [analyze_single env code]),
                     bts_failed_count := count_failed (results r @ [analyze_single env code]),
                     bts_progress_percent := percent (i + 1) n\<rparr>"
    have get1: "mf_get_task_by_id (store rb) tid = Some row1"
      using body(4)[OF Cons.prems(3)] by (simp add: row1_def)
    have r2: "raised (sequential_loop env tid n (i + 1) codes rb) = None"
      using Cons.prems(2) loop' by simp
    from Cons.IH[OF rb_ok r2 get1] obtain k where
      k: "k \<le> length codes"
      and res: "results (sequential_loop env tid n (i + 1) codes rb)
                = results rb @ map (analyze_single env) (take k codes)"
      and nc: "\<forall>j < k. \<not> cancel_is_set env (length (results rb) + j)"
      and c: "k < length codes \<longrightarrow> cancel_is_set env (length (results rb) + k)"
      and h: "history_rows (store (sequential_loop env tid n (i + 1) codes rb)) = history_rows (store rb)"
             "history_seq (store (sequential_loop env tid n (i + 1) codes rb)) = history_seq (store rb)"
      and g: "mf_get_task_by_id (store (sequential_loop env tid n (i + 1) codes rb)) tid =
             (if k = 0 then Some row1
              else Some (row1\<lparr>bts_completed_count := int (i + 1 + k),
                     bts_current_stock := Some (codes ! (k - 1)),
                     bts_success_count := count_success (results (sequential_loop env tid n (i + 1) codes rb)),
                     bts_failed_count := count_failed (results (sequential_loop env tid n (i + 1) codes rb)),
                     bts_progress_percent := percent (i + 1 + k) n\<rparr>))"
      by blast
    have nc': "\<forall>j < Suc k. \<not> cancel_is_set env (length (results r) + j)"
    proof (intro allI impI)
      fix j assume "j < Suc k"
      show "\<not> cancel_is_set env (length (results r) + j)"
      proof (cases j)
        case 0 then show ?thesis using False by simp
      next
        case (Suc j')
        with \<open>j < Suc k\<close> nc have "\<not> cancel_is_set env (length (results rb) + j')" by simp
        then show ?thesis using Suc body(1) by simp
      qed
    qed
    show ?thesis
    proof (intro exI[of _ "Suc k"] conjI)
      show "Suc k \<le> length (code # codes)" using k by simp
      show "results (sequential_loop env tid n i (code # codes) r)
            = results r @ map (analyze_single env) (take (Suc k) (code # codes))"
        using res body(1) loop' by simp
      show "\<forall>j < Suc k. \<not> cancel_is_set env (length (results r) + j)" by (rule nc')
      show "Suc k < length (code # codes) \<longrightarrow> cancel_is_set env (length (results r) + Suc k)"
        using c body(1) by simp
      show "history_rows (store (sequential_loop env tid n i (code # codes) r)) = history_rows (store r)"
        using h body(2) loop' by simp
      show "history_seq (store (sequential_loop env tid n i (code # codes) r)) = history_seq (store r)"
        using h body(3) loop' by simp
      show "mf_get_task_by_id (store (sequential_loop env tid n i (code # codes) r)) tid =
             (if Suc k = 0 then Some row
              else Some (row\<lparr>bts_completed_count := int (i + Suc k),
                     bts_current_stock := Some ((code # codes) ! (Suc k - 1)),
                     bts_success_count := count_success (results (sequential_loop env tid n i (code # codes) r)),
                     bts_failed_count := count_failed (results (sequential_loop env tid n i (code # codes) r)),
                     bts_progress_percent := percent (i + Suc k) n\<rparr>))"
      proof (cases "k = 0")
        case True
        then show ?thesis using g res body(1) unfolding loop' by (simp add: row1_def)
      next
        case False
        then obtain k' where "k = Suc k'" by (cases k) auto
        then show ?thesis using g unfolding loop' by (simp add: row1_def)
      qed
    qed
  qed
qed

lemma sequential_loop_status:
  "map_option bts_status (mf_get_task_by_id (store (sequential_loop env tid n i codes r)) t)
     = map_option bts_status (mf_get_task_by_id (store r) t)"
  by (induction codes arbitrary: r i) (simp_all add: Let_def sequential_body_status)

lemma sequential_body_no_fault:
  "no_fault env \<Longrightarrow> raised r = None \<Longrightarrow> raised (sequential_body env tid n i code r) = None"
  by (simp add: no_fault_def sequential_body_def Let_def store_call_def)

lemma sequential_loop_no_fault:
  "no_fault env \<Longrightarrow> raised r = None \<Longrightarrow> raised (sequential_loop env tid n i codes r) = None"
  by (induction codes arbitrary: r i) (simp_all add: Let_def sequential_body_no_fault)


lemma finalize_cancelled:
  assumes "no_fault env" and "cancel_is_set env (length (results r))"
      and "mf_get_task_by_id (store r) tid = Some row"
  shows "mf_get_task_by_id (store (finalize env tid codes mode r)) tid
              = Some (row\<lparr>bts_status := ''cancelled'',
                        bts_completed_at := Some (time_at env (length (journal r)))\<rparr>)"
    and "history_rows (store (finalize env tid codes mode r)) = history_rows (store r)"
    and "results (finalize env tid codes mode r) = results r"
    and "raised (finalize env tid codes mode r) = raised r"
  using assms
  by (simp_all add: finalize_def Let_def no_fault_def store_call_def get_status set_if_def)

lemma save_history:
  "history_rows (snd (save_batch_analysis now db bc mode sc fc tt rs))
     = history_rows db @ [\<lparr>bah_id = history_seq db + 1, bah_analysis_date = now,
          bah_batch_count = bc, bah_analysis_mode = mode, bah_success_count = sc,
          bah_failed_count = fc, bah_total_time = tt,
          bah_results_json = clean_results_for_json rs\<rparr>]"
  "history_seq (snd (save_batch_analysis now db bc mode sc fc tt rs)) = history_seq db + 1"
  by (simp_all add: save_batch_analysis_def Let_def)

lemma finalize_completed:
  assumes "no_fault env" and "\<not> cancel_is_set env (length (results r))"
      and "mf_get_task_by_id (store r) tid = Some row" and "raised r = None"
  shows "mf_get_task_by_id (store (finalize env tid codes mode r)) tid
              = Some (row\<lparr>bts_status := ''completed'',
                        bts_history_record_id := Some (history_seq (store r) + 1),
                        bts_completed_at := Some (time_at env (length (journal r) + 1))\<rparr>)"
    and "\<exists>h. history_rows (store (finalize env tid codes mode r)) = history_rows (store r) @ [h]
            \<and> bah_id h = history_seq (store r) + 1
            \<and> bah_batch_count h = int (length codes)
            \<and> bah_success_count h = count_success (results r)
            \<and> bah_failed_count h = int (length (results r)) - count_success (results r)
            \<and> bah_results_json h = clean_results_for_json (map result_items (results r))"
    and "results (finalize env tid codes mode r) = results r"
    and "raised (finalize env tid codes mode r) = None"
  using assms
  by (simp_all add: finalize_def Let_def no_fault_def store_call_def get_status set_if_def
        get_save save_history)

lemma run_analysis_sequential:
  assumes nf: "no_fault env"
  shows "run_analysis env tid codes ''sequential'' workers r0 =
    (finalize env tid codes ''sequential''
       (sequential_loop env tid (length codes) 0 codes
          (r0\<lparr>results := [], raised := None,
              store := mf_update_task_status (store r0) tid ''running'' None None
                         (Some (time_at env (length (journal r0)))) None,
              journal := journal r0 @ [StatusCall tid ''running'']\<rparr>)))
      \<lparr>current_task_id := None, task_lock_held := False\<rparr>"
proof -
  define r1 where "r1 = r0\<lparr>results := [], raised := None,
              store := mf_update_task_status (store r0) tid ''running'' None None
                         (Some (time_at env (length (journal r0)))) None,
              journal := journal r0 @ [StatusCall tid ''running'']\<rparr>"
  have a: "store_call env (StatusCall tid ''running'')
                 (\<lambda>now db. mf_update_task_status db tid ''running'' None None (Some now) None)
                 (r0\<lparr>results := [], raised := None\<rparr>) = r1"
    using nf by (simp add: store_call_def no_fault_def r1_def)
  have b: "raised r1 = None" by (simp add: r1_def)
  have c: "raised (sequential_loop env tid (length codes) 0 codes r1) = None"
    by (rule sequential_loop_no_fault[OF nf b])
  have d: "raised (finalize env tid codes ''sequential''
                     (sequential_loop env tid (length codes) 0 codes r1)) = None"
    using nf c by (simp add: finalize_def Let_def no_fault_def store_call_def)
  show ?thesis
    unfolding run_analysis_def Let_def a r1_def[symmetric] using b c d by simp
qed

lemmas run_defs = run_analysis_def store_call_def sequential_body_def finalize_def
  mf_update_task_status_def mf_update_task_progress_def mf_get_task_by_id_def
  mf_create_task_def save_batch_analysis_def analyze_single_def failure_def
  count_success_def count_failed_def set_if_def Let_def

text \<open>
  Claim C3, as the code has it.  In a sequential run without store faults in which the
  cancellation flag is first seen set when \<open>k\<close> of the \<open>n\<close> units are done
  (\<open>0 < k < n\<close>), the worker stops, the task ends \<^verbatim>\<open>cancelled\<close> with
  \<^verbatim>\<open>completed_count = k\<close>, and the local list \<^verbatim>\<open>results\<close> holds exactly the outcomes of
  the first \<open>k\<close> units; but nothing is saved: \<^verbatim>\<open>save_batch_analysis\<close> is called only when
  the flag is not set, so the history table and the task's \<^verbatim>\<open>history_record_id\<close> are
  unchanged.
\<close>

theorem sequential_cancel:
  assumes nf: "no_fault env"
      and row: "mf_get_task_by_id (store r0) tid = Some row0"
      and k: "0 < k" "k < length codes"
      and before: "\<forall>j < k. \<not> cancel_is_set env j"
      and at: "cancel_is_set env k"
  shows "\<exists>row. mf_get_task_by_id (store (run_analysis env tid codes ''sequential'' workers r0)) tid
                 = Some row
          \<and> bts_status row = ''cancelled''
          \<and> bts_completed_count row = int k
          \<and> bts_history_record_id row = bts_history_record_id row0
          \<and> history_rows (store (run_analysis env tid codes ''sequential'' workers r0))
              = history_rows (store r0)
          \<and> results (run_analysis env tid codes ''sequential'' workers r0)
              = map (analyze_single env) (take k codes)"
proof -
  define r1 where "r1 = r0\<lparr>results := [], raised := None,
              store := mf_update_task_status (store r0) tid ''running'' None None
                         (Some (time_at env (length (journal r0)))) None,
              journal := journal r0 @ [StatusCall tid ''running'']\<rparr>"
  define r2 where "r2 = sequential_loop env tid (length codes) 0 codes r1"
  define row1 where "row1 = row0\<lparr>bts_status := ''running'',
                                 bts_started_at := Some (time_at env (length (journal r0)))\<rparr>"
  have run: "run_analysis env tid codes ''sequential'' workers r0
             = (finalize env tid codes ''sequential'' r2)\<lparr>current_task_id := None, task_lock_held := False\<rparr>"
    unfolding r2_def r1_def by (rule run_analysis_sequential[OF nf])
  have r1: "raised r1 = None" "results r1 = []" by (simp_all add: r1_def)
  have g1: "mf_get_task_by_id (store r1) tid = Some row1"
    using row by (simp add: r1_def row1_def get_status set_if_def)
  have h1: "history_rows (store r1) = history_rows (store r0)" by (simp add: r1_def)
  have r2: "raised r2 = None" unfolding r2_def by (rule sequential_loop_no_fault[OF nf r1(1)])
  from sequential_loop_ok[OF r1(1) r2[unfolded r2_def] g1, folded r2_def] obtain m where
    m: "m \<le> length codes"
    and res: "results r2 = results r1 @ map (analyze_single env) (take m codes)"
    and nc: "\<forall>j < m. \<not> cancel_is_set env (length (results r1) + j)"
    and c: "m < length codes \<longrightarrow> cancel_is_set env (length (results r1) + m)"
    and h: "history_rows (store r2) = history_rows (store r1)"
    and g: "mf_get_task_by_id (store r2) tid =
             (if m = 0 then Some row1
              else Some (row1\<lparr>bts_completed_count := int (0 + m),
                     bts_current_stock := Some (codes ! (m - 1)),
                     bts_success_count := count_success (results r2),
                     bts_failed_count := count_failed (results r2),
                     bts_progress_percent := percent (0 + m) (length codes)\<rparr>))"
    by blast
  have "m = k"
  proof (rule ccontr)
    assume "m \<noteq> k"
    then consider "m < k" | "k < m" by linarith
    then show False
    proof cases
      case 1
      with k have "m < length codes" by simp
      with c r1(2) have "cancel_is_set env m" by simp
      with before 1 show False by simp
    next
      case 2
      with nc r1(2) have "\<not> cancel_is_set env k" by simp
      with at show False by simp
    qed
  qed
  have len: "length (results r2) = k" using res r1(2) \<open>m = k\<close> k by simp
  have g2: "mf_get_task_by_id (store r2) tid =
              Some (row1\<lparr>bts_completed_count := int k,
                     bts_current_stock := Some (codes ! (k - 1)),
                     bts_success_count := count_success (results r2),
                     bts_failed_count := count_failed (results r2),
                     bts_progress_percent := percent k (length codes)\<rparr>)"
    using g \<open>m = k\<close> k by simp
  have cs: "cancel_is_set env (length (results r2))" using at len by simp
  note fin = finalize_cancelled[OF nf cs g2, of codes "''sequential''"]
  show ?thesis
    unfolding run using fin h h1 res r1(2) \<open>m = k\<close> by (simp add: row1_def)
qed

theorem sequential_cancel_witness:
  "\<exists>row. mf_get_task_by_id (store (run_analysis cancel_after_two ''t1'' five_codes ''sequential'' 3
                 (fresh_run five_codes ''sequential''))) ''t1'' = Some row
          \<and> bts_status row = ''cancelled''
          \<and> bts_completed_count row = 2
          \<and> results (run_analysis cancel_after_two ''t1'' five_codes ''sequential'' 3
                 (fresh_run five_codes ''sequential''))
              = [\<lparr>symbol = ''600000'', success = True, others = []\<rparr>,
                 failure ''600004'' ''no data'']"
proof -
  have nf: "no_fault cancel_after_two" by (simp add: no_fault_def cancel_after_two_def)
  obtain row0 where row: "mf_get_task_by_id (store (fresh_run five_codes ''sequential'')) ''t1'' = Some row0"
    by (simp add: fresh_run_def mf_create_task_def mf_get_task_by_id_def Let_def)
  have k: "0 < (2::nat)" "2 < length five_codes" by (simp_all add: five_codes_def)
  have b: "\<forall>j < 2. \<not> cancel_is_set cancel_after_two j" by (simp add: cancel_after_two_def)
  have a: "cancel_is_set cancel_after_two 2" by (simp add: cancel_after_two_def)
  from sequential_cancel[OF nf row k b a, of 3] show ?thesis
    by (auto simp: five_codes_def analyze_single_def cancel_after_two_def)
qed

text \<open>
  Claim C3 as stated fails at five units with the cancellation seen after two: the task
  is \<^verbatim>\<open>cancelled\<close> with \<^verbatim>\<open>completed_count = 2\<close> and two outcomes were collected, but no
  history record exists and the task has no \<^verbatim>\<open>history_record_id\<close>.
\<close>

theorem sequential_cancel_counterexample:
  "map_option bts_status (mf_get_task_by_id
       (store (run_analysis cancel_after_two ''t1'' five_codes ''sequential'' 3
                 (fresh_run five_codes ''sequential''))) ''t1'') = Some ''cancelled''
   \<and> map_option bts_completed_count (mf_get_task_by_id
       (store (run_analysis cancel_after_two ''t1'' five_codes ''sequential'' 3
                 (fresh_run five_codes ''sequential''))) ''t1'') = Some 2
   \<and> map_option bts_history_record_id (mf_get_task_by_id
       (store (run_analysis cancel_after_two ''t1'' five_codes ''sequential'' 3
                 (fresh_run five_codes ''sequential''))) ''t1'') = Some None
   \<and> history_rows (store (run_analysis cancel_after_two ''t1'' five_codes ''sequential'' 3
                 (fresh_run five_codes ''sequential''))) = []
   \<and> length (results (run_analysis cancel_after_two ''t1'' five_codes ''sequential'' 3
                 (fresh_run five_codes ''sequential''))) = 2"
  by (simp add: run_defs cancel_after_two_def five_codes_def fresh_run_def)


section \<open>Journals and loops of the batch workers\<close>

text \<open>journal of the loops\<close>

lemma progress_writes_append [simp]:
  "progress_writes (xs @ ys) = progress_writes xs @ progress_writes ys"
  by (simp add: progress_writes_def)

lemma progress_writes_simps [simp]:
  "progress_writes [] = []"
  "progress_writes (ProgressCall t n # cs) = n # progress_writes cs"
  "progress_writes (StatusCall t st # cs) = progress_writes cs"
  "progress_writes (SaveCall t # cs) = progress_writes cs"
  "progress_writes (StepCall t p # cs) = progress_writes cs"
  by (simp_all add: progress_writes_def)

lemma sequential_body_journal:
  "\<exists>ws. progress_writes (journal (sequential_body env tid n i code r))
          = progress_writes (journal r) @ ws
        \<and> sorted ws \<and> (\<forall>w \<in> set ws. int i \<le> w \<and> w \<le> int i + 1)"
  by (auto simp: sequential_body_def Let_def)

lemma sequential_loop_journal:
  "\<exists>ws. progress_writes (journal (sequential_loop env tid n i codes r))
          = progress_writes (journal r) @ ws
        \<and> sorted ws \<and> (\<forall>w \<in> set ws. int i \<le> w \<and> w \<le> int i + int (length codes))"
proof (induction codes arbitrary: r i)
  case Nil
  then show ?case by simp
next
  case (Cons code codes)
  obtain ws1 where b: "progress_writes (journal (sequential_body env tid n i code r))
          = progress_writes (journal r) @ ws1"
     and s1: "sorted ws1" and r1: "\<forall>w \<in> set ws1. int i \<le> w \<and> w \<le> int i + 1"
    using sequential_body_journal by blast
  obtain ws2 where l: "progress_writes (journal (sequential_loop env tid n (i + 1) codes
             (sequential_body env tid n i code r)))
          = progress_writes (journal (sequential_body env tid n i code r)) @ ws2"
     and s2: "sorted ws2"
     and r2: "\<forall>w \<in> set ws2. int (i + 1) \<le> w \<and> w \<le> int (i + 1) + int (length codes)"
    using Cons.IH by blast
  have s12: "sorted (ws1 @ ws2)" using s1 s2 r1 r2 by (fastforce simp: sorted_append)
  show ?case
  proof (cases "cancel_is_set env (length (results r))")
    case True
    then show ?thesis by simp
  next
    case False
    show ?thesis
    proof (cases "raised (sequential_body env tid n i code r) \<noteq> None")
      case True
      with False b s1 r1 show ?thesis
        by (intro exI[of _ ws1]) (auto simp: Let_def)
    next
      case False
      with \<open>\<not> cancel_is_set env (length (results r))\<close> b l s12 r1 r2 show ?thesis
        by (intro exI[of _ "ws1 @ ws2"]) (auto simp: Let_def)
    qed
  qed
qed

lemma parallel_loop_journal:
  "\<exists>ws. progress_writes (journal (parallel_loop env tid n c futures r))
          = progress_writes (journal r) @ ws
        \<and> sorted ws \<and> (\<forall>w \<in> set ws. int c < w \<and> w \<le> int c + int (length futures))"
proof (induction futures arbitrary: r c)
  case Nil
  then show ?case by simp
next
  case (Cons code futures)
  have b: "progress_writes (journal (parallel_body env tid n (c + 1) code r))
          = progress_writes (journal r) @ [int c + 1]"
    by (simp add: parallel_body_def Let_def)
  obtain ws2 where l: "progress_writes (journal (parallel_loop env tid n (c + 1) futures
             (parallel_body env tid n (c + 1) code r)))
          = progress_writes (journal (parallel_body env tid n (c + 1) code r)) @ ws2"
     and s2: "sorted ws2"
     and r2: "\<forall>w \<in> set ws2. int (c + 1) < w \<and> w \<le> int (c + 1) + int (length futures)"
    using Cons.IH by blast
  have s12: "sorted ((int c + 1) # ws2)" using s2 r2 by fastforce
  show ?case
  proof (cases "cancel_is_set env (length (results r))")
    case True
    then show ?thesis by simp
  next
    case False
    show ?thesis
    proof (cases "raised (parallel_body env tid n (c + 1) code r) \<noteq> None")
      case True
      with False b show ?thesis
        by (intro exI[of _ "[int c + 1]"]) (auto simp: Let_def)
    next
      case False
      with \<open>\<not> cancel_is_set env (length (results r))\<close> b l s12 r2 show ?thesis
        by (intro exI[of _ "(int c + 1) # ws2"]) (auto simp: Let_def)
    qed
  qed
qed

lemma parallel_body_ok:
  assumes "raised r = None" and "raised (parallel_body env tid n c code r) = None"
  shows "results (parallel_body env tid n c code r) = results r @ [analyze_single env code]"
    and "history_rows (store (parallel_body env tid n c code r)) = history_rows (store r)"
    and "history_seq (store (parallel_body env tid n c code r)) = history_seq (store r)"
    and "mf_get_task_by_id (store r) tid = Some row \<Longrightarrow>
         mf_get_task_by_id (store (parallel_body env tid n c code r)) tid =
           Some (row\<lparr>bts_completed_count := int c,
                     bts_current_stock := Some code,
                     bts_success_count := count_success (results r @ [analyze_single env code]),
                     bts_failed_count := count_failed (results r @ [analyze_single env code]),
                     bts_progress_percent := percent c n\<rparr>)"
  using assms
  by (auto simp: parallel_body_def Let_def store_call_def get_progress set_if_def
           split: option.splits if_splits)

lemma parallel_body_status:
  "map_option bts_status (mf_get_task_by_id (store (parallel_body env tid n c code r)) t)
     = map_option bts_status (mf_get_task_by_id (store r) t)"
  by (auto simp: parallel_body_def Let_def store_call_def get_progress option.map_comp comp_def
           split: option.splits if_splits)

lemma parallel_loop_ok:
  assumes "raised r = None"
      and "raised (parallel_loop env tid n c futures r) = None"
      and "mf_get_task_by_id (store r) tid = Some row"
  shows "\<exists>k \<le> length futures.
           results (parallel_loop env tid n c futures r)
             = results r @ map (analyze_single env) (take k futures)
         \<and> (\<forall>j < k. \<not> cancel_is_set env (length (results r) + j))
         \<and> (k < length futures \<longrightarrow> cancel_is_set env (length (results r) + k))
         \<and> history_rows (store (parallel_loop env tid n c futures r)) = history_rows (store r)
         \<and> history_seq (store (parallel_loop env tid n c futures r)) = history_seq (store r)
         \<and> mf_get_task_by_id (store (parallel_loop env tid n c futures r)) tid =
             (if k = 0 then Some row
              else Some (row\<lparr>bts_completed_count := int (c + k),
                     bts_current_stock := Some (futures ! (k - 1)),
                     bts_success_count := count_success (results (parallel_loop env tid n c futures r)),
                     bts_failed_count := count_failed (results (parallel_loop env tid n c futures r)),
                     bts_progress_percent := percent (c + k) n\<rparr>))"
  using assms
proof (induction futures arbitrary: r c row)
  case Nil
  then show ?case by simp
next
  case (Cons code futures)
  show ?case
  proof (cases "cancel_is_set env (length (results r))")
    case True
    then show ?thesis using Cons.prems by (intro exI[of _ 0]) simp
  next
    case False
    define rb where "rb = parallel_body env tid n (c + 1) code r"
    have loop: "parallel_loop env tid n c (code # futures) r
                = (if raised rb \<noteq> None then rb else parallel_loop env tid n (c + 1) futures rb)"
      using False by (simp add: rb_def Let_def)
    have rb_ok: "raised rb = None"
      using Cons.prems(2) unfolding loop by (auto split: if_splits)
    then have loop': "parallel_loop env tid n c (code # futures) r
                      = parallel_loop env tid n (c + 1) futures rb"
      using loop by simp
    note body = parallel_body_ok[OF Cons.prems(1) rb_ok[unfolded rb_def], folded rb_def]
    define row1 where "row1 = row\<lparr>bts_completed_count := int (c + 1),
                     bts_current_stock := Some code,
                     bts_success_count := count_success (results r @ [analyze_single env code]),
                     bts_failed_count := count_failed (results r @ [analyze_single env code]),
                     bts_progress_percent := percent (c + 1) n\<rparr>"
    have get1: "mf_get_task_by_id (store rb) tid = Some row1"
      using body(4)[OF Cons.prems(3)] by (simp add: row1_def)
    have r2: "raised (parallel_loop env tid n (c + 1) futures rb) = None"
      using Cons.prems(2) loop' by simp
    from Cons.IH[OF rb_ok r2 get1] obtain k where
      k: "k \<le> length futures"
      and res: "results (parallel_loop env tid n (c + 1) futures rb)
                = results rb @ map (analyze_single env) (take k futures)"
      and nc: "\<forall>j < k. \<not> cancel_is_set env (length (results rb) + j)"
      and cc: "k < length futures \<longrightarrow> cancel_is_set env (length (results rb) + k)"
      and h: "history_rows (store (parallel_loop env tid n (c + 1) futures rb)) = history_rows (store rb)"
             "history_seq (store (parallel_loop env tid n (c + 1) futures rb)) = history_seq (store rb)"
      and g: "mf_get_task_by_id (store (parallel_loop env tid n (c + 1) futures rb)) tid =
             (if k = 0 then Some row1
              else Some (row1\<lparr>bts_completed_count := int (c + 1 + k),
                     bts_current_stock := Some (futures ! (k - 1)),
                     bts_success_count := count_success (results (parallel_loop env tid n (c + 1) futures rb)),
                     bts_failed_count := count_failed (results (parallel_loop env tid n (c + 1) futures rb)),
                     bts_progress_percent := percent (c + 1 + k) n\<rparr>))"
      by blast
    have nc': "\<forall>j < Suc k. \<not> cancel_is_set env (length (results r) + j)"
    proof (intro allI impI)
      fix j assume "j < Suc k"
      show "\<not> cancel_is_set env (length (results r) + j)"
      proof (cases j)
        case 0 then show ?thesis using False by simp
      next
        case (Suc j')
        with \<open>j < Suc k\<close> nc have "\<not> cancel_is_set env (length (results rb) + j')" by simp
        then show ?thesis using Suc body(1) by simp
      qed
    qed
    show ?thesis
    proof (intro exI[of _ "Suc k"] conjI)
      show "Suc k \<le> length (code # futures)" using k by simp
      show "results (parallel_loop env tid n c (code # futures) r)
            = results r @ map (analyze_single env) (take (Suc k) (code # futures))"
        using res body(1) loop' by simp
      show "\<forall>j < Suc k. \<not> cancel_is_set env (length (results r) + j)" by (rule nc')
      show "Suc k < length (code # futures) \<longrightarrow> cancel_is_set env (length (results r) + Suc k)"
        using cc body(1) by simp
      show "history_rows (store (parallel_loop env tid n c (code # futures) r)) = history_rows (store r)"
        using h body(2) loop' by simp
      show "history_seq (store (parallel_loop env tid n c (code # futures) r)) = history_seq (store r)"
        using h body(3) loop' by simp
      show "mf_get_task_by_id (store (parallel_loop env tid n c (code # futures) r)) tid =
             (if Suc k = 0 then Some row
              else Some (row\<lparr>bts_completed_count := int (c + Suc k),
                     bts_current_stock := Some ((code # futures) ! (Suc k - 1)),
                     bts_success_count := count_success (results (parallel_loop env tid n c (code # futures) r)),
                     bts_failed_count := count_failed (results (parallel_loop env tid n c (code # futures) r)),
                     bts_progress_percent := percent (c + Suc k) n\<rparr>))"
      proof (cases "k = 0")
        case True
        then show ?thesis using g res body(1) unfolding loop' by (simp add: row1_def)
      next
        case False
        then obtain k' where "k = Suc k'" by (cases k) auto
        then show ?thesis using g unfolding loop' by (simp add: row1_def)
      qed
    qed
  qed
qed

lemma parallel_loop_status:
  "map_option bts_status (mf_get_task_by_id (store (parallel_loop env tid n c futures r)) t)
     = map_option bts_status (mf_get_task_by_id (store r) t)"
  by (induction futures arbitrary: r c) (simp_all add: Let_def parallel_body_status)

lemma parallel_body_no_fault:
  "no_fault env \<Longrightarrow> raised r = None \<Longrightarrow> raised (parallel_body env tid n c code r) = None"
  by (simp add: no_fault_def parallel_body_def Let_def store_call_def)

lemma parallel_loop_no_fault:
  "no_fault env \<Longrightarrow> raised r = None \<Longrightarrow> raised (parallel_loop env tid n c futures r) = None"
  by (induction futures arbitrary: r c) (simp_all add: Let_def parallel_body_no_fault)

lemma run_analysis_parallel:
  assumes nf: "no_fault env" and m: "mode \<noteq> ''sequential''" and w: "0 < workers"
  shows "run_analysis env tid codes mode workers r0 =
    (finalize env tid codes mode
       (parallel_loop env tid (length codes) 0 (completion_order env codes)
          (r0\<lparr>results := [], raised := None,
              store := mf_update_task_status (store r0) tid ''running'' None None
                         (Some (time_at env (length (journal r0)))) None,
              journal := journal r0 @ [StatusCall tid ''running'']\<rparr>)))
      \<lparr>current_task_id := None, task_lock_held := False\<rparr>"
proof -
  define r1 where "r1 = r0\<lparr>results := [], raised := None,
              store := mf_update_task_status (store r0) tid ''running'' None None
                         (Some (time_at env (length (journal r0)))) None,
              journal := journal r0 @ [StatusCall tid ''running'']\<rparr>"
  have a: "store_call env (StatusCall tid ''running'')
                 (\<lambda>now db. mf_update_task_status db tid ''running'' None None (Some now) None)
                 (r0\<lparr>results := [], raised := None\<rparr>) = r1"
    using nf by (simp add: store_call_def no_fault_def r1_def)
  have b: "raised r1 = None" by (simp add: r1_def)
  have c: "raised (parallel_loop env tid (length codes) 0 (completion_order env codes) r1) = None"
    by (rule parallel_loop_no_fault[OF nf b])
  have d: "raised (finalize env tid codes mode
                     (parallel_loop env tid (length codes) 0 (completion_order env codes) r1)) = None"
    using nf c by (simp add: finalize_def Let_def no_fault_def store_call_def)
  show ?thesis
    unfolding run_analysis_def Let_def a r1_def[symmetric] using b c d m w by simp
qed

lemma count_split: "count_success rs + count_failed rs = int (length rs)"
  unfolding count_success_def count_failed_def
  using sum_length_filter_compl[of success rs] by simp

lemma count_failed_perm:
  "mset xs = mset ys \<Longrightarrow> count_failed (map f xs) = count_failed (map f ys)"
proof -
  assume a: "mset xs = mset ys"
  have "mset (filter (\<lambda>r. \<not> success r) (map f xs)) = mset (filter (\<lambda>r. \<not> success r) (map f ys))"
    using a by (metis mset_filter mset_map)
  then have "length (filter (\<lambda>r. \<not> success r) (map f xs)) = length (filter (\<lambda>r. \<not> success r) (map f ys))"
    by (metis size_mset)
  then show ?thesis by (simp add: count_failed_def)
qed

lemma count_failed_map:
  "count_failed (map f xs) = int (length (filter (\<lambda>c. \<not> success (f c)) xs))"
  by (simp add: count_failed_def filter_map comp_def)

lemma mf_partial_failure:
  assumes nf: "no_fault env"
      and row: "mf_get_task_by_id (store r0) tid = Some row0"
      and fresh: "bts_success_count row0 = 0" "bts_failed_count row0 = 0"
      and nocancel: "\<forall>j \<le> length codes. \<not> cancel_is_set env j"
      and par: "mode \<noteq> ''sequential'' \<longrightarrow>
                  0 < workers \<and> mset (completion_order env codes) = mset codes"
  shows "\<exists>row h. mf_get_task_by_id (store (run_analysis env tid codes mode workers r0)) tid = Some row
          \<and> bts_status row = ''completed''
          \<and> bts_failed_count row = int (length (filter (\<lambda>c. \<not> success (analyze_single env c)) codes))
          \<and> bts_success_count row = int (length codes)
               - int (length (filter (\<lambda>c. \<not> success (analyze_single env c)) codes))
          \<and> history_rows (store (run_analysis env tid codes mode workers r0))
               = history_rows (store r0) @ [h]
          \<and> bts_history_record_id row = Some (bah_id h)
          \<and> bah_failed_count h = int (length (filter (\<lambda>c. \<not> success (analyze_single env c)) codes))
          \<and> bah_success_count h = int (length codes)
               - int (length (filter (\<lambda>c. \<not> success (analyze_single env c)) codes))"
proof -
  define K where "K = int (length (filter (\<lambda>c. \<not> success (analyze_single env c)) codes))"
  define r1 where "r1 = r0\<lparr>results := [], raised := None,
              store := mf_update_task_status (store r0) tid ''running'' None None
                         (Some (time_at env (length (journal r0)))) None,
              journal := journal r0 @ [StatusCall tid ''running'']\<rparr>"
  define row1 where "row1 = row0\<lparr>bts_status := ''running'',
                                 bts_started_at := Some (time_at env (length (journal r0)))\<rparr>"
  define order where "order = (if mode = ''sequential'' then codes else completion_order env codes)"
  define r2 where "r2 = (if mode = ''sequential''
                         then sequential_loop env tid (length codes) 0 codes r1
                         else parallel_loop env tid (length codes) 0 (completion_order env codes) r1)"
  have run: "run_analysis env tid codes mode workers r0
             = (finalize env tid codes mode r2)\<lparr>current_task_id := None, task_lock_held := False\<rparr>"
    using run_analysis_sequential[OF nf, of tid codes workers r0]
          run_analysis_parallel[OF nf, of mode workers tid codes r0] par
    by (auto simp: r2_def r1_def)
  have r1: "raised r1 = None" "results r1 = []" by (simp_all add: r1_def)
  have g1: "mf_get_task_by_id (store r1) tid = Some row1"
    using row by (simp add: r1_def row1_def get_status set_if_def)
  have h1: "history_rows (store r1) = history_rows (store r0)" by (simp add: r1_def)
  have ms: "mset order = mset codes" using par by (simp add: order_def)
  then have lo: "length order = length codes" by (metis size_mset)
  have r2: "raised r2 = None"
    unfolding r2_def using sequential_loop_no_fault[OF nf r1(1)] parallel_loop_no_fault[OF nf r1(1)]
    by simp
  have "\<exists>m \<le> length order.
           results r2 = results r1 @ map (analyze_single env) (take m order)
         \<and> (m < length order \<longrightarrow> cancel_is_set env (length (results r1) + m))
         \<and> history_rows (store r2) = history_rows (store r1)
         \<and> history_seq (store r2) = history_seq (store r1)
         \<and> mf_get_task_by_id (store r2) tid =
             (if m = 0 then Some row1
              else Some (row1\<lparr>bts_completed_count := int (0 + m),
                     bts_current_stock := Some (order ! (m - 1)),
                     bts_success_count := count_success (results r2),
                     bts_failed_count := count_failed (results r2),
                     bts_progress_percent := percent (0 + m) (length codes)\<rparr>))"
  proof (cases "mode = ''sequential''")
    case True
    then have e: "r2 = sequential_loop env tid (length codes) 0 codes r1" "order = codes"
      by (simp_all add: r2_def order_def)
    from sequential_loop_ok[OF r1(1) r2[unfolded e] g1] show ?thesis unfolding e by blast
  next
    case False
    then have e: "r2 = parallel_loop env tid (length codes) 0 (completion_order env codes) r1"
                 "order = completion_order env codes"
      by (simp_all add: r2_def order_def)
    from parallel_loop_ok[OF r1(1) r2[unfolded e] g1] show ?thesis unfolding e by blast
  qed
  then obtain m where
    m: "m \<le> length order"
    and res: "results r2 = results r1 @ map (analyze_single env) (take m order)"
    and c: "m < length order \<longrightarrow> cancel_is_set env (length (results r1) + m)"
    and h: "history_rows (store r2) = history_rows (store r1)"
    and g: "mf_get_task_by_id (store r2) tid =
             (if m = 0 then Some row1
              else Some (row1\<lparr>bts_completed_count := int (0 + m),
                     bts_current_stock := Some (order ! (m - 1)),
                     bts_success_count := count_success (results r2),
                     bts_failed_count := count_failed (results r2),
                     bts_progress_percent := percent (0 + m) (length codes)\<rparr>))"
    by blast
  have "m = length order"
  proof (rule ccontr)
    assume "m \<noteq> length order"
    with m have lt: "m < length order" by simp
    with c r1(2) have "cancel_is_set env m" by simp
    moreover from lt lo have "m \<le> length codes" by simp
    ultimately show False using nocancel by blast
  qed
  then have res2: "results r2 = map (analyze_single env) order" using res r1(2) by simp
  have len2: "length (results r2) = length codes" using res2 lo by simp
  have cf: "count_failed (results r2) = K"
    unfolding res2 K_def using count_failed_perm[OF ms] count_failed_map by metis
  have cs: "count_success (results r2) = int (length codes) - K"
    using count_split[of "results r2"] cf len2 by simp
  have K0: "length codes = 0 \<Longrightarrow> K = 0" by (simp add: K_def)
  obtain row2 where g2: "mf_get_task_by_id (store r2) tid = Some row2"
    and f2: "bts_failed_count row2 = K" "bts_success_count row2 = int (length codes) - K"
  proof (cases "m = 0")
    case True
    with \<open>m = length order\<close> lo have z: "length codes = 0" by simp
    have "bts_failed_count row1 = K" "bts_success_count row1 = int (length codes) - K"
      using fresh K0[OF z] z by (simp_all add: row1_def)
    with g True that show ?thesis by simp
  next
    case False
    with g cf cs that show ?thesis by simp
  qed
  have nc: "\<not> cancel_is_set env (length (results r2))" using nocancel len2 by simp
  note fin = finalize_completed[OF nf nc g2 r2, of codes mode]
  from fin(2) obtain h where
    hh: "history_rows (store (finalize env tid codes mode r2)) = history_rows (store r2) @ [h]"
        "bah_id h = history_seq (store r2) + 1"
        "bah_success_count h = count_success (results r2)"
        "bah_failed_count h = int (length (results r2)) - count_success (results r2)"
    by blast
  show ?thesis
    unfolding run K_def[symmetric]
    using fin(1) hh f2 cs len2 h h1
    by (intro exI[of _ "row2\<lparr>bts_status := ''completed'',
                        bts_history_record_id := Some (history_seq (store r2) + 1),
                        bts_completed_at := Some (time_at env (length (journal r2) + 1))\<rparr>"]
              exI[of _ h]) simp
qed

lemma ana_call_journal [simp]: "ana_journal (ana_call env c f s) = ana_journal s @ [c]"
  by (simp add: ana_call_def)

lemma batch_body_journal:
  "progress_writes (ana_journal (snd (batch_body env tid n stock st)))
     = progress_writes (ana_journal (snd st)) @ [int (length (fst st)) + 1]"
  "length (fst (batch_body env tid n stock st)) = length (fst st) + 1"
  by (simp_all add: batch_body_def Let_def split: prod.splits)

lemma batch_loop_journal:
  "\<exists>ws. progress_writes (ana_journal (case batch_loop env tid n futures st of
                                          Inl s \<Rightarrow> s | Inr (rs, s) \<Rightarrow> s))
          = progress_writes (ana_journal (snd st)) @ ws
        \<and> sorted ws
        \<and> (\<forall>w \<in> set ws. int (length (fst st)) < w \<and> w \<le> int (length (fst st)) + int (length futures))"
proof (induction futures arbitrary: st)
  case Nil
  then show ?case by (simp split: prod.splits)
next
  case (Cons stock futures)
  show ?case
  proof (cases "ana_cancel_is_set env (length (fst st))")
    case True
    then show ?thesis by simp
  next
    case False
    obtain ws2 where l: "progress_writes (ana_journal (case batch_loop env tid n futures
               (batch_body env tid n stock st) of Inl s \<Rightarrow> s | Inr (rs, s) \<Rightarrow> s))
          = progress_writes (ana_journal (snd (batch_body env tid n stock st))) @ ws2"
     and s2: "sorted ws2"
     and r2: "\<forall>w \<in> set ws2. int (length (fst (batch_body env tid n stock st))) < w
                \<and> w \<le> int (length (fst (batch_body env tid n stock st))) + int (length futures)"
      using Cons.IH by blast
    have s12: "sorted ((int (length (fst st)) + 1) # ws2)"
      using s2 r2 by (fastforce simp: batch_body_journal)
    show ?thesis
      using False l s12 r2
      by (intro exI[of _ "(int (length (fst st)) + 1) # ws2"])
         (auto simp: batch_body_journal)
  qed
qed

lemma ana_find_progress:
  "ana_find (snd (ana_update_task_progress False db tid stock cc pp)) t =
     (if t = tid then
        map_option (\<lambda>r. r\<lparr>ana_current_symbol := Some stock, ana_completed_count := cc,
                            ana_progress_percent := pp\<rparr>) (ana_find db tid)
      else ana_find db t)"
  unfolding ana_find_def ana_update_task_progress_def
  by (simp add: find_map_upd[where key = ana_task_id])

lemma ana_find_status:
  "ana_find (snd (ana_update_task_status False now db tid st em)) t =
     (if t = tid then
        map_option (\<lambda>r. r\<lparr>ana_status := st,
            ana_started_at := (if st = ''running'' then Some now else ana_started_at r),
            ana_completed_at :=
              (if st \<noteq> ''running'' \<and> terminal st then Some now else ana_completed_at r),
            ana_error_message :=
              (if truthy_message em then em else ana_error_message r)\<rparr>) (ana_find db tid)
      else ana_find db t)"
  unfolding ana_find_def ana_update_task_status_def
  by (simp add: find_map_upd[where key = ana_task_id])

lemma ana_find_save:
  "\<exists>row'. ana_find db tid = Some row \<longrightarrow>
     ana_find (snd (ana_save_task_result fault db tid payload)) tid = Some row'
     \<and> ana_status row' = ana_status row \<and> ana_error_message row' = ana_error_message row
     \<and> ana_completed_count row' = ana_completed_count row"
  unfolding ana_find_def ana_save_task_result_def Let_def
  by (cases "fault \<or> \<not> dumps_ok True (clean_for_json payload)")
     (auto simp: find_map_upd[where key = ana_task_id])

lemma batch_loop_ok:
  assumes "ana_healthy env"
      and "\<forall>j < length futures. \<not> ana_cancel_is_set env (length rs + j)"
      and "ana_find (ana_store s) tid = Some row"
  shows "\<exists>s' row'. batch_loop env tid n futures (rs, s)
                      = Inr (rs @ map (unit_outcome env) futures, s')
          \<and> ana_find (ana_store s') tid = Some row'
          \<and> ana_status row' = ana_status row
          \<and> ana_error_message row' = ana_error_message row
          \<and> ana_completed_count row' =
               (if futures = [] then ana_completed_count row else int (length rs + length futures))"
  using assms
proof (induction futures arbitrary: rs s row)
  case Nil
  then show ?case by simp
next
  case (Cons stock futures)
  define row1 where "row1 = row\<lparr>ana_current_symbol := Some stock,
                        ana_completed_count := int (length rs) + 1,
                        ana_progress_percent := percent (length rs + 1) n\<rparr>"
  define s1 where "s1 = snd (batch_body env tid n stock (rs, s))"
  have nf: "\<And>k. ana_fault env k = False" using Cons.prems(1) by (simp add: ana_healthy_def)
  have body: "batch_body env tid n stock (rs, s) = (rs @ [unit_outcome env stock], s1)"
    by (simp add: s1_def batch_body_def Let_def)
  have g1: "ana_find (ana_store s1) tid = Some row1"
    using Cons.prems(3)
    by (simp add: s1_def batch_body_def Let_def ana_call_def nf ana_find_progress row1_def)
  have nc0: "\<not> ana_cancel_is_set env (length rs)" using Cons.prems(2) by force
  have nc: "\<forall>j < length futures. \<not> ana_cancel_is_set env (length (rs @ [unit_outcome env stock]) + j)"
  proof (intro allI impI)
    fix j assume "j < length futures"
    then have "Suc j < length (stock # futures)" by simp
    with Cons.prems(2) have "\<not> ana_cancel_is_set env (length rs + Suc j)" by blast
    then show "\<not> ana_cancel_is_set env (length (rs @ [unit_outcome env stock]) + j)" by simp
  qed
  from Cons.IH[OF Cons.prems(1) nc g1] obtain s' row' where
    l: "batch_loop env tid n futures (rs @ [unit_outcome env stock], s1)
          = Inr ((rs @ [unit_outcome env stock]) @ map (unit_outcome env) futures, s')"
    and g: "ana_find (ana_store s') tid = Some row'"
    and st: "ana_status row' = ana_status row1"
    and em: "ana_error_message row' = ana_error_message row1"
    and cc: "ana_completed_count row' =
               (if futures = [] then ana_completed_count row1
                else int (length (rs @ [unit_outcome env stock]) + length futures))"
    by (elim exE conjE)
  have cc': "ana_completed_count row' = int (length rs + length (stock # futures))"
    using cc by (cases "futures = []") (simp_all add: row1_def)
  show ?case
    using nc0 body l g st em cc'
    by (intro exI[of _ s'] exI[of _ row']) (simp add: row1_def)
qed

lemma ana_partial_failure:
  assumes h: "ana_healthy env" and w: "0 < max_workers"
      and row: "ana_find (ana_store s0) tid = Some row0"
      and nocancel: "\<forall>j < length symbols. \<not> ana_cancel_is_set env j"
      and perm: "mset (ana_completion_order env symbols) = mset symbols"
  shows "\<exists>row. ana_find (ana_store (run_batch_analysis env tid symbols max_workers s0)) tid = Some row
          \<and> ana_status row = ''completed''
          \<and> ana_error_message row =
               (if length (filter (\<lambda>c. \<not> success (unit_outcome env c)) symbols) = 0
                then ana_error_message row0
                else Some (Counts
                  (int (length symbols)
                     - int (length (filter (\<lambda>c. \<not> success (unit_outcome env c)) symbols)))
                  (int (length (filter (\<lambda>c. \<not> success (unit_outcome env c)) symbols)))))"
proof -
  define K where "K = int (length (filter (\<lambda>c. \<not> success (unit_outcome env c)) symbols))"
  define order where "order = ana_completion_order env symbols"
  define s1 where "s1 = ana_call env (StatusCall tid ''running'')
                 (\<lambda>fault now db. ana_update_task_status fault now db tid ''running'' None) s0"
  have nf: "\<And>k. ana_fault env k = False" using h by (simp add: ana_healthy_def)
  define row1 where "row1 = row0\<lparr>ana_status := ''running'',
                        ana_started_at := Some (ana_time_at env (length (ana_journal s0)))\<rparr>"
  have g1: "ana_find (ana_store s1) tid = Some row1"
    using row by (simp add: s1_def ana_call_def nf ana_find_status row1_def truthy_message_def)
  have lo: "length order = length symbols" using perm unfolding order_def by (metis size_mset)
  have nc: "\<forall>j < length order. \<not> ana_cancel_is_set env (length ([]::unit_result list) + j)"
    using nocancel lo by simp
  from batch_loop_ok[OF h nc g1, of "length symbols"] obtain s2 row2 where
    l: "batch_loop env tid (length symbols) order ([], s1)
          = Inr ([] @ map (unit_outcome env) order, s2)"
    and g2: "ana_find (ana_store s2) tid = Some row2"
    and em2: "ana_error_message row2 = ana_error_message row1"
    by (elim exE conjE)
  define collected where "collected = map (unit_outcome env) order"
  define s3 where "s3 = ana_call env (SaveCall tid)
                              (\<lambda>fault now db. ana_save_task_result fault db tid
                                 (PList (map (\<lambda>r. PDict (result_items r)) collected))) s2"
  obtain row3 where g3: "ana_find (ana_store s3) tid = Some row3"
    and em3: "ana_error_message row3 = ana_error_message row2"
    using ana_find_save[of "ana_store s2" tid row2 False
            "PList (map (\<lambda>r. PDict (result_items r)) collected)"] g2
    by (auto simp: s3_def ana_call_def nf)
  have cf: "count_failed collected = K"
    unfolding collected_def K_def order_def
    using count_failed_perm[OF perm] count_failed_map by metis
  have cs: "count_success collected = int (length symbols) - K"
    using count_split[of collected] cf lo by (simp add: collected_def)
  define sc where "sc = count_success collected"
  define fc where "fc = int (length symbols) - sc"
  have fc: "fc = K" using cs by (simp add: fc_def sc_def)
  define s4 where "s4 = (if fc = 0 then
                        ana_call env (StatusCall tid ''completed'')
                          (\<lambda>fault now db. ana_update_task_status fault now db tid ''completed'' None)
                          s3
                      else
                        ana_call env (StatusCall tid ''completed'')
                          (\<lambda>fault now db. ana_update_task_status fault now db tid ''completed''
                             (Some (Counts sc fc))) s3)"
  have run: "run_batch_analysis env tid symbols max_workers s0 = cleanup_task tid s4"
    using w l
    unfolding run_batch_analysis_def Let_def s4_def fc_def sc_def s3_def collected_def order_def s1_def
    by simp
  have g4: "ana_find (ana_store s4) tid =
              Some (row3\<lparr>ana_status := ''completed'',
                 ana_completed_at := Some (ana_time_at env (length (ana_journal s3))),
                 ana_error_message := (if fc = 0 then ana_error_message row3
                                       else Some (Counts sc fc))\<rparr>)"
    using g3
    by (simp add: s4_def ana_call_def nf ana_find_status truthy_message_def terminal_def)
  have em1: "ana_error_message row1 = ana_error_message row0" by (simp add: row1_def)
  have K0: "(length (filter (\<lambda>c. \<not> success (unit_outcome env c)) symbols) = 0) = (K = 0)"
    by (simp add: K_def)
  show ?thesis
    unfolding run K0 K_def[symmetric]
    using g4 fc cs em3 em2 em1
    by (simp add: cleanup_task_def sc_def)
qed

lemma sequential_loop_total:
  "map_option bts_total_count (mf_get_task_by_id (store (sequential_loop env tid n i codes r)) t)
     = map_option bts_total_count (mf_get_task_by_id (store r) t)"
  by (induction codes arbitrary: r i) (simp_all add: Let_def sequential_body_status)

lemma finalize_general:
  assumes "raised r = None" and "mf_get_task_by_id (store r) tid = Some row"
  shows "\<exists>row'. mf_get_task_by_id (store (finalize env tid codes mode r)) tid = Some row'
          \<and> bts_completed_count row' = bts_completed_count row
          \<and> bts_total_count row' = bts_total_count row
          \<and> (raised (finalize env tid codes mode r) \<noteq> None \<longrightarrow> bts_status row' = bts_status row)
          \<and> (raised (finalize env tid codes mode r) = None \<longrightarrow>
                bts_status row' = (if cancel_is_set env (length (results r))
                                   then ''cancelled'' else ''completed''))"
  using assms
  by (auto simp: finalize_def Let_def store_call_def get_status get_save set_if_def
           split: option.splits)

lemma failed_handler:
  assumes "mf_get_task_by_id (store r) tid = Some row"
  shows "\<exists>row'. mf_get_task_by_id (store (store_call env (StatusCall tid ''failed'')
                      (\<lambda>now db. mf_update_task_status db tid ''failed'' (Some e) None None (Some now))
                      (r\<lparr>raised := None\<rparr>))) tid = Some row'
          \<and> bts_completed_count row' = bts_completed_count row
          \<and> bts_total_count row' = bts_total_count row
          \<and> (bts_status row' = ''failed'' \<or> bts_status row' = bts_status row)"
  using assms
  by (auto simp: store_call_def get_status set_if_def split: option.splits)

lemma sequential_final_count:
  assumes mode: "mode = ''sequential''"
      and row: "mf_get_task_by_id (store r0) tid = Some row0"
      and st0: "bts_status row0 = ''pending''"
      and tot: "bts_total_count row0 = int (length codes)"
      and cc0: "bts_completed_count row0 = 0"
  shows "\<exists>row. mf_get_task_by_id (store (run_analysis env tid codes mode workers r0)) tid
                 = Some row
          \<and> (bts_status row = ''completed'' \<longrightarrow> bts_completed_count row = bts_total_count row)
          \<and> (bts_status row = ''cancelled'' \<longrightarrow>
                0 \<le> bts_completed_count row \<and> bts_completed_count row \<le> bts_total_count row)"
proof -
  define n where "n = length codes"
  define P :: "task_row \<Rightarrow> bool" where "P = (\<lambda>row. (bts_status row = ''completed'' \<longrightarrow> bts_completed_count row = bts_total_count row)
          \<and> (bts_status row = ''cancelled'' \<longrightarrow>
                0 \<le> bts_completed_count row \<and> bts_completed_count row \<le> bts_total_count row))"
  define r1 where "r1 = store_call env (StatusCall tid ''running'')
                 (\<lambda>now db. mf_update_task_status db tid ''running'' None None (Some now) None)
                 (r0\<lparr>results := [], raised := None\<rparr>)"
  define r2 where "r2 = (if raised r1 \<noteq> None then r1
                else if mode = ''sequential'' then sequential_loop env tid (length codes) 0 codes r1
                else if workers \<le> 0 then r1\<lparr>raised := Some ''max_workers must be greater than 0''\<rparr>
                else parallel_loop env tid (length codes) 0 (completion_order env codes) r1)"
  define r3 where "r3 = (if raised r2 \<noteq> None then r2 else finalize env tid codes mode r2)"
  define r4 where "r4 = (case raised r3 of None \<Rightarrow> r3
                | Some error_msg \<Rightarrow>
                    store_call env (StatusCall tid ''failed'')
                      (\<lambda>now db. mf_update_task_status db tid ''failed'' (Some error_msg) None None
                                    (Some now))
                      (r3\<lparr>raised := None\<rparr>))"
  have run: "store (run_analysis env tid codes mode workers r0) = store r4"
    unfolding run_analysis_def Let_def r4_def r3_def r2_def r1_def by simp
  have try_part: "\<exists>row3. mf_get_task_by_id (store r3) tid = Some row3
        \<and> (raised r3 \<noteq> None \<longrightarrow> bts_status row3 = ''pending'' \<or> bts_status row3 = ''running'')
        \<and> (raised r3 = None \<longrightarrow> P row3)"
  proof (cases "raised r1 = None")
    case False
    then have "store_fault env (length (journal r0)) \<noteq> None"
      by (auto simp: r1_def store_call_def split: option.splits)
    then have "store r1 = store r0"
      by (auto simp: r1_def store_call_def split: option.splits)
    moreover have "r3 = r1" using False by (simp add: r3_def r2_def)
    ultimately show ?thesis using row st0 False by auto
  next
    case True
    then have nf1: "store_fault env (length (journal r0)) = None"
      by (auto simp: r1_def store_call_def split: option.splits)
    define row1 where "row1 = row0\<lparr>bts_status := ''running'',
                                 bts_started_at := Some (time_at env (length (journal r0)))\<rparr>"
    have g1: "mf_get_task_by_id (store r1) tid = Some row1"
      using row nf1 by (simp add: r1_def store_call_def row1_def get_status set_if_def)
    have res1: "results r1 = []" by (simp add: r1_def)
    have r2e: "r2 = sequential_loop env tid (length codes) 0 codes r1"
      using True mode by (simp add: r2_def)
    show ?thesis
    proof (cases "raised r2 = None")
      case False
      then have "r3 = r2" by (simp add: r3_def)
      moreover have "map_option bts_status (mf_get_task_by_id (store r2) tid) = Some ''running''"
        unfolding r2e sequential_loop_status using g1 by (simp add: row1_def)
      ultimately show ?thesis using False by auto
    next
      case r2ok: True
      from sequential_loop_ok[OF True r2ok[unfolded r2e] g1, folded r2e] obtain m where
        m: "m \<le> length codes"
        and res: "results r2 = results r1 @ map (analyze_single env) (take m codes)"
        and c: "m < length codes \<longrightarrow> cancel_is_set env (length (results r1) + m)"
        and g: "mf_get_task_by_id (store r2) tid =
             (if m = 0 then Some row1
              else Some (row1\<lparr>bts_completed_count := int (0 + m),
                     bts_current_stock := Some (codes ! (m - 1)),
                     bts_success_count := count_success (results r2),
                     bts_failed_count := count_failed (results r2),
                     bts_progress_percent := percent (0 + m) (length codes)\<rparr>))"
        by blast
      obtain row2 where g2: "mf_get_task_by_id (store r2) tid = Some row2"
        and cc2: "bts_completed_count row2 = int m" and t2: "bts_total_count row2 = int (length codes)"
        and s2: "bts_status row2 = ''running''"
        using g cc0 tot by (cases "m = 0") (auto simp: row1_def)
      have len2: "length (results r2) = m" using res res1 m by simp
      have r3e: "r3 = finalize env tid codes mode r2" using r2ok by (simp add: r3_def)
      have "\<exists>row3. mf_get_task_by_id (store r3) tid = Some row3
          \<and> bts_completed_count row3 = bts_completed_count row2
          \<and> bts_total_count row3 = bts_total_count row2
          \<and> (raised r3 \<noteq> None \<longrightarrow> bts_status row3 = bts_status row2)
          \<and> (raised r3 = None \<longrightarrow>
                bts_status row3 = (if cancel_is_set env (length (results r2))
                                   then ''cancelled'' else ''completed''))"
        unfolding r3e by (rule finalize_general[OF r2ok g2])
      then obtain row3 where
        g3: "mf_get_task_by_id (store r3) tid = Some row3"
        and cc3: "bts_completed_count row3 = bts_completed_count row2"
        and t3: "bts_total_count row3 = bts_total_count row2"
        and bad: "raised r3 \<noteq> None \<longrightarrow> bts_status row3 = bts_status row2"
        and good: "raised r3 = None \<longrightarrow>
                bts_status row3 = (if cancel_is_set env (length (results r2))
                                   then ''cancelled'' else ''completed'')"
        by (elim exE conjE)
      have "raised r3 = None \<longrightarrow> P row3"
      proof
        assume ok: "raised r3 = None"
        show "P row3"
        proof (cases "cancel_is_set env (length (results r2))")
          case True
          with good ok have "bts_status row3 = ''cancelled''" by simp
          then show ?thesis using cc3 cc2 t3 t2 m by (simp add: P_def)
        next
          case False
          with c res1 len2 m have "m = length codes" by auto
          moreover from False good ok have "bts_status row3 = ''completed''" by simp
          ultimately show ?thesis using cc3 cc2 t3 t2 by (simp add: P_def)
        qed
      qed
      with g3 bad s2 show ?thesis by (intro exI[of _ row3]) simp
    qed
  qed
  then obtain row3 where g3: "mf_get_task_by_id (store r3) tid = Some row3"
    and bad: "raised r3 \<noteq> None \<longrightarrow> bts_status row3 = ''pending'' \<or> bts_status row3 = ''running''"
    and good: "raised r3 = None \<longrightarrow> P row3"
    by (elim exE conjE)
  have "\<exists>row. mf_get_task_by_id (store r4) tid = Some row \<and> P row"
  proof (cases "raised r3")
    case None
    then show ?thesis using g3 good by (simp add: r4_def)
  next
    case (Some e)
    have r4e: "r4 = store_call env (StatusCall tid ''failed'')
                      (\<lambda>now db. mf_update_task_status db tid ''failed'' (Some e) None None (Some now))
                      (r3\<lparr>raised := None\<rparr>)"
      using Some by (simp add: r4_def)
    have "\<exists>row'. mf_get_task_by_id (store r4) tid = Some row'
          \<and> bts_completed_count row' = bts_completed_count row3
          \<and> bts_total_count row' = bts_total_count row3
          \<and> (bts_status row' = ''failed'' \<or> bts_status row' = bts_status row3)"
      unfolding r4e by (rule failed_handler[OF g3])
    then obtain row' where
      g4: "mf_get_task_by_id (store r4) tid = Some row'"
      and s4: "bts_status row' = ''failed'' \<or> bts_status row' = bts_status row3"
      by (elim exE conjE)
    from bad Some have s3: "bts_status row3 = ''pending'' \<or> bts_status row3 = ''running''" by simp
    have "bts_status row' \<noteq> ''completed''" "bts_status row' \<noteq> ''cancelled''"
      using s3 s4 by (elim disjE; simp)+
    then have "P row'" by (simp add: P_def)
    with g4 show ?thesis by (intro exI[of _ row']) simp
  qed
  then show ?thesis unfolding run P_def .
qed

lemma finalize_journal:
  "progress_writes (journal (finalize env tid codes mode r)) = progress_writes (journal r)"
  by (simp add: finalize_def Let_def)

lemma run_analysis_journal:
  "\<exists>ws. progress_writes (journal (run_analysis env tid codes mode workers r0))
           = progress_writes (journal r0) @ ws \<and> sorted ws"
proof -
  define r1 where "r1 = store_call env (StatusCall tid ''running'')
                 (\<lambda>now db. mf_update_task_status db tid ''running'' None None (Some now) None)
                 (r0\<lparr>results := [], raised := None\<rparr>)"
  define r2 where "r2 = (if raised r1 \<noteq> None then r1
                else if mode = ''sequential'' then sequential_loop env tid (length codes) 0 codes r1
                else if workers \<le> 0 then r1\<lparr>raised := Some ''max_workers must be greater than 0''\<rparr>
                else parallel_loop env tid (length codes) 0 (completion_order env codes) r1)"
  define r3 where "r3 = (if raised r2 \<noteq> None then r2 else finalize env tid codes mode r2)"
  define r4 where "r4 = (case raised r3 of None \<Rightarrow> r3
                | Some error_msg \<Rightarrow>
                    store_call env (StatusCall tid ''failed'')
                      (\<lambda>now db. mf_update_task_status db tid ''failed'' (Some error_msg) None None
                                    (Some now))
                      (r3\<lparr>raised := None\<rparr>))"
  have run: "journal (run_analysis env tid codes mode workers r0) = journal r4"
    unfolding run_analysis_def Let_def r4_def r3_def r2_def r1_def
    by (simp cong del: option.case_cong_weak if_weak_cong)
  have j1: "progress_writes (journal r1) = progress_writes (journal r0)"
    by (simp add: r1_def)
  have "\<exists>ws. progress_writes (journal r2) = progress_writes (journal r1) @ ws \<and> sorted ws"
    using sequential_loop_journal[of env tid "length codes" 0 codes r1]
          parallel_loop_journal[of env tid "length codes" 0 "completion_order env codes" r1]
    by (auto simp: r2_def)
  then obtain ws where ws: "progress_writes (journal r2) = progress_writes (journal r1) @ ws" "sorted ws"
    by blast
  have j3: "progress_writes (journal r3) = progress_writes (journal r2)"
    by (simp add: r3_def finalize_journal)
  have j4: "progress_writes (journal r4) = progress_writes (journal r3)"
    by (simp add: r4_def split: option.splits)
  show ?thesis unfolding run using j1 ws j3 j4 by auto
qed

lemma run_batch_analysis_journal:
  "\<exists>ws. progress_writes (ana_journal (run_batch_analysis env tid symbols max_workers s0))
           = progress_writes (ana_journal s0) @ ws \<and> sorted ws"
proof -
  define s1 where "s1 = ana_call env (StatusCall tid ''running'')
                 (\<lambda>fault now db. ana_update_task_status fault now db tid ''running'' None) s0"
  from batch_loop_journal[of env tid "length symbols" "ana_completion_order env symbols" "([], s1)"]
  obtain ws where
    ws: "progress_writes (ana_journal (case batch_loop env tid (length symbols)
            (ana_completion_order env symbols) ([], s1) of Inl s \<Rightarrow> s | Inr (rs, s) \<Rightarrow> s))
          = progress_writes (ana_journal s1) @ ws" "sorted ws"
    by auto
  have j1: "progress_writes (ana_journal s1) = progress_writes (ana_journal s0)"
    by (simp add: s1_def)
  show ?thesis
  proof (cases "max_workers \<le> 0")
    case True
    then show ?thesis
      by (simp add: run_batch_analysis_def Let_def cleanup_task_def)
  next
    case False
    show ?thesis
    proof (cases "batch_loop env tid (length symbols) (ana_completion_order env symbols) ([], s1)")
      case (Inl s)
      with ws j1 False show ?thesis
        by (intro exI[of _ ws])
           (simp add: run_batch_analysis_def Let_def cleanup_task_def s1_def[symmetric])
    next
      case (Inr p)
      obtain rs s where p: "p = (rs, s)" by (cases p)
      with Inr ws j1 False show ?thesis
        by (intro exI[of _ ws])
           (simp add: run_batch_analysis_def Let_def cleanup_task_def s1_def[symmetric])
    qed
  qed
qed

lemma fresh_row:
  "mf_get_task_by_id (store (fresh_run five_codes ''sequential'')) ''t1'' =
     Some \<lparr>bts_id = 1, bts_task_id = ''t1'', bts_status = ''pending'',
           bts_stock_codes = five_codes, bts_analysis_mode = ''sequential'',
           bts_max_workers = 3, bts_total_count = 5,
           bts_completed_count = 0, bts_success_count = 0, bts_failed_count = 0,
           bts_current_stock = None, bts_progress_percent = 0,
           bts_error_message = None, bts_history_record_id = None,
           bts_started_at = None, bts_completed_at = None, bts_created_at = 9\<rparr>"
  by (simp add: fresh_run_def mf_create_task_def mf_get_task_by_id_def Let_def five_codes_def)


lemma example_row:
  "ana_find (ana_store example_scheduler) ''b1'' =
     Some \<lparr>ana_task_id = ''b1'', ana_task_type = ''batch'', ana_status = ''pending'',
          ana_symbols = three_symbols, ana_period = ''1y'', ana_config = None,
          ana_total_count = 3, ana_completed_count = 0,
          ana_current_symbol = None, ana_progress_percent = 0, ana_results = None,
          ana_error_message = None, ana_started_at = None, ana_completed_at = None,
          ana_created_at = 19\<rparr>"
  by (simp add: example_scheduler_def ana_create_task_def ana_find_def truthy_dict_def
        three_symbols_def)

text \<open>
  Claim C5.  A batch that runs to the end without cancellation and without a fault of
  the store ends \<^verbatim>\<open>completed\<close>, whatever the number \<open>K\<close> of units that fail.
  \<^item> \<^verbatim>\<open>MainForceBatchScheduler._run_analysis\<close>, in either mode: the task row created for the
    run ends with \<^verbatim>\<open>failed_count = K\<close> and \<^verbatim>\<open>success_count = N - K\<close>, and so does the
    history record that the task points to.
  \<^item> \<^verbatim>\<open>StockAnalysisScheduler._run_batch_analysis\<close>: the table has no count columns; the
    counts \<open>N - K\<close> and \<open>K\<close> are written into the error message when \<open>K\<close> is not 0,
    and the message is left alone when \<open>K = 0\<close>.
\<close>

theorem partial_failure_tolerance:
  "(no_fault env \<and> mf_get_task_by_id (store r0) tid = Some row0
      \<and> bts_success_count row0 = 0 \<and> bts_failed_count row0 = 0
      \<and> (\<forall>j \<le> length codes. \<not> cancel_is_set env j)
      \<and> (mode \<noteq> ''sequential'' \<longrightarrow>
            0 < workers \<and> mset (completion_order env codes) = mset codes)
    \<longrightarrow> (\<exists>row h. mf_get_task_by_id (store (run_analysis env tid codes mode workers r0)) tid = Some row
          \<and> bts_status row = ''completed''
          \<and> bts_failed_count row = int (length (filter (\<lambda>c. \<not> success (analyze_single env c)) codes))
          \<and> bts_success_count row = int (length codes)
               - int (length (filter (\<lambda>c. \<not> success (analyze_single env c)) codes))
          \<and> history_rows (store (run_analysis env tid codes mode workers r0))
               = history_rows (store r0) @ [h]
          \<and> bts_history_record_id row = Some (bah_id h)
          \<and> bah_failed_count h = int (length (filter (\<lambda>c. \<not> success (analyze_single env c)) codes))
          \<and> bah_success_count h = int (length codes)
               - int (length (filter (\<lambda>c. \<not> success (analyze_single env c)) codes))))
   \<and> (ana_healthy aenv \<and> 0 < max_workers \<and> ana_find (ana_store s0) atid = Some arow0
      \<and> (\<forall>j < length symbols. \<not> ana_cancel_is_set aenv j)
      \<and> mset (ana_completion_order aenv symbols) = mset symbols
    \<longrightarrow> (\<exists>row. ana_find (ana_store (run_batch_analysis aenv atid symbols max_workers s0)) atid
                   = Some row
          \<and> ana_status row = ''completed''
          \<and> ana_error_message row =
               (if length (filter (\<lambda>c. \<not> success (unit_outcome aenv c)) symbols) = 0
                then ana_error_message arow0
                else Some (Counts
                  (int (length symbols)
                     - int (length (filter (\<lambda>c. \<not> success (unit_outcome aenv c)) symbols)))
                  (int (length (filter (\<lambda>c. \<not> success (unit_outcome aenv c)) symbols)))))))"
proof (intro conjI impI)
  assume a: "no_fault env \<and> mf_get_task_by_id (store r0) tid = Some row0
      \<and> bts_success_count row0 = 0 \<and> bts_failed_count row0 = 0
      \<and> (\<forall>j \<le> length codes. \<not> cancel_is_set env j)
      \<and> (mode \<noteq> ''sequential'' \<longrightarrow>
            0 < workers \<and> mset (completion_order env codes) = mset codes)"
  then have a1: "no_fault env" and a2: "mf_get_task_by_id (store r0) tid = Some row0"
    and a3: "bts_success_count row0 = 0" and a4: "bts_failed_count row0 = 0"
    and a5: "\<forall>j \<le> length codes. \<not> cancel_is_set env j"
    and a6: "mode \<noteq> ''sequential'' \<longrightarrow>
            0 < workers \<and> mset (completion_order env codes) = mset codes"
    by simp_all
  show "\<exists>row h. mf_get_task_by_id (store (run_analysis env tid codes mode workers r0)) tid = Some row
          \<and> bts_status row = ''completed''
          \<and> bts_failed_count row = int (length (filter (\<lambda>c. \<not> success (analyze_single env c)) codes))
          \<and> bts_success_count row = int (length codes)
               - int (length (filter (\<lambda>c. \<not> success (analyze_single env c)) codes))
          \<and> history_rows (store (run_analysis env tid codes mode workers r0))
               = history_rows (store r0) @ [h]
          \<and> bts_history_record_id row = Some (bah_id h)
          \<and> bah_failed_count h = int (length (filter (\<lambda>c. \<not> success (analyze_single env c)) codes))
          \<and> bah_success_count h = int (length codes)
               - int (length (filter (\<lambda>c. \<not> success (analyze_single env c)) codes))"
    by (rule mf_partial_failure[OF a1 a2 a3 a4 a5 a6])
next
  assume b: "ana_healthy aenv \<and> 0 < max_workers \<and> ana_find (ana_store s0) atid = Some arow0
      \<and> (\<forall>j < length symbols. \<not> ana_cancel_is_set aenv j)
      \<and> mset (ana_completion_order aenv symbols) = mset symbols"
  then have b1: "ana_healthy aenv" and b2: "0 < max_workers"
    and b3: "ana_find (ana_store s0) atid = Some arow0"
    and b4: "\<forall>j < length symbols. \<not> ana_cancel_is_set aenv j"
    and b5: "mset (ana_completion_order aenv symbols) = mset symbols"
    by simp_all
  show "\<exists>row. ana_find (ana_store (run_batch_analysis aenv atid symbols max_workers s0)) atid
                   = Some row
          \<and> ana_status row = ''completed''
          \<and> ana_error_message row =
               (if length (filter (\<lambda>c. \<not> success (unit_outcome aenv c)) symbols) = 0
                then ana_error_message arow0
                else Some (Counts
                  (int (length symbols)
                     - int (length (filter (\<lambda>c. \<not> success (unit_outcome aenv c)) symbols)))
                  (int (length (filter (\<lambda>c. \<not> success (unit_outcome aenv c)) symbols)))))"
    by (rule ana_partial_failure[OF b1 b2 b3 b4 b5])
qed

theorem partial_failure_tolerance_witness:
  "(\<exists>row h. mf_get_task_by_id (store (run_analysis run_to_end ''t1'' five_codes ''sequential'' 3
                 (fresh_run five_codes ''sequential''))) ''t1'' = Some row
     \<and> bts_status row = ''completed'' \<and> bts_failed_count row = 1 \<and> bts_success_count row = 4
     \<and> history_rows (store (run_analysis run_to_end ''t1'' five_codes ''sequential'' 3
                 (fresh_run five_codes ''sequential''))) = [h]
     \<and> bts_history_record_id row = Some (bah_id h)
     \<and> bah_failed_count h = 1 \<and> bah_success_count h = 4)
   \<and> (\<exists>row. ana_find (ana_store (run_batch_analysis example_analysis_env ''b1'' three_symbols 3
                                example_scheduler)) ''b1'' = Some row
     \<and> ana_status row = ''completed'' \<and> ana_error_message row = Some (Counts 2 1))"
proof -
  obtain row0 where row0: "mf_get_task_by_id (store (fresh_run five_codes ''sequential'')) ''t1''
                            = Some row0"
    and fresh: "bts_success_count row0 = 0" "bts_failed_count row0 = 0"
    using fresh_row by simp
  obtain arow0 where arow0: "ana_find (ana_store example_scheduler) ''b1'' = Some arow0"
    and amsg: "ana_error_message arow0 = None"
    using example_row by simp
  have nf: "no_fault run_to_end" by (simp add: no_fault_def run_to_end_def cancel_after_two_def)
  have nc: "\<forall>j \<le> length five_codes. \<not> cancel_is_set run_to_end j" by (simp add: run_to_end_def)
  have K: "length (filter (\<lambda>c. \<not> success (analyze_single run_to_end c)) five_codes) = 1"
    by (simp add: five_codes_def analyze_single_def run_to_end_def cancel_after_two_def failure_def)
  have h0: "history_rows (store (fresh_run five_codes ''sequential'')) = []"
    by (simp add: fresh_run_def mf_create_task_def Let_def)
  have h: "ana_healthy example_analysis_env"
    by (simp add: ana_healthy_def example_analysis_env_def)
  have anc: "\<forall>j < length three_symbols. \<not> ana_cancel_is_set example_analysis_env j"
    by (simp add: example_analysis_env_def)
  have perm: "mset (ana_completion_order example_analysis_env three_symbols) = mset three_symbols"
    by (simp add: example_analysis_env_def)
  have AK: "length (filter (\<lambda>c. \<not> success (unit_outcome example_analysis_env c)) three_symbols) = 1"
    by (simp add: three_symbols_def unit_outcome_def example_analysis_env_def failure_def)
  have n5: "length five_codes = 5" by (simp add: five_codes_def)
  have n3: "length three_symbols = 3" by (simp add: three_symbols_def)
  show ?thesis
    using partial_failure_tolerance [where env = run_to_end
        and ?r0.0 = "fresh_run five_codes ''sequential''" and tid = "''t1''" and ?row0.0 = row0
        and codes = five_codes and mode = "''sequential''" and workers = 3
        and aenv = example_analysis_env and max_workers = 3 and ?s0.0 = example_scheduler
        and atid = "''b1''" and ?arow0.0 = arow0 and symbols = three_symbols]
      row0 fresh arow0 amsg nf nc h anc perm
    unfolding K AK h0 n5 n3
    by simp
qed

lemma example_completed:
  "map_option bts_status (mf_get_task_by_id
       (store (run_analysis run_to_end ''t1'' five_codes ''sequential'' 3
                 (fresh_run five_codes ''sequential''))) ''t1'') = Some ''completed''"
  "map_option bts_total_count (mf_get_task_by_id
       (store (run_analysis run_to_end ''t1'' five_codes ''sequential'' 3
                 (fresh_run five_codes ''sequential''))) ''t1'') = Some 5"
  by (simp_all add: run_defs run_to_end_def cancel_after_two_def five_codes_def fresh_run_def)

text \<open>
  Claim C8.  The values that one run of a batch worker passes as \<^verbatim>\<open>completed_count\<close> to
  its successive \<^verbatim>\<open>update_task_progress\<close> calls are non-decreasing, in both modes of
  \<^verbatim>\<open>MainForceBatchScheduler._run_analysis\<close> and in
  \<^verbatim>\<open>StockAnalysisScheduler._run_batch_analysis\<close>, whatever the cancellation and the
  faults of the store.  In sequential mode, for a task row as \<^verbatim>\<open>create_task\<close> leaves it,
  the row has \<^verbatim>\<open>completed_count = total_count\<close> when the run ends \<^verbatim>\<open>completed\<close> and
  \<^verbatim>\<open>0 \<le> completed_count \<le> total_count\<close> when it ends \<^verbatim>\<open>cancelled\<close>.
\<close>

theorem progress_monotone:
  "(\<exists>ws. progress_writes (journal (run_analysis env tid codes mode workers r0))
            = progress_writes (journal r0) @ ws \<and> sorted ws)
   \<and> (\<exists>ws. progress_writes (ana_journal (run_batch_analysis aenv atid symbols max_workers s0))
            = progress_writes (ana_journal s0) @ ws \<and> sorted ws)
   \<and> (mf_get_task_by_id (store r0) tid = Some row0 \<and> bts_status row0 = ''pending''
        \<and> bts_total_count row0 = int (length codes) \<and> bts_completed_count row0 = 0
      \<longrightarrow> (\<exists>row. mf_get_task_by_id (store (run_analysis env tid codes ''sequential'' workers r0)) tid
                   = Some row
            \<and> (bts_status row = ''completed'' \<longrightarrow> bts_completed_count row = bts_total_count row)
            \<and> (bts_status row = ''cancelled'' \<longrightarrow>
                  0 \<le> bts_completed_count row \<and> bts_completed_count row \<le> bts_total_count row)))"
proof (intro conjI impI)
  show "\<exists>ws. progress_writes (journal (run_analysis env tid codes mode workers r0))
            = progress_writes (journal r0) @ ws \<and> sorted ws"
    by (rule run_analysis_journal)
  show "\<exists>ws. progress_writes (ana_journal (run_batch_analysis aenv atid symbols max_workers s0))
            = progress_writes (ana_journal s0) @ ws \<and> sorted ws"
    by (rule run_batch_analysis_journal)
next
  assume a: "mf_get_task_by_id (store r0) tid = Some row0 \<and> bts_status row0 = ''pending''
        \<and> bts_total_count row0 = int (length codes) \<and> bts_completed_count row0 = 0"
  then have a1: "mf_get_task_by_id (store r0) tid = Some row0"
    and a2: "bts_status row0 = ''pending''"
    and a3: "bts_total_count row0 = int (length codes)"
    and a4: "bts_completed_count row0 = 0"
    by simp_all
  show "\<exists>row. mf_get_task_by_id (store (run_analysis env tid codes ''sequential'' workers r0)) tid
                   = Some row
            \<and> (bts_status row = ''completed'' \<longrightarrow> bts_completed_count row = bts_total_count row)
            \<and> (bts_status row = ''cancelled'' \<longrightarrow>
                  0 \<le> bts_completed_count row \<and> bts_completed_count row \<le> bts_total_count row)"
    by (rule sequential_final_count[OF refl a1 a2 a3 a4])
qed

theorem progress_monotone_witness:
  "sorted (progress_writes (journal (run_analysis run_to_end ''t1'' five_codes ''sequential'' 3
                 (fresh_run five_codes ''sequential''))))
   \<and> sorted (progress_writes (ana_journal (run_batch_analysis example_analysis_env ''b1''
                 three_symbols 3 example_scheduler)))
   \<and> (\<exists>row. mf_get_task_by_id (store (run_analysis run_to_end ''t1'' five_codes ''sequential'' 3
                 (fresh_run five_codes ''sequential''))) ''t1'' = Some row
         \<and> bts_status row = ''completed''
         \<and> bts_completed_count row = 5 \<and> bts_total_count row = 5)"
proof -
  obtain row0 where row0: "mf_get_task_by_id (store (fresh_run five_codes ''sequential'')) ''t1''
                            = Some row0"
    and fresh: "bts_status row0 = ''pending''" "bts_total_count row0 = 5"
               "bts_completed_count row0 = 0"
    using fresh_row by simp
  have n5: "length five_codes = 5" by (simp add: five_codes_def)
  have j0: "journal (fresh_run five_codes ''sequential'') = []" by (simp add: fresh_run_def)
  have a0: "ana_journal example_scheduler = []" by (simp add: example_scheduler_def)
  note T = progress_monotone [where env = run_to_end
        and ?r0.0 = "fresh_run five_codes ''sequential''" and tid = "''t1''" and ?row0.0 = row0
        and codes = five_codes and mode = "''sequential''" and workers = 3
        and aenv = example_analysis_env and max_workers = 3 and ?s0.0 = example_scheduler
        and atid = "''b1''" and symbols = three_symbols]
  from T have s1: "sorted (progress_writes (journal (run_analysis run_to_end ''t1'' five_codes
                 ''sequential'' 3 (fresh_run five_codes ''sequential''))))"
    unfolding j0 by auto
  from T have s2: "sorted (progress_writes (ana_journal (run_batch_analysis example_analysis_env
                 ''b1'' three_symbols 3 example_scheduler)))"
    unfolding a0 by auto
  from T row0 fresh n5 obtain row where
    g: "mf_get_task_by_id (store (run_analysis run_to_end ''t1'' five_codes ''sequential'' 3
                 (fresh_run five_codes ''sequential''))) ''t1'' = Some row"
    and c: "bts_status row = ''completed'' \<longrightarrow> bts_completed_count row = bts_total_count row"
    by auto
  from g example_completed have st: "bts_status row = ''completed''" "bts_total_count row = 5"
    by simp_all
  with c have "bts_completed_count row = 5" by simp
  with s1 s2 g st show ?thesis by simp
qed


section \<open>Creating a task\<close>

lemma sel_create_cases:
  "sel_create_task fault now db tid selector_type params = (False, db)
      \<or> (\<exists>row. sel_create_task fault now db tid selector_type params = (True, db @ [row])
            \<and> sel_task_id row = tid \<and> sel_selector_type row = selector_type
            \<and> sel_status row = ''pending''
            \<and> sel_params row = (if truthy_dict params then Some (PDict (the params)) else None)
            \<and> sel_created_at row = now)"
proof (cases "fault \<or> (truthy_dict params \<and> \<not> dumps_ok False (PDict (the params)))
         \<or> tid \<in> set (map sel_task_id db)")
  case True
  then have "sel_create_task fault now db tid selector_type params = (False, db)"
    unfolding sel_create_task_def by (rule if_P)
  then show ?thesis by (rule disjI1)
next
  case False
  define row where "row = \<lparr>sel_task_id = tid, sel_selector_type = selector_type, sel_status = ''pending'',
          sel_params = (if truthy_dict params then Some (PDict (the params)) else None),
          sel_progress_percent = 0, sel_current_step = None, sel_results = None,
          sel_error_message = None, sel_started_at = None, sel_completed_at = None,
          sel_created_at = now\<rparr>"
  from False have "sel_create_task fault now db tid selector_type params = (True, db @ [row])"
    unfolding sel_create_task_def row_def by (rule if_not_P)
  then show ?thesis by (intro disjI2 exI[of _ row]) (simp add: row_def)
qed

lemma sel_create_true:
  "fst (sel_create_task fault now db tid selector_type params)
        = (\<not> fault \<and> (truthy_dict params \<longrightarrow> dumps_ok False (PDict (the params)))
             \<and> tid \<notin> set (map sel_task_id db))"
proof (cases "fault \<or> (truthy_dict params \<and> \<not> dumps_ok False (PDict (the params)))
         \<or> tid \<in> set (map sel_task_id db)")
  case True
  then have "sel_create_task fault now db tid selector_type params = (False, db)"
    unfolding sel_create_task_def by (rule if_P)
  with True show ?thesis by (simp only: fst_conv) blast
next
  case False
  then have "fst (sel_create_task fault now db tid selector_type params) = True"
    unfolding sel_create_task_def by (simp only: if_not_P fst_conv if_False)
  with False show ?thesis by (simp only:) blast
qed

lemma ana_create_cases:
  "ana_create_task fault now adb tid task_type symbols period config = (False, adb)
      \<or> (\<exists>row. ana_create_task fault now adb tid task_type symbols period config
                  = (True, adb @ [row])
            \<and> ana_task_id row = tid \<and> ana_task_type row = task_type
            \<and> ana_status row = ''pending'' \<and> ana_symbols row = symbols
            \<and> ana_period row = period \<and> ana_total_count row = int (length symbols)
            \<and> ana_config row = (if truthy_dict config then Some (PDict (the config)) else None))"
proof (cases "fault \<or> (truthy_dict config \<and> \<not> dumps_ok False (PDict (the config)))
         \<or> tid \<in> set (map ana_task_id adb)")
  case True
  then have "ana_create_task fault now adb tid task_type symbols period config = (False, adb)"
    unfolding ana_create_task_def by (rule if_P)
  then show ?thesis by (rule disjI1)
next
  case False
  define row where "row = \<lparr>ana_task_id = tid, ana_task_type = task_type, ana_status = ''pending'',
          ana_symbols = symbols, ana_period = period,
          ana_config = (if truthy_dict config then Some (PDict (the config)) else None),
          ana_total_count = int (length symbols), ana_completed_count = 0,
          ana_current_symbol = None, ana_progress_percent = 0, ana_results = None,
          ana_error_message = None, ana_started_at = None, ana_completed_at = None,
          ana_created_at = now\<rparr>"
  from False have "ana_create_task fault now adb tid task_type symbols period config
                     = (True, adb @ [row])"
    unfolding ana_create_task_def row_def by (rule if_not_P)
  then show ?thesis by (intro disjI2 exI[of _ row]) (simp add: row_def)
qed

lemma ana_create_true:
  "fst (ana_create_task fault now adb tid task_type symbols period config)
        = (\<not> fault \<and> (truthy_dict config \<longrightarrow> dumps_ok False (PDict (the config)))
             \<and> tid \<notin> set (map ana_task_id adb))"
proof (cases "fault \<or> (truthy_dict config \<and> \<not> dumps_ok False (PDict (the config)))
         \<or> tid \<in> set (map ana_task_id adb)")
  case True
  then have "ana_create_task fault now adb tid task_type symbols period config = (False, adb)"
    unfolding ana_create_task_def by (rule if_P)
  with True show ?thesis by (simp only: fst_conv) blast
next
  case False
  then have "fst (ana_create_task fault now adb tid task_type symbols period config) = True"
    unfolding ana_create_task_def by (simp only: if_not_P fst_conv if_False)
  with False show ?thesis by (simp only:) blast
qed

lemma mf_create_fault:
  "fault \<Longrightarrow> mf_create_task fault now mdb tid codes mode workers = Inl OperationalError"
  by (simp add: mf_create_task_def)

lemma mf_create_duplicate:
  "\<not> fault \<Longrightarrow> tid \<in> set (map bts_task_id (task_rows mdb))
     \<Longrightarrow> mf_create_task fault now mdb tid codes mode workers = Inl IntegrityError"
  by (simp add: mf_create_task_def)

lemma mf_create_inserts:
  assumes "\<not> fault" and "tid \<notin> set (map bts_task_id (task_rows mdb))"
  shows "\<exists>row. mf_create_task fault now mdb tid codes mode workers
                  = Inr (bts_id row, mdb\<lparr>task_rows := task_rows mdb @ [row],
                                         task_seq := bts_id row\<rparr>)
            \<and> bts_id row = task_seq mdb + 1
            \<and> bts_task_id row = tid \<and> bts_status row = ''pending''
            \<and> bts_stock_codes row = codes \<and> bts_analysis_mode row = mode
            \<and> bts_max_workers row = workers \<and> bts_total_count row = int (length codes)"
proof -
  define row where "row = \<lparr>bts_id = task_seq mdb + 1, bts_task_id = tid, bts_status = ''pending'',
                   bts_stock_codes = codes, bts_analysis_mode = mode,
                   bts_max_workers = workers, bts_total_count = int (length codes),
                   bts_completed_count = 0, bts_success_count = 0, bts_failed_count = 0,
                   bts_current_stock = None, bts_progress_percent = 0,
                   bts_error_message = None, bts_history_record_id = None,
                   bts_started_at = None, bts_completed_at = None, bts_created_at = now\<rparr>"
  from assms have "mf_create_task fault now mdb tid codes mode workers
                  = Inr (bts_id row, mdb\<lparr>task_rows := task_rows mdb @ [row],
                                         task_seq := bts_id row\<rparr>)"
    by (simp add: mf_create_task_def Let_def row_def)
  then show ?thesis by (intro exI[of _ row]) (simp add: row_def)
qed

text \<open>
  Claim C7, as the code has it.  \<^verbatim>\<open>SelectorTaskDB.create_task\<close> and
  \<^verbatim>\<open>StockAnalysisTaskDB.create_task\<close> have two outcomes: they append a \<^verbatim>\<open>pending\<close> row
  with the supplied values and return True, or they return False and leave the table as
  it is; each returns True exactly when the storage layer does not fail, the parameters
  serialize, and the task id is new.  \<^verbatim>\<open>MainForceBatchDatabase.create_task\<close> has no
  \<^verbatim>\<open>try\<close>: a fault of the storage layer makes it raise \<^verbatim>\<open>OperationalError\<close>, a task id
  that exists already makes it raise \<^verbatim>\<open>IntegrityError\<close>, and otherwise it appends the
  \<^verbatim>\<open>pending\<close> row with the supplied values and returns the new record id.
\<close>

theorem create_outcomes:
  "(sel_create_task fault now db tid selector_type params = (False, db)
      \<or> (\<exists>row. sel_create_task fault now db tid selector_type params = (True, db @ [row])
            \<and> sel_task_id row = tid \<and> sel_selector_type row = selector_type
            \<and> sel_status row = ''pending''
            \<and> sel_params row = (if truthy_dict params then Some (PDict (the params)) else None)
            \<and> sel_created_at row = now))
   \<and> (fst (sel_create_task fault now db tid selector_type params)
        = (\<not> fault \<and> (truthy_dict params \<longrightarrow> dumps_ok False (PDict (the params)))
             \<and> tid \<notin> set (map sel_task_id db)))
   \<and> (ana_create_task fault now adb tid task_type symbols period config = (False, adb)
      \<or> (\<exists>row. ana_create_task fault now adb tid task_type symbols period config
                  = (True, adb @ [row])
            \<and> ana_task_id row = tid \<and> ana_task_type row = task_type
            \<and> ana_status row = ''pending'' \<and> ana_symbols row = symbols
            \<and> ana_period row = period \<and> ana_total_count row = int (length symbols)
            \<and> ana_config row = (if truthy_dict config then Some (PDict (the config)) else None)))
   \<and> (fst (ana_create_task fault now adb tid task_type symbols period config)
        = (\<not> fault \<and> (truthy_dict config \<longrightarrow> dumps_ok False (PDict (the config)))
             \<and> tid \<notin> set (map ana_task_id adb)))
   \<and> (fault \<longrightarrow> mf_create_task fault now mdb tid codes mode workers = Inl OperationalError)
   \<and> (\<not> fault \<and> tid \<in> set (map bts_task_id (task_rows mdb))
        \<longrightarrow> mf_create_task fault now mdb tid codes mode workers = Inl IntegrityError)
   \<and> (\<not> fault \<and> tid \<notin> set (map bts_task_id (task_rows mdb))
        \<longrightarrow> (\<exists>row. mf_create_task fault now mdb tid codes mode workers
                  = Inr (bts_id row, mdb\<lparr>task_rows := task_rows mdb @ [row],
                                         task_seq := bts_id row\<rparr>)
            \<and> bts_id row = task_seq mdb + 1
            \<and> bts_task_id row = tid \<and> bts_status row = ''pending''
            \<and> bts_stock_codes row = codes \<and> bts_analysis_mode row = mode
            \<and> bts_max_workers row = workers \<and> bts_total_count row = int (length codes)))"
proof (intro conjI impI)
  show "sel_create_task fault now db tid selector_type params = (False, db)
      \<or> (\<exists>row. sel_create_task fault now db tid selector_type params = (True, db @ [row])
            \<and> sel_task_id row = tid \<and> sel_selector_type row = selector_type
            \<and> sel_status row = ''pending''
            \<and> sel_params row = (if truthy_dict params then Some (PDict (the params)) else None)
            \<and> sel_created_at row = now)"
    by (rule sel_create_cases)
  show "fst (sel_create_task fault now db tid selector_type params)
        = (\<not> fault \<and> (truthy_dict params \<longrightarrow> dumps_ok False (PDict (the params)))
             \<and> tid \<notin> set (map sel_task_id db))"
    by (rule sel_create_true)
  show "ana_create_task fault now adb tid task_type symbols period config = (False, adb)
      \<or> (\<exists>row. ana_create_task fault now adb tid task_type symbols period config
                  = (True, adb @ [row])
            \<and> ana_task_id row = tid \<and> ana_task_type row = task_type
            \<and> ana_status row = ''pending'' \<and> ana_symbols row = symbols
            \<and> ana_period row = period \<and> ana_total_count row = int (length symbols)
            \<and> ana_config row = (if truthy_dict config then Some (PDict (the config)) else None))"
    by (rule ana_create_cases)
  show "fst (ana_create_task fault now adb tid task_type symbols period config)
        = (\<not> fault \<and> (truthy_dict config \<longrightarrow> dumps_ok False (PDict (the config)))
             \<and> tid \<notin> set (map ana_task_id adb))"
    by (rule ana_create_true)
  show "mf_create_task fault now mdb tid codes mode workers = Inl OperationalError" if "fault"
    using that by (rule mf_create_fault)
  show "mf_create_task fault now mdb tid codes mode workers = Inl IntegrityError"
    if "\<not> fault \<and> tid \<in> set (map bts_task_id (task_rows mdb))"
    using that by (simp add: mf_create_duplicate)
  show "\<exists>row. mf_create_task fault now mdb tid codes mode workers
                  = Inr (bts_id row, mdb\<lparr>task_rows := task_rows mdb @ [row],
                                         task_seq := bts_id row\<rparr>)
            \<and> bts_id row = task_seq mdb + 1
            \<and> bts_task_id row = tid \<and> bts_status row = ''pending''
            \<and> bts_stock_codes row = codes \<and> bts_analysis_mode row = mode
            \<and> bts_max_workers row = workers \<and> bts_total_count row = int (length codes)"
    if "\<not> fault \<and> tid \<notin> set (map bts_task_id (task_rows mdb))"
    using that mf_create_inserts[of fault tid mdb now codes mode workers] by (elim conjE) simp
qed

theorem create_outcomes_witness:
  "sel_create_task False 7 [] ''t2'' ''small_cap'' (Some [(PStr ''top_n'', PInt 5)])
     = (True, [\<lparr>sel_task_id = ''t2'', sel_selector_type = ''small_cap'', sel_status = ''pending'',
          sel_params = Some (PDict [(PStr ''top_n'', PInt 5)]),
          sel_progress_percent = 0, sel_current_step = None, sel_results = None,
          sel_error_message = None, sel_started_at = None, sel_completed_at = None,
          sel_created_at = 7\<rparr>])
   \<and> sel_create_task True 7 [] ''t2'' ''small_cap'' (Some [(PStr ''top_n'', PInt 5)]) = (False, [])
   \<and> fst (ana_create_task False 7 [] ''t2'' ''single'' [''600000''] ''1y'' None)
   \<and> \<not> fst (ana_create_task True 7 [] ''t2'' ''single'' [''600000''] ''1y'' None)
   \<and> ''t2'' \<notin> set (map bts_task_id (task_rows example_db))
   \<and> ''t1'' \<in> set (map bts_task_id (task_rows example_db))
   \<and> (\<exists>row. mf_create_task False 7 example_db ''t2'' [''600000''] ''sequential'' 3
                = Inr (bts_id row, example_db\<lparr>task_rows := task_rows example_db @ [row],
                                              task_seq := bts_id row\<rparr>)
           \<and> bts_task_id row = ''t2'' \<and> bts_status row = ''pending'')
   \<and> mf_create_task True 7 example_db ''t2'' [''600000''] ''sequential'' 3 = Inl OperationalError
   \<and> mf_create_task False 7 example_db ''t1'' [''600000''] ''sequential'' 3 = Inl IntegrityError"
proof -
  have new: "''t2'' \<notin> set (map bts_task_id (task_rows example_db))"
    and old: "''t1'' \<in> set (map bts_task_id (task_rows example_db))"
    by (simp_all add: example_db_def example_row_def)
  have p: "truthy_dict (Some [(PStr ''top_n'', PInt 5)])" "\<not> truthy_dict None"
    by (simp_all add: truthy_dict_def)
  note a = create_outcomes [of False 7 "[]" "''t2''" "''small_cap''"
             "Some [(PStr ''top_n'', PInt 5)]" "[]" "''single''" "[''600000'']" "''1y''" None
             example_db "[''600000'']" "''sequential''" 3]
  note b = create_outcomes [of True 7 "[]" "''t2''" "''small_cap''"
             "Some [(PStr ''top_n'', PInt 5)]" "[]" "''single''" "[''600000'']" "''1y''" None
             example_db "[''600000'']" "''sequential''" 3]
  note c = create_outcomes [of False 7 "[]" "''t1''" "''small_cap''"
             "Some [(PStr ''top_n'', PInt 5)]" "[]" "''single''" "[''600000'']" "''1y''" None
             example_db "[''600000'']" "''sequential''" 3]
  have s1: "sel_create_task False 7 [] ''t2'' ''small_cap'' (Some [(PStr ''top_n'', PInt 5)])
     = (True, [\<lparr>sel_task_id = ''t2'', sel_selector_type = ''small_cap'', sel_status = ''pending'',
          sel_params = Some (PDict [(PStr ''top_n'', PInt 5)]),
          sel_progress_percent = 0, sel_current_step = None, sel_results = None,
          sel_error_message = None, sel_started_at = None, sel_completed_at = None,
          sel_created_at = 7\<rparr>])"
    by (simp add: sel_create_task_def truthy_dict_def)
  have s2: "sel_create_task True 7 [] ''t2'' ''small_cap'' (Some [(PStr ''top_n'', PInt 5)])
              = (False, [])"
    using b by (simp add: sel_create_task_def)
  have a1: "fst (ana_create_task False 7 [] ''t2'' ''single'' [''600000''] ''1y'' None)"
    using a p by simp
  have a2: "\<not> fst (ana_create_task True 7 [] ''t2'' ''single'' [''600000''] ''1y'' None)"
    using b by simp
  have m1: "\<exists>row. mf_create_task False 7 example_db ''t2'' [''600000''] ''sequential'' 3
                = Inr (bts_id row, example_db\<lparr>task_rows := task_rows example_db @ [row],
                                              task_seq := bts_id row\<rparr>)
           \<and> bts_task_id row = ''t2'' \<and> bts_status row = ''pending''"
  proof -
    from a new obtain row where
      "mf_create_task False 7 example_db ''t2'' [''600000''] ''sequential'' 3
                = Inr (bts_id row, example_db\<lparr>task_rows := task_rows example_db @ [row],
                                              task_seq := bts_id row\<rparr>)"
      "bts_task_id row = ''t2''" "bts_status row = ''pending''"
      by (elim conjE) auto
    then show ?thesis by (intro exI[of _ row]) simp
  qed
  have m2: "mf_create_task True 7 example_db ''t2'' [''600000''] ''sequential'' 3
              = Inl OperationalError"
    using b by simp
  have m3: "mf_create_task False 7 example_db ''t1'' [''600000''] ''sequential'' 3
              = Inl IntegrityError"
    using c old by simp
  from s1 s2 a1 a2 new old m1 m2 m3 show ?thesis by (intro conjI)
qed

text \<open>
  Claim C7 as stated fails for \<^verbatim>\<open>MainForceBatchDatabase.create_task\<close>: a storage error
  is raised, not returned as False.
\<close>

theorem create_counterexample:
  "mf_create_task True 7 example_db ''t2'' [''600000''] ''sequential'' 3 = Inl OperationalError
   \<and> mf_create_task False 7 example_db ''t1'' [''600000''] ''sequential'' 3 = Inl IntegrityError"
  by (simp add: mf_create_task_def example_db_def example_row_def)


section \<open>The selector scheduler: store calls, admission and the worker\<close>

subsection \<open>The journal of one run of the worker\<close>

lemma sel_call_journal [simp]: "sel_journal (sel_call env c f s) = sel_journal s @ [c]"
  by (simp add: sel_call_def)

lemma set_status_journal [simp]:
  "sel_journal (set_status env tid st em s) = sel_journal s @ [StatusCall tid st]"
  by (simp add: set_status_def)

lemma set_progress_journal [simp]:
  "sel_journal (set_progress env tid step p s) = sel_journal s @ [StepCall tid p]"
  by (simp add: set_progress_def)

lemma run_selection_journal:
  "\<exists>st post. sel_journal (run_selection env tid selector_type s0)
         = sel_journal s0 @ [StatusCall tid ''running'', StepCall tid 10]
             @ (if cancel_seen_first env then []
                else StepCall tid 30 #
                  (case selection_func env of Raises e \<Rightarrow> []
                   | Returns result \<Rightarrow>
                       if cancel_seen_second env then [] else [StepCall tid 80, SaveCall tid]))
             @ [StatusCall tid st] @ post
       \<and> terminal st
       \<and> (post = [] \<or> (st = ''completed'' \<and> post = [StepCall tid 100]))"
proof (cases "cancel_seen_first env")
  case True
  then show ?thesis
    by (intro exI[of _ "''cancelled''"] exI[of _ "[]"])
       (simp add: run_selection_def Let_def sel_cleanup_task_def terminal_def)
next
  case nc1: False
  show ?thesis
  proof (cases "selection_func env")
    case (Raises e)
    with nc1 show ?thesis
      by (intro exI[of _ "''failed''"] exI[of _ "[]"])
         (simp add: run_selection_def Let_def sel_cleanup_task_def terminal_def)
  next
    case (Returns result)
    show ?thesis
    proof (cases "cancel_seen_second env")
      case True
      with nc1 Returns show ?thesis
        by (intro exI[of _ "''cancelled''"] exI[of _ "[]"])
           (simp add: run_selection_def Let_def sel_cleanup_task_def terminal_def)
    next
      case nc2: False
      show ?thesis
      proof (cases "sr_success result")
        case None
        with nc1 nc2 Returns show ?thesis
          by (intro exI[of _ "''failed''"] exI[of _ "[]"])
             (simp add: run_selection_def Let_def sel_cleanup_task_def terminal_def)
      next
        case (Some b)
        show ?thesis
        proof (cases b)
          case True
          with Some nc1 nc2 Returns show ?thesis
            by (intro exI[of _ "''completed''"] exI[of _ "[StepCall tid 100]"])
               (simp add: run_selection_def Let_def sel_cleanup_task_def terminal_def)
        next
          case False
          with Some nc1 nc2 Returns show ?thesis
            by (intro exI[of _ "''failed''"] exI[of _ "[]"])
               (simp add: run_selection_def Let_def sel_cleanup_task_def terminal_def)
        qed
      qed
    qed
  qed
qed

lemma progress_keeps_status:
  "list_all2 (\<lambda>r r'. sel_status r' = sel_status r \<and> sel_task_id r' = sel_task_id r
                \<and> sel_selector_type r' = sel_selector_type r \<and> sel_params r' = sel_params r
                \<and> sel_results r' = sel_results r \<and> sel_error_message r' = sel_error_message r
                \<and> sel_started_at r' = sel_started_at r \<and> sel_completed_at r' = sel_completed_at r
                \<and> sel_created_at r' = sel_created_at r
                \<and> (sel_task_id r \<noteq> tid \<or> fault \<longrightarrow> r' = r)
                \<and> (sel_task_id r = tid \<and> \<not> fault \<longrightarrow>
                      sel_current_step r' = Some step \<and> sel_progress_percent r' = p))
     db (snd (sel_update_task_progress fault db tid step p))"
  unfolding sel_update_task_progress_def
  by (auto simp: list_all2_map2 intro!: list_all2_refl)

lemma status_overwrites:
  "list_all2 (\<lambda>r r'. (sel_task_id r \<noteq> tid \<or> fault \<longrightarrow> r' = r)
                \<and> (sel_task_id r = tid \<and> \<not> fault \<longrightarrow> sel_status r' = st))
     db (snd (sel_update_task_status fault now db tid st em))"
  unfolding sel_update_task_status_def
  by (auto simp: list_all2_map2 intro!: list_all2_refl)

subsection \<open>Pending and running rows of one selector type\<close>





lemma progress_same:
  "map sel_status (snd (sel_update_task_progress fault db tid step p)) = map sel_status db"
  "map sel_task_id (snd (sel_update_task_progress fault db tid step p)) = map sel_task_id db"
  "map sel_selector_type (snd (sel_update_task_progress fault db tid step p))
     = map sel_selector_type db"
  by (simp_all add: sel_update_task_progress_def comp_def cong: map_cong)

lemma save_same:
  "map sel_status (snd (sel_save_task_result fault db tid payload)) = map sel_status db"
  "map sel_task_id (snd (sel_save_task_result fault db tid payload)) = map sel_task_id db"
  "map sel_selector_type (snd (sel_save_task_result fault db tid payload))
     = map sel_selector_type db"
  by (simp_all add: sel_save_task_result_def Let_def comp_def cong: map_cong)

lemma same_view_flight:
  assumes "map sel_status db' = map sel_status db"
      and "map sel_task_id db' = map sel_task_id db"
      and "map sel_selector_type db' = map sel_selector_type db"
  shows "single_flight db' = single_flight db" and "own_live tid db' = own_live tid db"
proof -
  have len: "length db' = length db" using assms(1) by (metis length_map)
  have nth: "\<And>i. i < length db \<Longrightarrow> sel_status (db' ! i) = sel_status (db ! i)
               \<and> sel_task_id (db' ! i) = sel_task_id (db ! i)
               \<and> sel_selector_type (db' ! i) = sel_selector_type (db ! i)"
    using assms len by (metis nth_map)
  have z: "map (\<lambda>r. (sel_selector_type r, sel_status r, sel_task_id r)) db'
         = map (\<lambda>r. (sel_selector_type r, sel_status r, sel_task_id r)) db"
    using len nth by (intro nth_equalityI) simp_all
  have a: "\<And>d. map sel_selector_type (filter (\<lambda>r. non_terminal (sel_status r)) d)
     = map fst (filter (\<lambda>v. non_terminal (fst (snd v)))
          (map (\<lambda>r. (sel_selector_type r, sel_status r, sel_task_id r)) d))"
    by (simp add: filter_map comp_def)
  show "single_flight db' = single_flight db"
    unfolding single_flight_def a z ..
  have b: "\<And>d. own_live tid d = (\<forall>v \<in> set (map (\<lambda>r. (sel_selector_type r, sel_status r, sel_task_id r)) d).
              snd (snd v) = tid \<longrightarrow> non_terminal (fst (snd v)))"
    by (simp add: own_live_def)
  show "own_live tid db' = own_live tid db"
    unfolding b z ..
qed



lemma progress_call_flight [simp]:
  "single_flight (sel_store (set_progress env tid step p s)) = single_flight (sel_store s)"
  "own_live t (sel_store (set_progress env tid step p s)) = own_live t (sel_store s)"
  by (simp_all add: set_progress_def sel_call_def same_view_flight[OF progress_same])

lemma save_call_flight [simp]:
  "single_flight (sel_store (sel_call env (SaveCall tid)
           (\<lambda>fault now db. sel_save_task_result fault db tid payload) s))
   = single_flight (sel_store s)"
  "own_live t (sel_store (sel_call env (SaveCall tid)
           (\<lambda>fault now db. sel_save_task_result fault db tid payload) s))
   = own_live t (sel_store s)"
  by (simp_all add: sel_call_def same_view_flight[OF save_same])



subsection \<open>Starting a selection\<close>












lemma first_selection_eq:
  "first_selection =
     (\<lparr>resp_task_id = Some ''s1'', resp_success = True\<rparr>,
      \<lparr>sel_store = [\<lparr>sel_task_id = ''s1'', sel_selector_type = ''small_cap'',
                      sel_status = ''pending'', sel_params = None, sel_progress_percent = 0,
                      sel_current_step = None, sel_results = None, sel_error_message = None,
                      sel_started_at = None, sel_completed_at = None, sel_created_at = 1\<rparr>],
       task_locks_held = {''small_cap''}, sel_cancel_events = [''s1'' \<mapsto> False],
       sel_running_threads = {''s1''}, sel_journal = []\<rparr>)"
  by (simp add: first_selection_def start_background_selection_def empty_selector_def
        sel_get_running_tasks_def sel_create_task_def truthy_dict_def Let_def)




text \<open>
  Claim C2, as the code has it.  The store applies every update, whatever the status of
  the row: \<^verbatim>\<open>update_task_status\<close> sets the status of the rows of the task to the status
  it is given, and \<^verbatim>\<open>update_task_progress\<close> writes their step and percentage and leaves
  every other column, the status among them, as it is; a call that fails and the rows of
  other tasks change nothing.  What is final is the order of the worker's own calls: one
  run of \<^verbatim>\<open>_run_selection\<close> writes \<^verbatim>\<open>running\<close>, then progress and the result, then one
  status that is completed, failed or cancelled, and after it nothing, except the progress
  of 100 that follows \<^verbatim>\<open>completed\<close>.
\<close>

theorem terminal_finality:
  "list_all2 (\<lambda>r r'. (sel_task_id r \<noteq> tid \<or> fault \<longrightarrow> r' = r)
                \<and> (sel_task_id r = tid \<and> \<not> fault \<longrightarrow> sel_status r' = st))
     db (snd (sel_update_task_status fault now db tid st em))
   \<and> list_all2 (\<lambda>r r'. sel_status r' = sel_status r \<and> sel_task_id r' = sel_task_id r
                \<and> sel_selector_type r' = sel_selector_type r \<and> sel_params r' = sel_params r
                \<and> sel_results r' = sel_results r \<and> sel_error_message r' = sel_error_message r
                \<and> sel_started_at r' = sel_started_at r \<and> sel_completed_at r' = sel_completed_at r
                \<and> sel_created_at r' = sel_created_at r
                \<and> (sel_task_id r \<noteq> tid \<or> fault \<longrightarrow> r' = r)
                \<and> (sel_task_id r = tid \<and> \<not> fault \<longrightarrow>
                      sel_current_step r' = Some step \<and> sel_progress_percent r' = p))
     db (snd (sel_update_task_progress fault db tid step p))
   \<and> (\<exists>final post. sel_journal (run_selection env tid selector_type s0)
         = sel_journal s0 @ [StatusCall tid ''running'', StepCall tid 10]
           @ (if cancel_seen_first env then []
              else StepCall tid 30 #
                (case selection_func env of
                   Raises e \<Rightarrow> []
                 | Returns result \<Rightarrow>
                     if cancel_seen_second env then [] else [StepCall tid 80, SaveCall tid]))
           @ [StatusCall tid final] @ post
       \<and> terminal final
       \<and> (post = [] \<or> (final = ''completed'' \<and> post = [StepCall tid 100])))"
  by (intro conjI status_overwrites progress_keeps_status run_selection_journal)

theorem terminal_finality_witness:
  "map sel_status (snd (sel_update_task_status False 5 (sel_store (snd first_selection)) ''s1''
                          ''running'' None)) = [''running'']
   \<and> map sel_status (snd (sel_update_task_progress False (sel_store (snd first_selection)) ''s1''
                            step_fetching 10)) = [''pending'']
   \<and> map sel_progress_percent (snd (sel_update_task_progress False (sel_store (snd first_selection))
                                      ''s1'' step_fetching 10)) = [10]
   \<and> sel_journal (run_selection example_selection_env ''s1'' ''small_cap'' (snd first_selection))
       = [StatusCall ''s1'' ''running'', StepCall ''s1'' 10, StepCall ''s1'' 30,
          StepCall ''s1'' 80, SaveCall ''s1'', StatusCall ''s1'' ''completed'',
          StepCall ''s1'' 100]"
  using terminal_finality [of "''s1''" False "''running''" "sel_store (snd first_selection)" 5 None
          step_fetching 10 example_selection_env "''small_cap''" "snd first_selection"]
  by (simp add: first_selection_eq sel_update_task_status_def sel_update_task_progress_def
        run_selection_def Let_def example_selection_env_def sel_cleanup_task_def)

text \<open>
  Claim C2 as stated fails: on a completed task, \<^verbatim>\<open>update_task_status\<close> replaces the
  status and \<^verbatim>\<open>update_task_progress\<close> replaces the percentage; and the worker itself
  writes the progress of 100 after it has written \<^verbatim>\<open>completed\<close>.
\<close>

theorem terminal_finality_counterexample:
  "map sel_status finished_selector_db = [''completed'']
   \<and> map sel_status (snd (sel_update_task_status False 9 finished_selector_db ''s0'' ''failed''
                            None)) = [''failed'']
   \<and> map sel_progress_percent finished_selector_db = [80]
   \<and> map sel_progress_percent (snd (sel_update_task_progress False finished_selector_db ''s0''
                                      step_done 100)) = [100]
   \<and> drop 5 (sel_journal (run_selection example_selection_env ''s1'' ''small_cap''
                             (snd first_selection)))
       = [StatusCall ''s1'' ''completed'', StepCall ''s1'' 100]"
  by (simp add: finished_selector_db_def sel_update_task_status_def sel_update_task_progress_def
        first_selection_eq run_selection_def Let_def example_selection_env_def
        sel_cleanup_task_def)

end
